(* ===== verification/Prelude.thy ===== *)
theory Prelude
  imports Main "HOL-Library.Sublist"
begin

text \<open>
  The shared library: the collections the component proofs draw on, the Go string
  helpers the program calls from package \<open>strings\<close> and \<open>strconv\<close>, and the table
  operations (find, delete, update by key) every relational component is built from,
  with the lemmas that carry the component proofs.
\<close>

named_theorems inv_simps \<open>unfoldings of the invariants\<close>
named_theorems op_defs \<open>definitions of operations, unfolded by the proofs about them\<close>

section \<open>Strings of package strings and strconv\<close>

definition HasPrefix :: "string \<Rightarrow> string \<Rightarrow> bool" where
  "HasPrefix s p = prefix p s"

definition HasSuffix :: "string \<Rightarrow> string \<Rightarrow> bool" where
  "HasSuffix s p = suffix p s"

definition TrimPrefix :: "string \<Rightarrow> string \<Rightarrow> string" where
  "TrimPrefix s p = (if HasPrefix s p then drop (length p) s else s)"

fun Join :: "string list \<Rightarrow> string \<Rightarrow> string" where
  "Join [] sep = []"
| "Join [x] sep = x"
| "Join (x # y # zs) sep = x @ sep @ Join (y # zs) sep"

text \<open>\<open>strconv.Itoa\<close> on the non-negative counters the program prints.\<close>

definition digit :: "nat \<Rightarrow> char" where
  "digit n = char_of (48 + n)"

fun Itoa :: "nat \<Rightarrow> string" where
  "Itoa n = (if n < 10 then [digit n] else Itoa (n div 10) @ [digit (n mod 10)])"

declare Itoa.simps [simp del]

definition is_digit :: "char \<Rightarrow> bool" where
  "is_digit c = (48 \<le> (of_char c :: nat) \<and> (of_char c :: nat) \<le> 57)"

definition digit_val :: "char \<Rightarrow> nat" where
  "digit_val c = of_char c - 48"

definition parse_nat :: "string \<Rightarrow> nat" where
  "parse_nat s = foldl (\<lambda>n c. 10 * n + digit_val c) 0 s"

lemma of_char_digit: "n < 10 \<Longrightarrow> (of_char (digit n) :: nat) = 48 + n"
  by (simp add: digit_def of_char_of take_bit_eq_mod)

lemma is_digit_digit [simp]: "n < 10 \<Longrightarrow> is_digit (digit n)"
  by (simp add: is_digit_def of_char_digit)

lemma digit_val_digit [simp]: "n < 10 \<Longrightarrow> digit_val (digit n) = n"
  by (simp add: digit_val_def of_char_digit)

lemma Itoa_digits: "list_all is_digit (Itoa n)"
proof (induction n rule: Itoa.induct)
  case (1 n)
  show ?case
    by (cases "n < 10") (use 1 in \<open>simp_all add: Itoa.simps [of n]\<close>)
qed

lemma Itoa_nonempty [simp]: "Itoa n \<noteq> []"
  by (simp add: Itoa.simps [of n])

lemma parse_nat_Itoa [simp]: "parse_nat (Itoa n) = n"
proof (induction n rule: Itoa.induct)
  case (1 n)
  show ?case
  proof (cases "n < 10")
    case True
    then show ?thesis by (simp add: Itoa.simps [of n] parse_nat_def)
  next
    case False
    with 1 have IH: "parse_nat (Itoa (n div 10)) = n div 10" by simp
    have "parse_nat (Itoa n) = 10 * parse_nat (Itoa (n div 10)) + n mod 10"
      using False by (simp add: Itoa.simps [of n] parse_nat_def)
    with IH show ?thesis by simp
  qed
qed

lemma Itoa_inj: "Itoa m = Itoa n \<Longrightarrow> m = n"
  by (metis parse_nat_Itoa)

lemma Itoa_no_special:
  assumes "c \<in> set (Itoa n)"
  shows "is_digit c"
  using assms Itoa_digits [of n] by (simp add: list_all_iff)

section \<open>Results\<close>

lemma map_sum_Inr: "map_sum f g r = Inr y \<longleftrightarrow> (\<exists>x. r = Inr x \<and> y = g x)"
  by (cases r) auto

lemma map_sum_Inl: "map_sum f g r = Inl y \<longleftrightarrow> (\<exists>x. r = Inl x \<and> y = f x)"
  by (cases r) auto

section \<open>Tables: rows in insertion order, addressed by a key\<close>

definition find_row :: "('r \<Rightarrow> 'k) \<Rightarrow> 'k \<Rightarrow> 'r list \<Rightarrow> 'r option" where
  "find_row key k t = List.find (\<lambda>r. key r = k) t"

definition delete_rows :: "('r \<Rightarrow> bool) \<Rightarrow> 'r list \<Rightarrow> 'r list" where
  "delete_rows cond t = filter (\<lambda>r. \<not> cond r) t"

definition update_rows :: "('r \<Rightarrow> bool) \<Rightarrow> ('r \<Rightarrow> 'r) \<Rightarrow> 'r list \<Rightarrow> 'r list" where
  "update_rows cond upd t = map (\<lambda>r. if cond r then upd r else r) t"

lemma find_row_Some: "find_row key k t = Some r \<Longrightarrow> r \<in> set t \<and> key r = k"
  by (auto simp: find_row_def find_Some_iff)

lemma find_row_None: "find_row key k t = None \<longleftrightarrow> k \<notin> key ` set t"
  by (auto simp: find_row_def find_None_iff)

lemma find_row_append:
  "find_row key k (t @ u) = (case find_row key k t of Some r \<Rightarrow> Some r | None \<Rightarrow> find_row key k u)"
  by (induction t) (simp_all add: find_row_def)

lemma find_row_singleton: "find_row key k [r] = (if key r = k then Some r else None)"
  by (simp add: find_row_def)

lemma find_row_snoc:
  assumes "key r \<notin> key ` set t"
  shows "find_row key k (t @ [r]) = (if k = key r then Some r else find_row key k t)"
proof (cases "k = key r")
  case True
  with assms have "find_row key k t = None" by (simp add: find_row_None)
  with True show ?thesis by (simp add: find_row_append find_row_singleton)
next
  case False
  then show ?thesis by (cases "find_row key k t") (simp_all add: find_row_append find_row_singleton)
qed

lemma find_row_unique:
  "distinct (map key t) \<Longrightarrow> r \<in> set t \<Longrightarrow> find_row key (key r) t = Some r"
  by (induction t) (auto simp: find_row_def)

lemma find_row_iff:
  "distinct (map key t) \<Longrightarrow> find_row key k t = Some r \<longleftrightarrow> r \<in> set t \<and> key r = k"
  by (auto dest: find_row_Some find_row_unique)

lemma set_delete_rows: "set (delete_rows c t) = {r \<in> set t. \<not> c r}"
  by (auto simp: delete_rows_def)

lemma delete_rows_id: "(\<And>r. r \<in> set t \<Longrightarrow> \<not> c r) \<Longrightarrow> delete_rows c t = t"
  by (simp add: delete_rows_def)

lemma update_rows_id: "(\<And>r. r \<in> set t \<Longrightarrow> \<not> c r) \<Longrightarrow> update_rows c u t = t"
  by (auto simp: update_rows_def intro!: map_idI)

lemma update_rows_Nil [simp]: "update_rows c u [] = []"
  by (simp add: update_rows_def)

lemma update_rows_Cons:
  "update_rows c u (r # t) = (if c r then u r else r) # update_rows c u t"
  by (simp add: update_rows_def)

lemma set_update_rows:
  "set (update_rows c u t) = (\<lambda>r. if c r then u r else r) ` set t"
  by (simp add: update_rows_def)

lemma image_delete_rows: "key ` set t \<subseteq> X \<Longrightarrow> key ` set (delete_rows c t) \<subseteq> X"
  by (auto simp: delete_rows_def)

lemma distinct_delete_rows [intro, simp]: "distinct (map key t) \<Longrightarrow> distinct (map key (delete_rows c t))"
  by (simp add: delete_rows_def distinct_map_filter)

lemma distinct_filter_pairs [intro, simp]: "distinct t \<Longrightarrow> distinct (delete_rows c t)"
  by (simp add: delete_rows_def)

lemma map_update_rows_id:
  "(\<And>r. key (u r) = key r) \<Longrightarrow> map key (update_rows c u t) = map key t"
  by (simp add: update_rows_def)

lemma image_update_rows:
  assumes "\<And>r. key (u r) = key r"
  shows "key ` set (update_rows c u t) = key ` set t"
  by (metis assms image_set map_update_rows_id)

lemma find_row_delete_other:
  "(\<And>r. r \<in> set t \<Longrightarrow> key r = k \<Longrightarrow> \<not> c r) \<Longrightarrow> find_row key k (delete_rows c t) = find_row key k t"
  by (induction t) (auto simp: find_row_def delete_rows_def)

lemma find_row_update:
  assumes "\<And>r. key (u r) = key r"
  shows "find_row key k (update_rows c u t)
    = map_option (\<lambda>r. if c r then u r else r) (find_row key k t)"
  by (induction t) (auto simp: find_row_def update_rows_def assms)

lemma distinct_snoc: "distinct (xs @ [x]) \<longleftrightarrow> x \<notin> set xs \<and> distinct xs"
  by auto

lemma list_all2_mem: "list_all2 P xs ys \<Longrightarrow> x \<in> set xs \<Longrightarrow> \<exists>y \<in> set ys. P x y"
  by (induction xs ys rule: list_all2_induct) auto

section \<open>ORDER BY: insertion sort by a comparison\<close>

primrec insort_by :: "('a \<Rightarrow> 'a \<Rightarrow> bool) \<Rightarrow> 'a \<Rightarrow> 'a list \<Rightarrow> 'a list" where
  "insort_by le x [] = [x]"
| "insort_by le x (y # ys) = (if le x y then x # y # ys else y # insort_by le x ys)"

primrec sort_by :: "('a \<Rightarrow> 'a \<Rightarrow> bool) \<Rightarrow> 'a list \<Rightarrow> 'a list" where
  "sort_by le [] = []"
| "sort_by le (x # xs) = insort_by le x (sort_by le xs)"

lemma set_insort_by [simp]: "set (insort_by le x xs) = insert x (set xs)"
  by (induction xs) auto

lemma set_sort_by [simp]: "set (sort_by le xs) = set xs"
  by (induction xs) auto

lemma length_insort_by [simp]: "length (insort_by le x xs) = Suc (length xs)"
  by (induction xs) auto

lemma length_sort_by [simp]: "length (sort_by le xs) = length xs"
  by (induction xs) auto

lemma sort_by_Nil [simp]: "sort_by le xs = [] \<longleftrightarrow> xs = []"
  by (metis length_0_conv length_sort_by)

definition total_preorder :: "('a \<Rightarrow> 'a \<Rightarrow> bool) \<Rightarrow> bool" where
  "total_preorder le \<longleftrightarrow> (\<forall>x y. le x y \<or> le y x) \<and> (\<forall>x y z. le x y \<longrightarrow> le y z \<longrightarrow> le x z)"

lemma sorted_insort_by:
  "total_preorder le \<Longrightarrow> sorted_wrt le xs \<Longrightarrow> sorted_wrt le (insort_by le x xs)"
proof (induction xs)
  case Nil
  then show ?case by simp
next
  case (Cons y ys)
  then have le_trans: "\<And>a b c. le a b \<Longrightarrow> le b c \<Longrightarrow> le a c" and total: "\<And>a b. le a b \<or> le b a"
    unfolding total_preorder_def by blast+
  show ?case
    using Cons total [of x y] by (auto intro: le_trans)
qed

lemma sorted_sort_by: "total_preorder le \<Longrightarrow> sorted_wrt le (sort_by le xs)"
  by (induction xs) (simp_all add: sorted_insort_by)

section \<open>Invariants of step relations\<close>

text \<open>A predicate that every step keeps holds after any run from a state where it held.\<close>

locale step_invariant =
  fixes step :: "'s \<Rightarrow> 's \<Rightarrow> bool" and inv :: "'s \<Rightarrow> bool"
  assumes step_keeps: "step s t \<Longrightarrow> inv s \<Longrightarrow> inv t"
begin

lemma run_keeps: "step\<^sup>*\<^sup>* s t \<Longrightarrow> inv s \<Longrightarrow> inv t"
  by (induction rule: rtranclp_induct) (auto intro: step_keeps)

end

end
