(* ===== verification/Models.thy ===== *)
theory Models
  imports Complex_Main Prelude
begin

text \<open>
  The domain model of \<open>internal/models/models.go\<close>, \<open>pkg/event/event.go\<close> and the query
  and summary types of \<open>internal/store/store.go\<close>. A Go struct is a record with one field
  per Go field, in the order of the source; the Go string types (\<open>CostSourceType\<close>,
  \<open>Role\<close>, \<open>SubjectType\<close>) stay strings, because the code never checks that a value
  is one of the named constants.

  A \<open>time.Time\<close> is its instant, in nanoseconds since 1 January of year 1 UTC, so that Go's
  zero time is 0. A nil pointer, nil slice or nil map is \<open>None\<close>. A \<open>json.RawMessage\<close> is
  the JSON value it holds; a map with string keys is an association list in the order in which
  Go happens to iterate over it.
\<close>

section \<open>Basic types\<close>

type_synonym time = int

definition second :: int where "second = 1000000000"
definition minute :: int where "minute = 60 * second"
definition hour :: int where "hour = 60 * minute"

definition IsZero :: "time \<Rightarrow> bool" where
  "IsZero t \<longleftrightarrow> t = 0"

text \<open>\<open>float64\<close>: a finite value is its exact rational value; the sign of zero is not kept.\<close>

datatype float64 = Fin rat | PosInf | NegInf | NaN

text \<open>JSON values, as package \<open>encoding/json\<close> reads and writes them.\<close>

datatype json =
    JNull
  | JBool bool
  | JNum rat
  | JStr string
  | JArr "json list"
  | JObj "(string \<times> json) list"

section \<open>Projects, cost sources, users, groups\<close>

record project =
  p_id :: string
  p_name :: string
  p_description :: string
  p_created :: time
  p_updated :: time

type_synonym cost_source_type = string

definition CostSourceAWS :: cost_source_type where [simp]: "CostSourceAWS = ''aws_account''"
definition CostSourceAzure :: cost_source_type where [simp]: "CostSourceAzure = ''azure_subscription''"
definition CostSourceGCP :: cost_source_type where [simp]: "CostSourceGCP = ''gcp_project''"
definition CostSourceKubernetes :: cost_source_type where [simp]: "CostSourceKubernetes = ''kubernetes''"
definition CostSourcePlugin :: cost_source_type where [simp]: "CostSourcePlugin = ''plugin''"

record cost_source =
  cs_id :: string
  cs_project :: string
  cs_type :: cost_source_type
  cs_name :: string
  cs_config :: "json option"
  cs_enabled :: bool
  cs_collected :: "time option"
  cs_created :: time
  cs_updated :: time

record user =
  u_id :: string
  u_email :: string
  u_display :: string
  u_subject :: string
  u_created :: time

record group =
  g_id :: string
  g_name :: string
  g_claim :: string
  g_created :: time

section \<open>Roles\<close>

type_synonym role = string

definition RolePlatformAdmin :: role where [simp]: "RolePlatformAdmin = ''platform-admin''"
definition RoleAdmin :: role where [simp]: "RoleAdmin = ''admin''"
definition RoleEditor :: role where [simp]: "RoleEditor = ''editor''"
definition RoleViewer :: role where [simp]: "RoleViewer = ''viewer''"

type_synonym subject_type = string

definition SubjectUser :: subject_type where [simp]: "SubjectUser = ''user''"
definition SubjectGroup :: subject_type where [simp]: "SubjectGroup = ''group''"

record project_role =
  pr_project :: string
  pr_subject_type :: subject_type
  pr_subject :: string
  pr_role :: role

definition role_key :: "project_role \<Rightarrow> string \<times> subject_type \<times> string" where
  "role_key pr = (pr_project pr, pr_subject_type pr, pr_subject pr)"

section \<open>Budgets and cost records\<close>

record budget =
  b_id :: string
  b_project :: string
  b_cost_source :: "string option"
  b_limit :: float64
  b_warn :: float64
  b_created :: time
  b_updated :: time

record cost_record =
  cr_id :: string
  cr_project :: string
  cr_source :: string
  cr_provider :: string
  cr_provider_id :: string
  cr_account_id :: string
  cr_account_name :: string
  cr_invoice :: string
  cr_service :: string
  cr_category :: string
  cr_region :: string
  cr_zone :: string
  cr_start :: time
  cr_end :: time
  cr_list :: float64
  cr_net :: float64
  cr_amortized :: float64
  cr_amortized_net :: float64
  cr_currency :: string
  cr_labels :: "(string \<times> string) list option"
  cr_labels_json :: json
  cr_k8s_percent :: float64

section \<open>Store queries\<close>

record cost_query =
  q_project :: string
  q_source :: string
  q_provider :: string
  q_service :: string
  q_start :: time
  q_end :: time
  q_group_by :: string
  q_limit :: int
  q_offset :: int

record cost_summary =
  sum_list_cost :: float64
  sum_net_cost :: float64
  sum_amortized :: float64
  sum_amortized_net :: float64
  sum_count :: nat

section \<open>Events\<close>

record event =
  ev_type :: string
  ev_topic :: string
  ev_time :: time
  ev_source :: string
  ev_payload :: json

definition TopicCostAllocation :: string where "TopicCostAllocation = ''cost.allocation''"
definition TopicCostIdle :: string where "TopicCostIdle = ''cost.idle.detected''"
definition TopicBudgetWarning :: string where "TopicBudgetWarning = ''budget.warning''"
definition TopicBudgetExceeded :: string where "TopicBudgetExceeded = ''budget.exceeded''"
definition TopicClusterChange :: string where "TopicClusterChange = ''cluster.change''"
definition TopicPluginStatus :: string where "TopicPluginStatus = ''plugin.status''"
definition TopicSystem :: string where "TopicSystem = ''system''"

text \<open>
  \<open>event.New\<close>: \<open>json.Marshal\<close> of the payload may fail (\<open>None\<close> as the marshalled
  payload), the time stamp is the clock reading.
\<close>

definition NewEvent :: "time \<Rightarrow> string \<Rightarrow> string \<Rightarrow> string \<Rightarrow> json option \<Rightarrow> event option" where
  "NewEvent now eventType topic source payload =
     (case payload of
        None \<Rightarrow> None
      | Some data \<Rightarrow> Some \<lparr>ev_type = eventType, ev_topic = topic, ev_time = now,
                        ev_source = source, ev_payload = data\<rparr>)"

end
