(* ===== verification/Database.thy ===== *)
theory Database
  imports Models
begin

text \<open>
  The relational schema of \<open>migrations/000001_init.up.sql\<close> and the effect of the SQL statements
  of \<open>internal/store/sql.go\<close> on it. A table is the list of its rows in insertion order; a
  statement is a function on the tables that either fails with the constraint it violates
  and changes nothing, or returns the new tables. The primary keys, unique columns, foreign
  keys and referential actions are those the schema declares; a nullable column is an option.

  The invariant \<open>db_inv\<close> says that every constraint of the schema holds; the lemmas show
  that every statement preserves it.
\<close>

section \<open>Errors and rows\<close>

datatype store_error =
    DriverError         \<comment> \<open>the driver could not run the statement\<close>
  | UniqueViolation
  | ForeignKeyViolation
  | SyntaxError         \<comment> \<open>the engine rejects the statement text\<close>
  | LabelsError string  \<comment> \<open>stored labels of this record do not decode\<close>

record user_row =
  ur_id :: string
  ur_email :: string
  ur_display :: string
  ur_subject :: "string option"
  ur_created :: time

record group_row =
  gr_id :: string
  gr_name :: string
  gr_claim :: "string option"
  gr_created :: time

record tables =
  t_projects :: "project list"
  t_sources :: "cost_source list"
  t_users :: "user_row list"
  t_groups :: "group_row list"
  t_members :: "(string \<times> string) list"
  t_roles :: "project_role list"
  t_budgets :: "budget list"
  t_records :: "cost_record list"

definition empty_tables :: tables where
  "empty_tables = \<lparr>t_projects = [], t_sources = [], t_users = [], t_groups = [],
     t_members = [], t_roles = [], t_budgets = [], t_records = []\<rparr>"

section \<open>Key columns\<close>

definition project_ids :: "tables \<Rightarrow> string set" where
  "project_ids d = p_id ` set (t_projects d)"

definition source_ids :: "tables \<Rightarrow> string set" where
  "source_ids d = cs_id ` set (t_sources d)"

definition user_ids :: "tables \<Rightarrow> string set" where
  "user_ids d = ur_id ` set (t_users d)"

definition group_ids :: "tables \<Rightarrow> string set" where
  "group_ids d = gr_id ` set (t_groups d)"

text \<open>The non-NULL subjects: a UNIQUE column of SQL admits any number of NULLs.\<close>

definition subjects :: "user_row list \<Rightarrow> string list" where
  "subjects us = concat (map (\<lambda>u. case ur_subject u of None \<Rightarrow> [] | Some s \<Rightarrow> [s]) us)"

section \<open>INSERT statements\<close>

definition stmt_insert_project :: "project \<Rightarrow> tables \<Rightarrow> store_error + tables" where
  "stmt_insert_project p d =
     (if p_id p \<in> project_ids d \<or> p_name p \<in> p_name ` set (t_projects d) then Inl UniqueViolation
      else Inr (d\<lparr>t_projects := t_projects d @ [p]\<rparr>))"

definition stmt_insert_source :: "cost_source \<Rightarrow> tables \<Rightarrow> store_error + tables" where
  "stmt_insert_source cs d =
     (if cs_id cs \<in> source_ids d then Inl UniqueViolation
      else if cs_project cs \<notin> project_ids d then Inl ForeignKeyViolation
      else Inr (d\<lparr>t_sources := t_sources d @ [cs]\<rparr>))"

definition stmt_insert_user :: "user_row \<Rightarrow> tables \<Rightarrow> store_error + tables" where
  "stmt_insert_user u d =
     (if ur_id u \<in> user_ids d \<or> ur_email u \<in> ur_email ` set (t_users d)
         \<or> (case ur_subject u of None \<Rightarrow> False | Some s \<Rightarrow> s \<in> set (subjects (t_users d)))
      then Inl UniqueViolation
      else Inr (d\<lparr>t_users := t_users d @ [u]\<rparr>))"

definition stmt_insert_group :: "group_row \<Rightarrow> tables \<Rightarrow> store_error + tables" where
  "stmt_insert_group g d =
     (if gr_id g \<in> group_ids d \<or> gr_name g \<in> gr_name ` set (t_groups d) then Inl UniqueViolation
      else Inr (d\<lparr>t_groups := t_groups d @ [g]\<rparr>))"

text \<open>\<open>INSERT OR IGNORE\<close> and \<open>ON CONFLICT DO NOTHING\<close>: an existing pair is left alone.\<close>

definition stmt_insert_member :: "string \<Rightarrow> string \<Rightarrow> tables \<Rightarrow> store_error + tables" where
  "stmt_insert_member g u d =
     (if (g, u) \<in> set (t_members d) then Inr d
      else if g \<notin> group_ids d \<or> u \<notin> user_ids d then Inl ForeignKeyViolation
      else Inr (d\<lparr>t_members := t_members d @ [(g, u)]\<rparr>))"

text \<open>\<open>ON CONFLICT DO UPDATE SET role = excluded.role\<close>: an upsert on the primary key.\<close>

definition stmt_upsert_role :: "project_role \<Rightarrow> tables \<Rightarrow> store_error + tables" where
  "stmt_upsert_role pr d =
     (if role_key pr \<in> role_key ` set (t_roles d)
      then Inr (d\<lparr>t_roles := update_rows (\<lambda>r. role_key r = role_key pr)
                             (\<lambda>r. r\<lparr>pr_role := pr_role pr\<rparr>) (t_roles d)\<rparr>)
      else if pr_project pr \<notin> project_ids d then Inl ForeignKeyViolation
      else Inr (d\<lparr>t_roles := t_roles d @ [pr]\<rparr>))"

definition fk_cost_source :: "tables \<Rightarrow> string option \<Rightarrow> bool" where
  "fk_cost_source d c = (case c of None \<Rightarrow> True | Some s \<Rightarrow> s \<in> source_ids d)"

definition stmt_insert_budget :: "budget \<Rightarrow> tables \<Rightarrow> store_error + tables" where
  "stmt_insert_budget b d =
     (if b_id b \<in> b_id ` set (t_budgets d) then Inl UniqueViolation
      else if b_project b \<notin> project_ids d \<or> \<not> fk_cost_source d (b_cost_source b)
        then Inl ForeignKeyViolation
      else Inr (d\<lparr>t_budgets := t_budgets d @ [b]\<rparr>))"

definition stmt_insert_record :: "cost_record \<Rightarrow> tables \<Rightarrow> store_error + tables" where
  "stmt_insert_record r d =
     (if cr_id r \<in> cr_id ` set (t_records d) then Inl UniqueViolation
      else if cr_project r \<notin> project_ids d \<or> cr_source r \<notin> source_ids d
        then Inl ForeignKeyViolation
      else Inr (d\<lparr>t_records := t_records d @ [r]\<rparr>))"

section \<open>UPDATE statements\<close>

text \<open>
  An UPDATE of a unique column fails when another row has the new value; the WHERE
  clause is on the primary key, so at most one row changes, and none is not an error.
\<close>

definition stmt_update_project :: "string \<Rightarrow> string \<Rightarrow> string \<Rightarrow> time \<Rightarrow> tables \<Rightarrow> store_error + tables" where
  "stmt_update_project i name desc t d =
     (if i \<in> project_ids d \<and> (\<exists>p \<in> set (t_projects d). p_id p \<noteq> i \<and> p_name p = name)
      then Inl UniqueViolation
      else Inr (d\<lparr>t_projects := update_rows (\<lambda>p. p_id p = i)
             (\<lambda>p. p\<lparr>p_name := name, p_description := desc, p_updated := t\<rparr>) (t_projects d)\<rparr>))"

definition stmt_update_source ::
  "string \<Rightarrow> string \<Rightarrow> json option \<Rightarrow> bool \<Rightarrow> time \<Rightarrow> tables \<Rightarrow> store_error + tables" where
  "stmt_update_source i name cfg enabled t d =
     Inr (d\<lparr>t_sources := update_rows (\<lambda>s. cs_id s = i)
       (\<lambda>s. s\<lparr>cs_name := name, cs_config := cfg, cs_enabled := enabled, cs_updated := t\<rparr>) (t_sources d)\<rparr>)"

definition stmt_update_collected :: "string \<Rightarrow> time \<Rightarrow> time \<Rightarrow> tables \<Rightarrow> store_error + tables" where
  "stmt_update_collected i tm t d =
     Inr (d\<lparr>t_sources := update_rows (\<lambda>s. cs_id s = i)
       (\<lambda>s. s\<lparr>cs_collected := Some tm, cs_updated := t\<rparr>) (t_sources d)\<rparr>)"

definition stmt_update_budget ::
  "string \<Rightarrow> float64 \<Rightarrow> float64 \<Rightarrow> time \<Rightarrow> tables \<Rightarrow> store_error + tables" where
  "stmt_update_budget i limit warn t d =
     Inr (d\<lparr>t_budgets := update_rows (\<lambda>b. b_id b = i)
       (\<lambda>b. b\<lparr>b_limit := limit, b_warn := warn, b_updated := t\<rparr>) (t_budgets d)\<rparr>)"

section \<open>DELETE statements\<close>

text \<open>
  Deleting cost sources: their cost records go with them (\<open>ON DELETE CASCADE\<close>), the budgets
  that name them keep their row without the reference (\<open>ON DELETE SET NULL\<close>).
\<close>

definition cascade_sources :: "string list \<Rightarrow> tables \<Rightarrow> tables" where
  "cascade_sources gone d = d\<lparr>
     t_sources := delete_rows (\<lambda>s. cs_id s \<in> set gone) (t_sources d),
     t_budgets := update_rows (\<lambda>b. b_cost_source b \<in> Some ` set gone)
                    (\<lambda>b. b\<lparr>b_cost_source := None\<rparr>) (t_budgets d),
     t_records := delete_rows (\<lambda>r. cr_source r \<in> set gone) (t_records d)\<rparr>"

definition stmt_delete_source :: "string \<Rightarrow> tables \<Rightarrow> store_error + tables" where
  "stmt_delete_source i d = Inr (if i \<in> source_ids d then cascade_sources [i] d else d)"

definition sources_of :: "string \<Rightarrow> tables \<Rightarrow> string list" where
  "sources_of i d = map cs_id (filter (\<lambda>s. cs_project s = i) (t_sources d))"

definition stmt_delete_project :: "string \<Rightarrow> tables \<Rightarrow> store_error + tables" where
  "stmt_delete_project i d =
     Inr (if i \<in> project_ids d
          then cascade_sources (sources_of i d) (d\<lparr>
             t_projects := delete_rows (\<lambda>p. p_id p = i) (t_projects d),
             t_roles := delete_rows (\<lambda>r. pr_project r = i) (t_roles d),
             t_budgets := delete_rows (\<lambda>b. b_project b = i) (t_budgets d),
             t_records := delete_rows (\<lambda>r. cr_project r = i) (t_records d)\<rparr>)
          else d)"

definition stmt_delete_member :: "string \<Rightarrow> string \<Rightarrow> tables \<Rightarrow> store_error + tables" where
  "stmt_delete_member g u d = Inr (d\<lparr>t_members := delete_rows (\<lambda>m. m = (g, u)) (t_members d)\<rparr>)"

definition stmt_delete_role ::
  "string \<Rightarrow> subject_type \<Rightarrow> string \<Rightarrow> tables \<Rightarrow> store_error + tables" where
  "stmt_delete_role p st s d =
     Inr (d\<lparr>t_roles := delete_rows (\<lambda>r. role_key r = (p, st, s)) (t_roles d)\<rparr>)"

definition stmt_delete_budget :: "string \<Rightarrow> tables \<Rightarrow> store_error + tables" where
  "stmt_delete_budget i d = Inr (d\<lparr>t_budgets := delete_rows (\<lambda>b. b_id b = i) (t_budgets d)\<rparr>)"

section \<open>The schema invariant\<close>

text \<open>Primary keys and UNIQUE columns.\<close>

definition keys_inv :: "tables \<Rightarrow> bool" where
  [inv_simps]: "keys_inv d \<longleftrightarrow>
     distinct (map p_id (t_projects d)) \<and> distinct (map p_name (t_projects d))
   \<and> distinct (map cs_id (t_sources d))
   \<and> distinct (map ur_id (t_users d)) \<and> distinct (map ur_email (t_users d))
   \<and> distinct (subjects (t_users d))
   \<and> distinct (map gr_id (t_groups d)) \<and> distinct (map gr_name (t_groups d))
   \<and> distinct (t_members d)
   \<and> distinct (map role_key (t_roles d))
   \<and> distinct (map b_id (t_budgets d))
   \<and> distinct (map cr_id (t_records d))"

text \<open>Foreign keys; a NULL reference refers to nothing.\<close>

definition refs_inv :: "tables \<Rightarrow> bool" where
  [inv_simps]: "refs_inv d \<longleftrightarrow>
     cs_project ` set (t_sources d) \<subseteq> project_ids d
   \<and> fst ` set (t_members d) \<subseteq> group_ids d
   \<and> snd ` set (t_members d) \<subseteq> user_ids d
   \<and> pr_project ` set (t_roles d) \<subseteq> project_ids d
   \<and> b_project ` set (t_budgets d) \<subseteq> project_ids d
   \<and> b_cost_source ` set (t_budgets d) \<subseteq> insert None (Some ` source_ids d)
   \<and> cr_project ` set (t_records d) \<subseteq> project_ids d
   \<and> cr_source ` set (t_records d) \<subseteq> source_ids d"

definition db_inv :: "tables \<Rightarrow> bool" where
  [inv_simps]: "db_inv d \<longleftrightarrow> keys_inv d \<and> refs_inv d"

lemmas id_sets = project_ids_def source_ids_def user_ids_def group_ids_def

lemma db_inv_empty: "db_inv empty_tables"
  by (simp add: inv_simps empty_tables_def subjects_def)

lemma subjects_snoc:
  "subjects (us @ [u]) = subjects us @ (case ur_subject u of None \<Rightarrow> [] | Some s \<Rightarrow> [s])"
  by (simp add: subjects_def)

lemma subjects_iff: "s \<in> set (subjects us) \<longleftrightarrow> (\<exists>u \<in> set us. ur_subject u = Some s)"
  by (force simp: subjects_def split: option.splits)

lemma fk_cost_source_iff: "fk_cost_source d c \<longleftrightarrow> c \<in> insert None (Some ` source_ids d)"
  by (auto simp: fk_cost_source_def split: option.splits)

lemmas stmt_insert_defs =
  stmt_insert_project_def stmt_insert_source_def stmt_insert_user_def stmt_insert_group_def
  stmt_insert_member_def stmt_upsert_role_def stmt_insert_budget_def stmt_insert_record_def

lemmas stmt_update_defs =
  stmt_update_project_def stmt_update_source_def stmt_update_collected_def stmt_update_budget_def

lemmas stmt_delete_defs =
  stmt_delete_source_def stmt_delete_project_def stmt_delete_member_def stmt_delete_role_def
  stmt_delete_budget_def

lemmas stmt_simps =
  inv_simps id_sets fk_cost_source_iff subset_insertI2 image_mono
  map_update_rows_id image_update_rows image_delete_rows

subsection \<open>Inserts preserve it\<close>

lemma insert_project_inv: "stmt_insert_project p d = Inr d' \<Longrightarrow> db_inv d \<Longrightarrow> db_inv d'"
  by (clarsimp simp: stmt_insert_project_def split: if_splits; simp add: stmt_simps)

lemma subset_insert_Some: "X \<subseteq> insert None (Some ` A) \<Longrightarrow> X \<subseteq> insert None (insert (Some a) (Some ` A))"
  by blast

lemma insert_source_inv: "stmt_insert_source p d = Inr d' \<Longrightarrow> db_inv d \<Longrightarrow> db_inv d'"
  by (clarsimp simp: stmt_insert_source_def split: if_splits; simp add: stmt_simps subset_insert_Some)

lemma insert_user_inv: "stmt_insert_user p d = Inr d' \<Longrightarrow> db_inv d \<Longrightarrow> db_inv d'"
  by (clarsimp simp: stmt_insert_user_def split: if_splits; simp add: stmt_simps subjects_snoc split: option.splits)

lemma insert_group_inv: "stmt_insert_group p d = Inr d' \<Longrightarrow> db_inv d \<Longrightarrow> db_inv d'"
  by (clarsimp simp: stmt_insert_group_def split: if_splits; simp add: stmt_simps)

lemma insert_member_inv: "stmt_insert_member g u d = Inr d' \<Longrightarrow> db_inv d \<Longrightarrow> db_inv d'"
  by (clarsimp simp: stmt_insert_member_def split: if_splits; simp add: stmt_simps)

lemma role_key_update [simp]: "role_key (r\<lparr>pr_role := x\<rparr>) = role_key r"
  by (simp add: role_key_def)

lemma upsert_role_inv: "stmt_upsert_role pr d = Inr d' \<Longrightarrow> db_inv d \<Longrightarrow> db_inv d'"
  by (clarsimp simp: stmt_upsert_role_def split: if_splits; simp add: stmt_simps)

lemma insert_budget_inv: "stmt_insert_budget b d = Inr d' \<Longrightarrow> db_inv d \<Longrightarrow> db_inv d'"
  by (clarsimp simp: stmt_insert_budget_def split: if_splits; simp add: stmt_simps)

lemma insert_record_inv: "stmt_insert_record r d = Inr d' \<Longrightarrow> db_inv d \<Longrightarrow> db_inv d'"
  by (clarsimp simp: stmt_insert_record_def split: if_splits; simp add: stmt_simps)

subsection \<open>Updates preserve it\<close>

lemma update_source_inv: "stmt_update_source i n c e t d = Inr d' \<Longrightarrow> db_inv d \<Longrightarrow> db_inv d'"
  by (clarsimp simp: stmt_update_source_def split: if_splits; simp add: stmt_simps)

lemma update_collected_inv: "stmt_update_collected i tm t d = Inr d' \<Longrightarrow> db_inv d \<Longrightarrow> db_inv d'"
  by (clarsimp simp: stmt_update_collected_def split: if_splits; simp add: stmt_simps)

lemma update_budget_inv: "stmt_update_budget i l w t d = Inr d' \<Longrightarrow> db_inv d \<Longrightarrow> db_inv d'"
  by (clarsimp simp: stmt_update_budget_def split: if_splits; simp add: stmt_simps)

text \<open>Renaming one row keeps a UNIQUE column distinct when no other row has the new name.\<close>

lemma distinct_rename:
  assumes "distinct (map key t)" and "distinct (map nm t)"
    and "\<And>r. r \<in> set t \<Longrightarrow> key r \<noteq> k \<Longrightarrow> nm r \<noteq> n"
    and "\<And>r. key (u r) = key r" and "\<And>r. nm (u r) = n"
  shows "distinct (map nm (update_rows (\<lambda>r. key r = k) u t))"
  using assms(1-3)
proof (induction t)
  case Nil
  then show ?case by (simp add: update_rows_def)
next
  case (Cons r t)
  have IH: "distinct (map nm (update_rows (\<lambda>r. key r = k) u t))"
    using Cons by auto
  have "nm (if key r = k then u r else r) \<notin> nm ` set (update_rows (\<lambda>r. key r = k) u t)"
    using Cons.prems assms(4,5)
    by (auto simp: set_update_rows image_iff split: if_splits; metis)
  with IH show ?case by (simp add: update_rows_Cons)
qed

lemma update_project_names:
  assumes "keys_inv d" and "i \<in> project_ids d \<Longrightarrow> \<forall>p \<in> set (t_projects d). p_id p \<noteq> i \<longrightarrow> p_name p \<noteq> n"
    and "\<And>p :: project. p_id (u p) = p_id p" and "\<And>p. p_name (u p) = n"
  shows "distinct (map p_name (update_rows (\<lambda>p. p_id p = i) u (t_projects d)))"
proof (cases "i \<in> project_ids d")
  case True
  show ?thesis
    by (rule distinct_rename) (use assms True in \<open>auto simp: inv_simps\<close>)
next
  case False
  then have "update_rows (\<lambda>p. p_id p = i) u (t_projects d) = t_projects d"
    by (auto simp: update_rows_def project_ids_def intro!: map_idI)
  with assms(1) show ?thesis by (simp add: inv_simps)
qed

lemma update_project_inv:
  assumes "stmt_update_project i n ds t d = Inr d'" and "db_inv d"
  shows "db_inv d'"
proof -
  let ?u = "\<lambda>p :: project. p\<lparr>p_name := n, p_description := ds, p_updated := t\<rparr>"
  have d': "d' = d\<lparr>t_projects := update_rows (\<lambda>p. p_id p = i) ?u (t_projects d)\<rparr>"
    and free: "i \<in> project_ids d \<Longrightarrow> \<forall>p \<in> set (t_projects d). p_id p \<noteq> i \<longrightarrow> p_name p \<noteq> n"
    using assms(1) by (auto simp: stmt_update_project_def split: if_splits)
  have "distinct (map p_name (update_rows (\<lambda>p. p_id p = i) ?u (t_projects d)))"
    using assms(2) free by (intro update_project_names) (auto simp: db_inv_def)
  with assms(2) show ?thesis by (simp add: d' stmt_simps)
qed

subsection \<open>Deletes preserve it\<close>

lemma delete_member_inv: "stmt_delete_member g u d = Inr d' \<Longrightarrow> db_inv d \<Longrightarrow> db_inv d'"
  by (clarsimp simp: stmt_delete_member_def split: if_splits; simp add: stmt_simps)

lemma delete_role_inv: "stmt_delete_role p st s d = Inr d' \<Longrightarrow> db_inv d \<Longrightarrow> db_inv d'"
  by (clarsimp simp: stmt_delete_role_def split: if_splits; simp add: stmt_simps)

lemma delete_budget_inv: "stmt_delete_budget i d = Inr d' \<Longrightarrow> db_inv d \<Longrightarrow> db_inv d'"
  by (clarsimp simp: stmt_delete_budget_def split: if_splits; simp add: stmt_simps)

text \<open>
  The cascade restores the references into the sources it removes; every other reference
  has to hold before it.
\<close>

lemma cascade_budget_refs:
  assumes "b_cost_source ` set B \<subseteq> insert None (Some ` cs_id ` set S)"
  shows "b_cost_source ` set (update_rows (\<lambda>b. b_cost_source b \<in> Some ` set gone)
             (\<lambda>b. b\<lparr>b_cost_source := None\<rparr>) B)
       \<subseteq> insert None (Some ` cs_id ` set (delete_rows (\<lambda>s. cs_id s \<in> set gone) S))"
proof
  fix c assume "c \<in> b_cost_source ` set (update_rows (\<lambda>b. b_cost_source b \<in> Some ` set gone)
             (\<lambda>b. b\<lparr>b_cost_source := None\<rparr>) B)"
  then obtain b where b: "b \<in> set B" "c = None \<or> c = b_cost_source b \<and> c \<notin> Some ` set gone"
    by (auto simp: set_update_rows split: if_splits)
  from b(1) assms have "b_cost_source b \<in> insert None (Some ` cs_id ` set S)" by blast
  with b(2) show "c \<in> insert None (Some ` cs_id ` set (delete_rows (\<lambda>s. cs_id s \<in> set gone) S))"
    by (auto simp: set_delete_rows)
qed

lemma cascade_sources_inv:
  assumes "keys_inv d"
    and "cs_project ` {s \<in> set (t_sources d). cs_id s \<notin> set gone} \<subseteq> project_ids d"
    and "refs_inv (d\<lparr>t_sources := []\<rparr>\<lparr>t_budgets := []\<rparr>\<lparr>t_records := []\<rparr>)"
    and "b_project ` set (t_budgets d) \<subseteq> project_ids d"
    and "b_cost_source ` set (t_budgets d) \<subseteq> insert None (Some ` source_ids d)"
    and "cr_project ` set (t_records d) \<subseteq> project_ids d"
    and "cr_source ` set (t_records d) \<subseteq> source_ids d"
  shows "db_inv (cascade_sources gone d)"
proof -
  let ?d = "cascade_sources gone d"
  have "keys_inv ?d"
    using assms(1) by (simp add: cascade_sources_def keys_inv_def map_update_rows_id)
  moreover have "cr_source ` set (delete_rows (\<lambda>r. cr_source r \<in> set gone) (t_records d))
      \<subseteq> cs_id ` set (delete_rows (\<lambda>s. cs_id s \<in> set gone) (t_sources d))"
  proof (rule image_subsetI)
    fix r assume "r \<in> set (delete_rows (\<lambda>r. cr_source r \<in> set gone) (t_records d))"
    then have r: "r \<in> set (t_records d)" "cr_source r \<notin> set gone"
      by (simp_all add: set_delete_rows)
    with assms(7) obtain s where "s \<in> set (t_sources d)" "cs_id s = cr_source r"
      unfolding source_ids_def by (metis image_iff image_subset_iff)
    with r(2) show "cr_source r \<in> cs_id ` set (delete_rows (\<lambda>s. cs_id s \<in> set gone) (t_sources d))"
      by (metis (mono_tags, lifting) image_eqI mem_Collect_eq set_delete_rows)
  qed
  moreover have "cs_project ` set (delete_rows (\<lambda>s. cs_id s \<in> set gone) (t_sources d)) \<subseteq> project_ids d"
    using assms(2) by (auto simp: set_delete_rows)
  ultimately show ?thesis
    using assms(3-6) cascade_budget_refs [of "t_budgets d" "t_sources d" gone]
    by (simp add: db_inv_def refs_inv_def id_sets cascade_sources_def image_update_rows
        image_delete_rows)
qed

lemma subset_image_filter: "f ` A \<subseteq> B \<Longrightarrow> f ` {x \<in> A. P x} \<subseteq> B"
  by blast

lemma delete_source_inv: "stmt_delete_source i d = Inr d' \<Longrightarrow> db_inv d \<Longrightarrow> db_inv d'"
  unfolding stmt_delete_source_def
  by (clarsimp split: if_splits)
    (rule cascade_sources_inv; simp add: db_inv_def refs_inv_def id_sets subset_image_filter)

text \<open>The rows of a project that \<open>DELETE FROM projects\<close> removes before the source cascade.\<close>

definition drop_project :: "string \<Rightarrow> tables \<Rightarrow> tables" where
  "drop_project i d = d\<lparr>
     t_projects := delete_rows (\<lambda>p. p_id p = i) (t_projects d),
     t_roles := delete_rows (\<lambda>r. pr_project r = i) (t_roles d),
     t_budgets := delete_rows (\<lambda>b. b_project b = i) (t_budgets d),
     t_records := delete_rows (\<lambda>r. cr_project r = i) (t_records d)\<rparr>"

lemma project_ids_drop: "project_ids (drop_project i d) = project_ids d - {i}"
  by (auto simp: drop_project_def project_ids_def set_delete_rows)

lemma drop_project_frame [simp]:
  "t_sources (drop_project i d) = t_sources d" "source_ids (drop_project i d) = source_ids d"
  "t_members (drop_project i d) = t_members d" "group_ids (drop_project i d) = group_ids d"
  "user_ids (drop_project i d) = user_ids d"
  "t_roles (drop_project i d) = delete_rows (\<lambda>r. pr_project r = i) (t_roles d)"
  "t_budgets (drop_project i d) = delete_rows (\<lambda>b. b_project b = i) (t_budgets d)"
  "t_records (drop_project i d) = delete_rows (\<lambda>r. cr_project r = i) (t_records d)"
  by (simp_all add: drop_project_def id_sets)

lemma no_children_ids [simp]:
  "project_ids (d\<lparr>t_sources := S, t_budgets := B, t_records := R\<rparr>) = project_ids d"
  "group_ids (d\<lparr>t_sources := S, t_budgets := B, t_records := R\<rparr>) = group_ids d"
  "user_ids (d\<lparr>t_sources := S, t_budgets := B, t_records := R\<rparr>) = user_ids d"
  by (simp_all add: id_sets)

lemma other_project_rows:
  "key ` set t \<subseteq> A \<Longrightarrow> key ` set (delete_rows (\<lambda>r. key r = i) t) \<subseteq> A - {i}"
  by (auto simp: set_delete_rows)

lemma delete_project_inv:
  assumes "stmt_delete_project i d = Inr d'" and "db_inv d"
  shows "db_inv d'"
proof (cases "i \<in> project_ids d")
  case False
  with assms show ?thesis by (simp add: stmt_delete_project_def)
next
  case True
  with assms(1) have d': "d' = cascade_sources (sources_of i d) (drop_project i d)"
    by (simp add: stmt_delete_project_def drop_project_def)
  have "keys_inv (drop_project i d)"
    using assms(2) by (simp add: db_inv_def keys_inv_def drop_project_def)
  moreover have "cs_project ` {s \<in> set (t_sources d). cs_id s \<notin> set (sources_of i d)} \<subseteq> project_ids d - {i}"
    using assms(2) by (auto simp: db_inv_def refs_inv_def sources_of_def)
  ultimately have "db_inv (cascade_sources (sources_of i d) (drop_project i d))"
    using assms(2)
    by (intro cascade_sources_inv)
      (simp_all add: db_inv_def refs_inv_def project_ids_drop drop_project_frame
         other_project_rows image_delete_rows)
  with d' show ?thesis by simp
qed

lemmas stmt_inv =
  insert_project_inv insert_source_inv insert_user_inv insert_group_inv insert_member_inv
  upsert_role_inv insert_budget_inv insert_record_inv
  update_project_inv update_source_inv update_collected_inv update_budget_inv
  delete_source_inv delete_project_inv delete_member_inv delete_role_inv delete_budget_inv

end
