(* ===== verification/Rebind.thy ===== *)
theory Rebind
  imports Prelude
begin

text \<open>
  Placeholder rewriting (\<open>internal/store/rebind.go\<close>) and data source names
  (\<open>parseDSN\<close> of \<open>internal/store/sql.go\<close>): the store writes its statements with \<open>?\<close>
  placeholders and, for PostgreSQL, turns the \<open>n\<close>-th one outside single quotes into \<open>$n\<close>.
  The theory relates the rewriting to two readers of SQL text: the positional reader, which
  counts \<open>?\<close>, and the numbered reader, which reads \<open>$n\<close>.
\<close>

section \<open>rebindQuery\<close>

text \<open>The loop of \<open>rebindQuery\<close>: the counter \<open>n\<close>, the flag \<open>inQuote\<close>, the rest of the text.\<close>

fun rebind_loop :: "nat \<Rightarrow> bool \<Rightarrow> string \<Rightarrow> string" where
  "rebind_loop n inQuote [] = []"
| "rebind_loop n inQuote (ch # rest) =
     (if ch = CHR 0x27 then ch # rebind_loop n (\<not> inQuote) rest
      else if ch = CHR ''?'' \<and> \<not> inQuote
        then CHR ''$'' # Itoa (Suc n) @ rebind_loop (Suc n) inQuote rest
      else ch # rebind_loop n inQuote rest)"

definition rebindQuery :: "string \<Rightarrow> string" where
  "rebindQuery query = (if CHR ''?'' \<notin> set query then query else rebind_loop 0 False query)"

text \<open>\<open>rebindDB.rebind\<close> and \<open>rebindTx.rebind\<close>: only the \<open>pgx\<close> driver is rewritten.\<close>

definition rebind :: "string \<Rightarrow> string \<Rightarrow> string" where
  "rebind driver query = (if driver \<noteq> ''pgx'' then query else rebindQuery query)"

section \<open>parseDSN\<close>

definition parseDSN :: "string \<Rightarrow> string \<times> string" where
  "parseDSN dsn =
     (if HasPrefix dsn ''postgres://'' \<or> HasPrefix dsn ''postgresql://'' then (''pgx'', dsn)
      else
        let connStr = TrimPrefix dsn ''sqlite://'';
            connStr = TrimPrefix connStr ''sqlite:///'';
            connStr = (if connStr = '''' then ''/tmp/finguard.db'' else connStr)
        in (''sqlite'', connStr))"

section \<open>Readers of statement text\<close>

text \<open>The number of \<open>?\<close> placeholders outside single-quoted literals.\<close>

fun count_holes :: "bool \<Rightarrow> string \<Rightarrow> nat" where
  "count_holes inQuote [] = 0"
| "count_holes inQuote (ch # rest) =
     (if ch = CHR 0x27 then count_holes (\<not> inQuote) rest
      else if ch = CHR ''?'' \<and> \<not> inQuote then Suc (count_holes inQuote rest)
      else count_holes inQuote rest)"

text \<open>The numbers of the \<open>$n\<close> parameters outside single-quoted literals, in text order.\<close>

fun dollar_params :: "bool \<Rightarrow> string \<Rightarrow> nat list" where
  "dollar_params inQuote [] = []"
| "dollar_params inQuote (ch # rest) =
     (if ch = CHR 0x27 then dollar_params (\<not> inQuote) rest
      else if ch = CHR ''$'' \<and> \<not> inQuote
        then parse_nat (takeWhile is_digit rest) # dollar_params inQuote rest
      else dollar_params inQuote rest)"

text \<open>Replacing each \<open>$n\<close> outside quotes by \<open>?\<close>: the positional text back from a numbered one.\<close>

function unbind :: "bool \<Rightarrow> string \<Rightarrow> string" where
  "unbind inQuote [] = []"
| "unbind inQuote (ch # rest) =
     (if ch = CHR 0x27 then ch # unbind (\<not> inQuote) rest
      else if ch = CHR ''$'' \<and> \<not> inQuote then CHR ''?'' # unbind inQuote (dropWhile is_digit rest)
      else ch # unbind inQuote rest)"
  by pat_completeness auto
termination
  by (relation "measure (\<lambda>(_, s). length s)") (auto simp: length_dropWhile_le le_imp_less_Suc)

text \<open>No \<open>$\<close> outside quotes, and no placeholder directly followed by a digit.\<close>

fun plain_text :: "bool \<Rightarrow> string \<Rightarrow> bool" where
  "plain_text inQuote [] = True"
| "plain_text inQuote (ch # rest) =
     (if ch = CHR 0x27 then plain_text (\<not> inQuote) rest
      else (inQuote \<or> ch \<noteq> CHR ''$'')
        \<and> (inQuote \<or> ch \<noteq> CHR ''?'' \<or> rest = [] \<or> \<not> is_digit (hd rest))
        \<and> plain_text inQuote rest)"

section \<open>Lemmas\<close>

lemma rebind_loop_no_hole: "CHR ''?'' \<notin> set q \<Longrightarrow> rebind_loop n b q = q"
  by (induction n b q rule: rebind_loop.induct) auto

lemma rebindQuery_loop: "rebindQuery q = rebind_loop 0 False q"
  by (simp add: rebindQuery_def rebind_loop_no_hole)

lemma special_no_digit [simp]:
  "\<not> is_digit (CHR 0x27)" "\<not> is_digit (CHR ''$'')" "\<not> is_digit (CHR ''?'')"
  by (simp_all add: is_digit_def)

lemma dollar_params_digits:
  "list_all is_digit ds \<Longrightarrow> dollar_params b (ds @ rest) = dollar_params b rest"
  by (induction ds) (auto simp: is_digit_def)

lemma rebind_loop_hd:
  "q \<noteq> [] \<Longrightarrow> \<not> is_digit (hd q) \<Longrightarrow> \<not> is_digit (hd (rebind_loop n b q))"
  by (cases q) auto

lemma rebind_loop_Nil [simp]: "rebind_loop n b q = [] \<longleftrightarrow> q = []"
  by (cases q) auto

lemma takeWhile_digits:
  assumes "list_all is_digit ds" and "r = [] \<or> \<not> is_digit (hd r)"
  shows "takeWhile is_digit (ds @ r) = ds" and "dropWhile is_digit (ds @ r) = r"
proof -
  have ds: "\<And>x. x \<in> set ds \<Longrightarrow> is_digit x"
    using assms(1) by (simp add: list_all_iff)
  show "takeWhile is_digit (ds @ r) = ds"
    using assms(2) ds by (cases r) (auto simp: takeWhile_append2)
  show "dropWhile is_digit (ds @ r) = r"
    using assms(2) ds by (cases r) (auto simp: dropWhile_append2)
qed

lemma rebound_hole:
  assumes "rest = [] \<or> \<not> is_digit (hd rest)"
  shows "takeWhile is_digit (Itoa k @ rebind_loop n b rest) = Itoa k"
    and "dropWhile is_digit (Itoa k @ rebind_loop n b rest) = rebind_loop n b rest"
  using assms takeWhile_digits [OF Itoa_digits, of "rebind_loop n b rest" k] rebind_loop_hd
  by (cases "rest = []"; simp)+

lemma dollar_params_rebind_loop:
  "plain_text b q \<Longrightarrow> dollar_params b (rebind_loop n b q) = [Suc n..<Suc n + count_holes b q]"
proof (induction n b q rule: rebind_loop.induct)
  case (1 n b)
  then show ?case by simp
next
  case (2 n b ch rest)
  show ?case
  proof (cases "ch = CHR ''?'' \<and> \<not> b")
    case True
    with 2 have next_: "rest = [] \<or> \<not> is_digit (hd rest)" and pl: "plain_text b rest"
      by auto
    have "dollar_params b (rebind_loop n b (ch # rest))
        = Suc n # dollar_params b (rebind_loop (Suc n) b rest)"
      using True rebound_hole(1) [OF next_, of "Suc n" "Suc n" b]
      by (simp add: dollar_params_digits Itoa_digits)
    also have "\<dots> = Suc n # [Suc (Suc n)..<Suc (Suc n) + count_holes b rest]"
      using 2 True pl by auto
    also have "\<dots> = [Suc n..<Suc n + count_holes b (ch # rest)]"
      using True by (simp add: upt_conv_Cons)
    finally show ?thesis .
  next
    case False
    with 2 show ?thesis by auto
  qed
qed

lemma unbind_rebind_loop: "plain_text b q \<Longrightarrow> unbind b (rebind_loop n b q) = q"
proof (induction n b q rule: rebind_loop.induct)
  case (1 n b)
  then show ?case by simp
next
  case (2 n b ch rest)
  show ?case
  proof (cases "ch = CHR ''?'' \<and> \<not> b")
    case True
    with 2 have next_: "rest = [] \<or> \<not> is_digit (hd rest)" and pl: "plain_text b rest"
      by auto
    show ?thesis
      using True 2 pl rebound_hole(2) [OF next_, of "Suc n" "Suc n" b] by simp
  next
    case False
    with 2 show ?thesis by auto
  qed
qed

lemma length_rebind_loop:
  "length q + count_holes b q \<le> length (rebind_loop n b q)"
proof (induction n b q rule: rebind_loop.induct)
  case (2 n b ch rest)
  have "Suc 0 \<le> length (Itoa (Suc n))"
    using Itoa_nonempty [of "Suc n"] by (cases "Itoa (Suc n)") auto
  with 2 show ?case by auto
qed simp

end
