(* ===== verification/Store.thy ===== *)
theory Store
  imports Database Rebind "HOL-Library.AList"
begin

text \<open>
  \<open>SQLStore\<close> of \<open>internal/store/sql.go\<close>: every method of the \<open>Store\<close> interface, as a
  function on the \<open>world\<close> (the tables, and how many driver calls, clock readings and generated
  identifiers there have been). What the code gets from outside is in \<open>env\<close>: which driver
  is open, which driver calls fail, what the clock and the UUID generator return, the
  collation of \<open>ORDER BY\<close> on text, the engine's \<open>SUM\<close> of floating-point values, and what its columns keep of a
  time and of a number: a \<open>TIMESTAMP\<close> of PostgreSQL keeps microseconds and a \<open>REAL\<close> of it four bytes, while SQLite
  keeps the whole value. A method passes its arguments through these columns; the struct it was given keeps the
  values it had.

  A failing driver call leaves the tables as they are: the error of a statement that the server has executed
  although its answer is lost is not modelled. Methods that fill in a struct they
  are given (identifier, time stamps) return the struct.
\<close>

section \<open>Environment and driver calls\<close>

record env =
  e_driver :: string
  e_fault :: "nat \<Rightarrow> bool"
  e_clock :: "nat \<Rightarrow> time"
  e_uuid :: "nat \<Rightarrow> string"
  e_collate :: "string \<Rightarrow> string \<Rightarrow> bool"
  e_sum :: "float64 list \<Rightarrow> float64"
  e_time :: "time \<Rightarrow> time"
  e_real :: "float64 \<Rightarrow> float64"

record world =
  w_db :: tables
  w_calls :: nat
  w_ticks :: nat
  w_ids :: nat

definition init_world :: world where
  "init_world = \<lparr>w_db = empty_tables, w_calls = 0, w_ticks = 0, w_ids = 0\<rparr>"

type_synonym 'a io = "world \<Rightarrow> (store_error + 'a) \<times> world"

definition newID :: "env \<Rightarrow> world \<Rightarrow> string \<times> world" where
  "newID e w = (e_uuid e (w_ids w), w\<lparr>w_ids := Suc (w_ids w)\<rparr>)"

definition now :: "env \<Rightarrow> world \<Rightarrow> time \<times> world" where
  "now e w = (e_clock e (w_ticks w), w\<lparr>w_ticks := Suc (w_ticks w)\<rparr>)"

text \<open>The \<open>if x.ID == "" { x.ID = newID() }\<close> of every create method.\<close>

definition ensure_id :: "env \<Rightarrow> string \<Rightarrow> world \<Rightarrow> string \<times> world" where
  "ensure_id e i w = (if i = '''' then newID e w else (i, w))"

definition driver_call :: "env \<Rightarrow> world \<Rightarrow> bool \<times> world" where
  "driver_call e w = (\<not> e_fault e (w_calls w), w\<lparr>w_calls := Suc (w_calls w)\<rparr>)"

text \<open>\<open>ExecContext\<close>, and \<open>QueryContext\<close> or \<open>QueryRowContext\<close> with its scan.\<close>

definition exec :: "env \<Rightarrow> (tables \<Rightarrow> store_error + tables) \<Rightarrow> unit io" where
  "exec e stmt w =
     (let (ok, w) = driver_call e w in
      if \<not> ok then (Inl DriverError, w)
      else case stmt (w_db w) of
             Inl err \<Rightarrow> (Inl err, w)
           | Inr d \<Rightarrow> (Inr (), w\<lparr>w_db := d\<rparr>))"

definition query_rows :: "env \<Rightarrow> (tables \<Rightarrow> 'a) \<Rightarrow> 'a io" where
  "query_rows e sel w =
     (let (ok, w) = driver_call e w in
      if \<not> ok then (Inl DriverError, w) else (Inr (sel (w_db w)), w))"

section \<open>What the columns keep\<close>

definition keep_project :: "env \<Rightarrow> project \<Rightarrow> project" where
  "keep_project e p = p\<lparr>p_created := e_time e (p_created p), p_updated := e_time e (p_updated p)\<rparr>"

definition keep_source :: "env \<Rightarrow> cost_source \<Rightarrow> cost_source" where
  "keep_source e s = s\<lparr>cs_collected := map_option (e_time e) (cs_collected s),
     cs_created := e_time e (cs_created s), cs_updated := e_time e (cs_updated s)\<rparr>"

definition keep_user :: "env \<Rightarrow> user_row \<Rightarrow> user_row" where
  "keep_user e u = u\<lparr>ur_created := e_time e (ur_created u)\<rparr>"

definition keep_group :: "env \<Rightarrow> group_row \<Rightarrow> group_row" where
  "keep_group e g = g\<lparr>gr_created := e_time e (gr_created g)\<rparr>"

definition keep_budget :: "env \<Rightarrow> budget \<Rightarrow> budget" where
  "keep_budget e b = b\<lparr>b_limit := e_real e (b_limit b), b_warn := e_real e (b_warn b),
     b_created := e_time e (b_created b), b_updated := e_time e (b_updated b)\<rparr>"

definition keep_record :: "env \<Rightarrow> cost_record \<Rightarrow> cost_record" where
  "keep_record e r = r\<lparr>cr_start := e_time e (cr_start r), cr_end := e_time e (cr_end r),
     cr_list := e_real e (cr_list r), cr_net := e_real e (cr_net r), cr_amortized := e_real e (cr_amortized r),
     cr_amortized_net := e_real e (cr_amortized_net r), cr_k8s_percent := e_real e (cr_k8s_percent r)\<rparr>"

section \<open>Projects\<close>

definition CreateProject :: "env \<Rightarrow> project \<Rightarrow> project io" where
  "CreateProject e p w =
     (let (i, w) = ensure_id e (p_id p) w;
          (t, w) = now e w;
          p = p\<lparr>p_id := i, p_created := t, p_updated := t\<rparr>;
          (r, w) = exec e (stmt_insert_project (keep_project e p)) w
      in (map_sum id (\<lambda>_. p) r, w))"

definition GetProject :: "env \<Rightarrow> string \<Rightarrow> project option io" where
  "GetProject e i = query_rows e (\<lambda>d. find_row p_id i (t_projects d))"

definition ListProjects :: "env \<Rightarrow> project list io" where
  "ListProjects e =
     query_rows e (\<lambda>d. sort_by (\<lambda>a b. e_collate e (p_name a) (p_name b)) (t_projects d))"

definition UpdateProject :: "env \<Rightarrow> project \<Rightarrow> project io" where
  "UpdateProject e p w =
     (let (t, w) = now e w;
          p = p\<lparr>p_updated := t\<rparr>;
          (r, w) = exec e (stmt_update_project (p_id p) (p_name p) (p_description p) (e_time e t)) w
      in (map_sum id (\<lambda>_. p) r, w))"

definition DeleteProject :: "env \<Rightarrow> string \<Rightarrow> unit io" where
  "DeleteProject e i = exec e (stmt_delete_project i)"

section \<open>Cost sources\<close>

text \<open>An empty \<open>Config\<close> is stored as the text \<open>{}\<close>.\<close>

definition config_json :: "json option \<Rightarrow> json" where
  "config_json c = (case c of None \<Rightarrow> JObj [] | Some j \<Rightarrow> j)"

definition CreateCostSource :: "env \<Rightarrow> cost_source \<Rightarrow> cost_source io" where
  "CreateCostSource e cs w =
     (let (i, w) = ensure_id e (cs_id cs) w;
          (t, w) = now e w;
          cs = cs\<lparr>cs_id := i, cs_created := t, cs_updated := t\<rparr>;
          row = cs\<lparr>cs_config := Some (config_json (cs_config cs)), cs_collected := None\<rparr>;
          (r, w) = exec e (stmt_insert_source (keep_source e row)) w
      in (map_sum id (\<lambda>_. cs) r, w))"

definition GetCostSource :: "env \<Rightarrow> string \<Rightarrow> cost_source option io" where
  "GetCostSource e i = query_rows e (\<lambda>d. find_row cs_id i (t_sources d))"

definition ListCostSources :: "env \<Rightarrow> string \<Rightarrow> cost_source list io" where
  "ListCostSources e projectID =
     query_rows e (\<lambda>d. sort_by (\<lambda>a b. e_collate e (cs_name a) (cs_name b))
                       (filter (\<lambda>s. cs_project s = projectID) (t_sources d)))"

definition UpdateCostSource :: "env \<Rightarrow> cost_source \<Rightarrow> cost_source io" where
  "UpdateCostSource e cs w =
     (let (t, w) = now e w;
          cs = cs\<lparr>cs_updated := t\<rparr>;
          (r, w) = exec e (stmt_update_source (cs_id cs) (cs_name cs)
                     (Some (config_json (cs_config cs))) (cs_enabled cs) (e_time e t)) w
      in (map_sum id (\<lambda>_. cs) r, w))"

definition DeleteCostSource :: "env \<Rightarrow> string \<Rightarrow> unit io" where
  "DeleteCostSource e i = exec e (stmt_delete_source i)"

definition UpdateCostSourceCollectedAt :: "env \<Rightarrow> string \<Rightarrow> time \<Rightarrow> unit io" where
  "UpdateCostSourceCollectedAt e i tm w =
     (let (t, w) = now e w in exec e (stmt_update_collected i (e_time e tm) (e_time e t)) w)"

section \<open>Users and groups\<close>

definition nullString :: "string \<Rightarrow> string option" where
  "nullString s = (if s = '''' then None else Some s)"

text \<open>Scanning a \<open>sql.NullString\<close>: its \<open>String\<close> field is empty for NULL.\<close>

definition null_text :: "string option \<Rightarrow> string" where
  "null_text c = (case c of None \<Rightarrow> '''' | Some s \<Rightarrow> s)"

definition scan_user :: "user_row \<Rightarrow> user" where
  "scan_user r = \<lparr>u_id = ur_id r, u_email = ur_email r, u_display = ur_display r,
     u_subject = null_text (ur_subject r), u_created = ur_created r\<rparr>"

definition user_row_of :: "user \<Rightarrow> user_row" where
  "user_row_of u = \<lparr>ur_id = u_id u, ur_email = u_email u, ur_display = u_display u,
     ur_subject = nullString (u_subject u), ur_created = u_created u\<rparr>"

definition CreateUser :: "env \<Rightarrow> user \<Rightarrow> user io" where
  "CreateUser e u w =
     (let (i, w) = ensure_id e (u_id u) w;
          (t, w) = now e w;
          u = u\<lparr>u_id := i, u_created := t\<rparr>;
          (r, w) = exec e (stmt_insert_user (keep_user e (user_row_of u))) w
      in (map_sum id (\<lambda>_. u) r, w))"

definition GetUser :: "env \<Rightarrow> string \<Rightarrow> user option io" where
  "GetUser e i = query_rows e (\<lambda>d. map_option scan_user (find_row ur_id i (t_users d)))"

definition GetUserByEmail :: "env \<Rightarrow> string \<Rightarrow> user option io" where
  "GetUserByEmail e email =
     query_rows e (\<lambda>d. map_option scan_user (find_row ur_email email (t_users d)))"

text \<open>\<open>WHERE oidc_subject = ?\<close>: NULL equals no argument.\<close>

definition GetUserByOIDCSubject :: "env \<Rightarrow> string \<Rightarrow> user option io" where
  "GetUserByOIDCSubject e subject =
     query_rows e (\<lambda>d. map_option scan_user (find_row ur_subject (Some subject) (t_users d)))"

definition ListUsers :: "env \<Rightarrow> user list io" where
  "ListUsers e = query_rows e (\<lambda>d.
     map scan_user (sort_by (\<lambda>a b. e_collate e (ur_email a) (ur_email b)) (t_users d)))"

definition scan_group :: "group_row \<Rightarrow> group" where
  "scan_group r = \<lparr>g_id = gr_id r, g_name = gr_name r, g_claim = null_text (gr_claim r),
     g_created = gr_created r\<rparr>"

definition group_row_of :: "group \<Rightarrow> group_row" where
  "group_row_of g = \<lparr>gr_id = g_id g, gr_name = g_name g, gr_claim = nullString (g_claim g),
     gr_created = g_created g\<rparr>"

definition CreateGroup :: "env \<Rightarrow> group \<Rightarrow> group io" where
  "CreateGroup e g w =
     (let (i, w) = ensure_id e (g_id g) w;
          (t, w) = now e w;
          g = g\<lparr>g_id := i, g_created := t\<rparr>;
          (r, w) = exec e (stmt_insert_group (keep_group e (group_row_of g))) w
      in (map_sum id (\<lambda>_. g) r, w))"

definition GetGroup :: "env \<Rightarrow> string \<Rightarrow> group option io" where
  "GetGroup e i = query_rows e (\<lambda>d. map_option scan_group (find_row gr_id i (t_groups d)))"

definition GetGroupByOIDCClaim :: "env \<Rightarrow> string \<Rightarrow> group option io" where
  "GetGroupByOIDCClaim e claim =
     query_rows e (\<lambda>d. map_option scan_group (find_row gr_claim (Some claim) (t_groups d)))"

definition ListGroups :: "env \<Rightarrow> group list io" where
  "ListGroups e = query_rows e (\<lambda>d.
     map scan_group (sort_by (\<lambda>a b. e_collate e (gr_name a) (gr_name b)) (t_groups d)))"

definition AddGroupMember :: "env \<Rightarrow> string \<Rightarrow> string \<Rightarrow> unit io" where
  "AddGroupMember e groupID userID = exec e (stmt_insert_member groupID userID)"

definition RemoveGroupMember :: "env \<Rightarrow> string \<Rightarrow> string \<Rightarrow> unit io" where
  "RemoveGroupMember e groupID userID = exec e (stmt_delete_member groupID userID)"

text \<open>\<open>users u JOIN group_members gm ON u.id = gm.user_id WHERE gm.group_id = ?\<close>\<close>

definition ListGroupMembers :: "env \<Rightarrow> string \<Rightarrow> user list io" where
  "ListGroupMembers e groupID = query_rows e (\<lambda>d.
     map scan_user (sort_by (\<lambda>a b. e_collate e (ur_email a) (ur_email b))
       [u. u \<leftarrow> t_users d, gm \<leftarrow> t_members d, ur_id u = snd gm \<and> fst gm = groupID]))"

section \<open>Project roles\<close>

definition SetProjectRole :: "env \<Rightarrow> project_role \<Rightarrow> unit io" where
  "SetProjectRole e pr = exec e (stmt_upsert_role pr)"

definition RemoveProjectRole :: "env \<Rightarrow> string \<Rightarrow> subject_type \<Rightarrow> string \<Rightarrow> unit io" where
  "RemoveProjectRole e projectID subjectType subjectID =
     exec e (stmt_delete_role projectID subjectType subjectID)"

definition ListProjectRoles :: "env \<Rightarrow> string \<Rightarrow> project_role list io" where
  "ListProjectRoles e projectID =
     query_rows e (\<lambda>d. filter (\<lambda>r. pr_project r = projectID) (t_roles d))"

definition GetUserProjectRole :: "env \<Rightarrow> string \<Rightarrow> string \<Rightarrow> project_role option io" where
  "GetUserProjectRole e projectID userID =
     query_rows e (\<lambda>d. find_row role_key (projectID, ''user'', userID) (t_roles d))"

text \<open>
  The query of \<open>ListUserProjects\<close>: the left join of projects and roles, its WHERE clause
  (a comparison with the NULL of an unmatched project is not true), and DISTINCT.
\<close>

definition left_join_roles :: "tables \<Rightarrow> (project \<times> project_role option) list" where
  "left_join_roles d = concat (map (\<lambda>p.
     (case filter (\<lambda>r. pr_project r = p_id p) (t_roles d) of
        [] \<Rightarrow> [(p, None)]
      | rs \<Rightarrow> map (\<lambda>r. (p, Some r)) rs)) (t_projects d))"

definition user_groups :: "tables \<Rightarrow> string \<Rightarrow> string list" where
  "user_groups d userID = map fst (filter (\<lambda>m. snd m = userID) (t_members d))"

definition role_concerns :: "tables \<Rightarrow> string \<Rightarrow> project_role option \<Rightarrow> bool" where
  "role_concerns d userID row = (case row of
     None \<Rightarrow> False
   | Some r \<Rightarrow> pr_subject_type r = ''user'' \<and> pr_subject r = userID
               \<or> pr_subject r \<in> set (user_groups d userID))"

definition ListUserProjects :: "env \<Rightarrow> string \<Rightarrow> project list io" where
  "ListUserProjects e userID = query_rows e (\<lambda>d.
     sort_by (\<lambda>a b. e_collate e (p_name a) (p_name b))
       (remdups (map fst (filter (\<lambda>row. role_concerns d userID (snd row)) (left_join_roles d)))))"

section \<open>Budgets\<close>

definition CreateBudget :: "env \<Rightarrow> budget \<Rightarrow> budget io" where
  "CreateBudget e b w =
     (let (i, w) = ensure_id e (b_id b) w;
          (t, w) = now e w;
          b = b\<lparr>b_id := i, b_created := t, b_updated := t\<rparr>;
          (r, w) = exec e (stmt_insert_budget (keep_budget e b)) w
      in (map_sum id (\<lambda>_. b) r, w))"

definition GetBudget :: "env \<Rightarrow> string \<Rightarrow> budget option io" where
  "GetBudget e i = query_rows e (\<lambda>d. find_row b_id i (t_budgets d))"

definition ListBudgets :: "env \<Rightarrow> string \<Rightarrow> budget list io" where
  "ListBudgets e projectID =
     query_rows e (\<lambda>d. filter (\<lambda>b. b_project b = projectID) (t_budgets d))"

definition UpdateBudget :: "env \<Rightarrow> budget \<Rightarrow> budget io" where
  "UpdateBudget e b w =
     (let (t, w) = now e w;
          b = b\<lparr>b_updated := t\<rparr>;
          (r, w) = exec e (stmt_update_budget (b_id b) (e_real e (b_limit b)) (e_real e (b_warn b)) (e_time e t)) w
      in (map_sum id (\<lambda>_. b) r, w))"

definition DeleteBudget :: "env \<Rightarrow> string \<Rightarrow> unit io" where
  "DeleteBudget e i = exec e (stmt_delete_budget i)"

section \<open>Cost records\<close>

definition marshal_labels :: "(string \<times> string) list option \<Rightarrow> json" where
  "marshal_labels m = (case m of
     None \<Rightarrow> JObj []
   | Some kvs \<Rightarrow> JObj (map (\<lambda>(k, v). (k, JStr v)) kvs))"

text \<open>
  The loop of \<open>InsertCostRecords\<close>, on the tables as the open transaction sees them.
\<close>

fun insert_records_loop :: "env \<Rightarrow> cost_record list \<Rightarrow> tables \<Rightarrow> tables io" where
  "insert_records_loop e [] tx w = (Inr tx, w)"
| "insert_records_loop e (r # rs) tx w =
     (let (i, w) = ensure_id e (cr_id r) w;
          row = r\<lparr>cr_id := i, cr_labels := None, cr_labels_json := marshal_labels (cr_labels r)\<rparr>;
          (ok, w) = driver_call e w
      in if \<not> ok then (Inl DriverError, w)
         else case stmt_insert_record (keep_record e row) tx of
                Inl err \<Rightarrow> (Inl err, w)
              | Inr tx \<Rightarrow> insert_records_loop e rs tx w)"

text \<open>\<open>BeginTx\<close>, \<open>PrepareContext\<close>, the loop, \<open>Commit\<close>; every early return rolls back.\<close>

definition InsertCostRecords :: "env \<Rightarrow> cost_record list \<Rightarrow> unit io" where
  "InsertCostRecords e records w =
     (let (begun, w) = driver_call e w in
      if \<not> begun then (Inl DriverError, w)
      else
        let (prepared, w) = driver_call e w in
        if \<not> prepared then (Inl DriverError, w)
        else
          let (r, w) = insert_records_loop e records (w_db w) w in
          case r of
            Inl err \<Rightarrow> (Inl err, w)
          | Inr tx \<Rightarrow>
              let (committed, w) = driver_call e w in
              if \<not> committed then (Inl DriverError, w) else (Inr (), w\<lparr>w_db := tx\<rparr>))"

datatype sql_arg = ArgText string | ArgTime time

text \<open>The conditions \<open>buildCostWhere\<close> collects, with their text, argument and meaning.\<close>

datatype cost_cond =
    CondProject string | CondSource string | CondProvider string | CondService string
  | CondStart time | CondEnd time

fun cond_text :: "cost_cond \<Rightarrow> string" where
  "cond_text (CondProject _) = ''project_id = ?''"
| "cond_text (CondSource _) = ''cost_source_id = ?''"
| "cond_text (CondProvider _) = ''provider = ?''"
| "cond_text (CondService _) = ''service = ?''"
| "cond_text (CondStart _) = ''start_time >= ?''"
| "cond_text (CondEnd _) = ''end_time <= ?''"

fun cond_arg :: "cost_cond \<Rightarrow> sql_arg" where
  "cond_arg (CondProject s) = ArgText s"
| "cond_arg (CondSource s) = ArgText s"
| "cond_arg (CondProvider s) = ArgText s"
| "cond_arg (CondService s) = ArgText s"
| "cond_arg (CondStart t) = ArgTime t"
| "cond_arg (CondEnd t) = ArgTime t"

fun cond_holds :: "cost_cond \<Rightarrow> cost_record \<Rightarrow> bool" where
  "cond_holds (CondProject s) r = (cr_project r = s)"
| "cond_holds (CondSource s) r = (cr_source r = s)"
| "cond_holds (CondProvider s) r = (cr_provider r = s)"
| "cond_holds (CondService s) r = (cr_service r = s)"
| "cond_holds (CondStart t) r = (cr_start r \<ge> t)"
| "cond_holds (CondEnd t) r = (cr_end r \<le> t)"

definition cost_conditions :: "cost_query \<Rightarrow> cost_cond list" where
  "cost_conditions q =
     (if q_project q \<noteq> '''' then [CondProject (q_project q)] else [])
   @ (if q_source q \<noteq> '''' then [CondSource (q_source q)] else [])
   @ (if q_provider q \<noteq> '''' then [CondProvider (q_provider q)] else [])
   @ (if q_service q \<noteq> '''' then [CondService (q_service q)] else [])
   @ (if \<not> IsZero (q_start q) then [CondStart (q_start q)] else [])
   @ (if \<not> IsZero (q_end q) then [CondEnd (q_end q)] else [])"

definition buildCostWhere :: "cost_query \<Rightarrow> string \<times> sql_arg list" where
  "buildCostWhere q =
     (let conditions = cost_conditions q in
      if conditions = [] then ('''', [])
      else ('' WHERE '' @ Join (map cond_text conditions) '' AND '', map cond_arg conditions))"

text \<open>An argument is compared as the column keeps it.\<close>

fun keep_cond :: "env \<Rightarrow> cost_cond \<Rightarrow> cost_cond" where
  "keep_cond e (CondStart t) = CondStart (e_time e t)"
| "keep_cond e (CondEnd t) = CondEnd (e_time e t)"
| "keep_cond e c = c"

definition where_rows :: "env \<Rightarrow> cost_query \<Rightarrow> tables \<Rightarrow> cost_record list" where
  "where_rows e q d = filter (\<lambda>r. \<forall>c \<in> set (cost_conditions q). cond_holds (keep_cond e c) r) (t_records d)"

text \<open>Decoding a stored label object into a \<open>map[string]string\<close>; a later duplicate key wins.\<close>

fun label_values :: "(string \<times> json) list \<Rightarrow> (string \<times> string) list option" where
  "label_values [] = Some []"
| "label_values ((k, JStr v) # kvs) = map_option (Cons (k, v)) (label_values kvs)"
| "label_values ((k, JNull) # kvs) = map_option (Cons (k, '''')) (label_values kvs)"
| "label_values (_ # kvs) = None"

fun unmarshal_labels :: "json \<Rightarrow> (string \<times> string) list option option" where
  "unmarshal_labels (JObj kvs) =
     map_option (\<lambda>l. Some (fold (\<lambda>(k, v). AList.update k v) l [])) (label_values kvs)"
| "unmarshal_labels JNull = Some None"
| "unmarshal_labels _ = None"

fun scan_records :: "cost_record list \<Rightarrow> store_error + cost_record list" where
  "scan_records [] = Inr []"
| "scan_records (r # rs) =
     (if cr_labels_json r \<noteq> JObj [] then
        (case unmarshal_labels (cr_labels_json r) of
           None \<Rightarrow> Inl (LabelsError (cr_id r))
         | Some m \<Rightarrow> map_sum id (Cons (r\<lparr>cr_labels := m\<rparr>)) (scan_records rs))
      else map_sum id (Cons r) (scan_records rs))"

text \<open>
  \<open>LIMIT\<close> and \<open>OFFSET\<close> are written only for positive numbers. SQLite's grammar has OFFSET only as
  a part of the LIMIT clause, so the statement with an OFFSET alone is rejected by it.
\<close>

definition page :: "int \<Rightarrow> int \<Rightarrow> 'a list \<Rightarrow> 'a list" where
  "page limit offset rows =
     (let rows = (if offset > 0 then drop (nat offset) rows else rows)
      in if limit > 0 then take (nat limit) rows else rows)"

definition QueryCostRecords :: "env \<Rightarrow> cost_query \<Rightarrow> cost_record list io" where
  "QueryCostRecords e q w =
     (let (ok, w) = driver_call e w in
      if \<not> ok then (Inl DriverError, w)
      else if e_driver e \<noteq> ''pgx'' \<and> q_offset q > 0 \<and> \<not> q_limit q > 0 then (Inl SyntaxError, w)
      else (scan_records (page (q_limit q) (q_offset q)
              (sort_key (\<lambda>r. - cr_start r) (where_rows e q (w_db w)))), w))"

definition coalesce_sum :: "env \<Rightarrow> float64 list \<Rightarrow> float64" where
  "coalesce_sum e xs = (if xs = [] then Fin 0 else e_sum e xs)"

definition AggregateCosts :: "env \<Rightarrow> cost_query \<Rightarrow> cost_summary io" where
  "AggregateCosts e q = query_rows e (\<lambda>d.
     let rows = where_rows e q d in
     \<lparr>sum_list_cost = coalesce_sum e (map cr_list rows),
      sum_net_cost = coalesce_sum e (map cr_net rows),
      sum_amortized = coalesce_sum e (map cr_amortized rows),
      sum_amortized_net = coalesce_sum e (map cr_amortized_net rows),
      sum_count = length rows\<rparr>)"

end
