(* ===== verification/Statements.thy ===== *)
theory Statements
  imports Store
begin

text \<open>
  The statement texts of \<open>internal/store/sql.go\<close> (white space collapsed), each with the number of
  arguments its method passes, and the two texts that are put together at run time from
  \<open>buildCostWhere\<close>. The lemmas connect them to the placeholder rewriting of \<open>Rebind\<close>.
\<close>

section \<open>The texts\<close>

definition CreateProject_sql :: string where
  "CreateProject_sql = ''INSERT INTO projects (id, name, description, created_at, updated_at) VALUES (?, ?, ?, ?, ?)''"

definition GetProject_sql :: string where
  "GetProject_sql = ''SELECT id, name, description, created_at, updated_at FROM projects WHERE id = ?''"

definition ListProjects_sql :: string where
  "ListProjects_sql = ''SELECT id, name, description, created_at, updated_at FROM projects ORDER BY name''"

definition UpdateProject_sql :: string where
  "UpdateProject_sql = ''UPDATE projects SET name = ?, description = ?, updated_at = ? WHERE id = ?''"

definition DeleteProject_sql :: string where
  "DeleteProject_sql = ''DELETE FROM projects WHERE id = ?''"

definition CreateCostSource_sql :: string where
  "CreateCostSource_sql = ''INSERT INTO cost_sources (id, project_id, type, name, config_json, enabled, created_at, updated_at) VALUES (?, ?, ?, ?, ?, ?, ?, ?)''"

definition GetCostSource_sql :: string where
  "GetCostSource_sql = ''SELECT id, project_id, type, name, config_json, enabled, last_collected_at, created_at, updated_at FROM cost_sources WHERE id = ?''"

definition ListCostSources_sql :: string where
  "ListCostSources_sql = ''SELECT id, project_id, type, name, config_json, enabled, last_collected_at, created_at, updated_at FROM cost_sources WHERE project_id = ? ORDER BY name''"

definition UpdateCostSource_sql :: string where
  "UpdateCostSource_sql = ''UPDATE cost_sources SET name = ?, config_json = ?, enabled = ?, updated_at = ? WHERE id = ?''"

definition DeleteCostSource_sql :: string where
  "DeleteCostSource_sql = ''DELETE FROM cost_sources WHERE id = ?''"

definition UpdateCostSourceCollectedAt_sql :: string where
  "UpdateCostSourceCollectedAt_sql = ''UPDATE cost_sources SET last_collected_at = ?, updated_at = ? WHERE id = ?''"

definition CreateUser_sql :: string where
  "CreateUser_sql = ''INSERT INTO users (id, email, display_name, oidc_subject, created_at) VALUES (?, ?, ?, ?, ?)''"

definition GetUser_sql :: string where
  "GetUser_sql = ''SELECT id, email, display_name, oidc_subject, created_at FROM users WHERE id = ?''"

definition GetUserByEmail_sql :: string where
  "GetUserByEmail_sql = ''SELECT id, email, display_name, oidc_subject, created_at FROM users WHERE email = ?''"

definition GetUserByOIDCSubject_sql :: string where
  "GetUserByOIDCSubject_sql = ''SELECT id, email, display_name, oidc_subject, created_at FROM users WHERE oidc_subject = ?''"

definition ListUsers_sql :: string where
  "ListUsers_sql = ''SELECT id, email, display_name, oidc_subject, created_at FROM users ORDER BY email''"

definition CreateGroup_sql :: string where
  "CreateGroup_sql = ''INSERT INTO groups (id, name, oidc_claim, created_at) VALUES (?, ?, ?, ?)''"

definition GetGroup_sql :: string where
  "GetGroup_sql = ''SELECT id, name, oidc_claim, created_at FROM groups WHERE id = ?''"

definition GetGroupByOIDCClaim_sql :: string where
  "GetGroupByOIDCClaim_sql = ''SELECT id, name, oidc_claim, created_at FROM groups WHERE oidc_claim = ?''"

definition ListGroups_sql :: string where
  "ListGroups_sql = ''SELECT id, name, oidc_claim, created_at FROM groups ORDER BY name''"

definition AddGroupMember_pgx :: string where
  "AddGroupMember_pgx = ''INSERT INTO group_members (group_id, user_id) VALUES (?, ?) ON CONFLICT (group_id, user_id) DO NOTHING''"

definition AddGroupMember_sqlite :: string where
  "AddGroupMember_sqlite = ''INSERT OR IGNORE INTO group_members (group_id, user_id) VALUES (?, ?)''"

definition RemoveGroupMember_sql :: string where
  "RemoveGroupMember_sql = ''DELETE FROM group_members WHERE group_id = ? AND user_id = ?''"

definition ListGroupMembers_sql :: string where
  "ListGroupMembers_sql = ''SELECT u.id, u.email, u.display_name, u.oidc_subject, u.created_at FROM users u JOIN group_members gm ON u.id = gm.user_id WHERE gm.group_id = ? ORDER BY u.email''"

definition SetProjectRole_sql :: string where
  "SetProjectRole_sql = ''INSERT INTO project_roles (project_id, subject_type, subject_id, role) VALUES (?, ?, ?, ?) ON CONFLICT(project_id, subject_type, subject_id) DO UPDATE SET role = excluded.role''"

definition RemoveProjectRole_sql :: string where
  "RemoveProjectRole_sql = ''DELETE FROM project_roles WHERE project_id = ? AND subject_type = ? AND subject_id = ?''"

definition ListProjectRoles_sql :: string where
  "ListProjectRoles_sql = ''SELECT project_id, subject_type, subject_id, role FROM project_roles WHERE project_id = ?''"

definition GetUserProjectRole_sql :: string where
  "GetUserProjectRole_sql = ''SELECT project_id, subject_type, subject_id, role FROM project_roles WHERE project_id = ? AND subject_type = 'user' AND subject_id = ?''"

definition ListUserProjects_sql :: string where
  "ListUserProjects_sql = ''SELECT DISTINCT p.id, p.name, p.description, p.created_at, p.updated_at FROM projects p LEFT JOIN project_roles pr ON p.id = pr.project_id WHERE (pr.subject_type = 'user' AND pr.subject_id = ?) OR pr.subject_id IN (SELECT group_id FROM group_members WHERE user_id = ?) ORDER BY p.name''"

definition CreateBudget_sql :: string where
  "CreateBudget_sql = ''INSERT INTO budgets (id, project_id, cost_source_id, monthly_limit, warn_threshold, created_at, updated_at) VALUES (?, ?, ?, ?, ?, ?, ?)''"

definition GetBudget_sql :: string where
  "GetBudget_sql = ''SELECT id, project_id, cost_source_id, monthly_limit, warn_threshold, created_at, updated_at FROM budgets WHERE id = ?''"

definition ListBudgets_sql :: string where
  "ListBudgets_sql = ''SELECT id, project_id, cost_source_id, monthly_limit, warn_threshold, created_at, updated_at FROM budgets WHERE project_id = ?''"

definition UpdateBudget_sql :: string where
  "UpdateBudget_sql = ''UPDATE budgets SET monthly_limit = ?, warn_threshold = ?, updated_at = ? WHERE id = ?''"

definition DeleteBudget_sql :: string where
  "DeleteBudget_sql = ''DELETE FROM budgets WHERE id = ?''"

definition InsertCostRecords_sql :: string where
  "InsertCostRecords_sql = ''INSERT INTO cost_records (id, project_id, cost_source_id, provider, provider_id, account_id, account_name, invoice_entity_id, service, category, region, availability_zone, start_time, end_time, list_cost, net_cost, amortized_cost, amortized_net_cost, currency, labels_json, kubernetes_percent) VALUES (?, ?, ?, ?, ?, ?, ?, ?, ?, ?, ?, ?, ?, ?, ?, ?, ?, ?, ?, ?, ?)''"

text \<open>All of them, by method, with the number of arguments.\<close>

definition statements :: "(string \<times> string \<times> nat) list" where
  "statements = [
     (''CreateProject'', CreateProject_sql, 5),
     (''GetProject'', GetProject_sql, 1),
     (''ListProjects'', ListProjects_sql, 0),
     (''UpdateProject'', UpdateProject_sql, 4),
     (''DeleteProject'', DeleteProject_sql, 1),
     (''CreateCostSource'', CreateCostSource_sql, 8),
     (''GetCostSource'', GetCostSource_sql, 1),
     (''ListCostSources'', ListCostSources_sql, 1),
     (''UpdateCostSource'', UpdateCostSource_sql, 5),
     (''DeleteCostSource'', DeleteCostSource_sql, 1),
     (''UpdateCostSourceCollectedAt'', UpdateCostSourceCollectedAt_sql, 3),
     (''CreateUser'', CreateUser_sql, 5),
     (''GetUser'', GetUser_sql, 1),
     (''GetUserByEmail'', GetUserByEmail_sql, 1),
     (''GetUserByOIDCSubject'', GetUserByOIDCSubject_sql, 1),
     (''ListUsers'', ListUsers_sql, 0),
     (''CreateGroup'', CreateGroup_sql, 4),
     (''GetGroup'', GetGroup_sql, 1),
     (''GetGroupByOIDCClaim'', GetGroupByOIDCClaim_sql, 1),
     (''ListGroups'', ListGroups_sql, 0),
     (''AddGroupMember'', AddGroupMember_pgx, 2),
     (''AddGroupMember'', AddGroupMember_sqlite, 2),
     (''RemoveGroupMember'', RemoveGroupMember_sql, 2),
     (''ListGroupMembers'', ListGroupMembers_sql, 1),
     (''SetProjectRole'', SetProjectRole_sql, 4),
     (''RemoveProjectRole'', RemoveProjectRole_sql, 3),
     (''ListProjectRoles'', ListProjectRoles_sql, 1),
     (''GetUserProjectRole'', GetUserProjectRole_sql, 2),
     (''ListUserProjects'', ListUserProjects_sql, 2),
     (''CreateBudget'', CreateBudget_sql, 7),
     (''GetBudget'', GetBudget_sql, 1),
     (''ListBudgets'', ListBudgets_sql, 1),
     (''UpdateBudget'', UpdateBudget_sql, 4),
     (''DeleteBudget'', DeleteBudget_sql, 1),
     (''InsertCostRecords'', InsertCostRecords_sql, 21)]"

definition cost_query_select :: string where
  "cost_query_select = ''SELECT id, project_id, cost_source_id, provider, provider_id, account_id, account_name, invoice_entity_id, service, category, region, availability_zone, start_time, end_time, list_cost, net_cost, amortized_cost, amortized_net_cost, currency, labels_json, kubernetes_percent FROM cost_records''"

definition limit_text :: "cost_query \<Rightarrow> string" where
  "limit_text q =
     (if q_limit q > 0 then '' LIMIT '' @ Itoa (nat (q_limit q)) else '''')
   @ (if q_offset q > 0 then '' OFFSET '' @ Itoa (nat (q_offset q)) else '''')"

definition cost_query_text :: "cost_query \<Rightarrow> string" where
  "cost_query_text q =
     cost_query_select @ fst (buildCostWhere q) @ '' ORDER BY start_time DESC'' @ limit_text q"

definition aggregate_select :: string where
  "aggregate_select = ''SELECT COALESCE(SUM(list_cost),0), COALESCE(SUM(net_cost),0), COALESCE(SUM(amortized_cost),0), COALESCE(SUM(amortized_net_cost),0), COUNT(*) FROM cost_records''"

definition aggregate_text :: "cost_query \<Rightarrow> string" where
  "aggregate_text q = aggregate_select @ fst (buildCostWhere q)"

section \<open>Placeholders of appended texts\<close>

lemma count_holes_append:
  "CHR 0x27 \<notin> set a \<Longrightarrow> count_holes False (a @ c) = count_holes False a + count_holes False c"
  by (induction a) auto

lemma plain_text_append:
  "CHR 0x27 \<notin> set a \<Longrightarrow> plain_text False a \<Longrightarrow> plain_text False c \<Longrightarrow> c = [] \<or> \<not> is_digit (hd c) \<Longrightarrow>
   plain_text False (a @ c)"
proof (induction a)
  case (Cons x a)
  then show ?case by (cases a) auto
qed simp

lemma plain_chars:
  "CHR 0x27 \<notin> set s \<Longrightarrow> CHR ''?'' \<notin> set s \<Longrightarrow> CHR ''$'' \<notin> set s \<Longrightarrow>
   plain_text False s \<and> count_holes False s = 0"
  by (induction s) auto

lemma digits_plain:
  assumes "list_all is_digit s"
  shows "CHR 0x27 \<notin> set s \<and> CHR ''?'' \<notin> set s \<and> CHR ''$'' \<notin> set s"
  using assms by (auto simp: list_all_iff)

lemma cond_text_plain [simp]:
  "CHR 0x27 \<notin> set (cond_text c)" "plain_text False (cond_text c)" "count_holes False (cond_text c) = 1"
  "cond_text c \<noteq> []" "\<not> is_digit (hd (cond_text c))"
  by (cases c; simp add: is_digit_def)+

lemma join_plain:
  "cs \<noteq> [] \<Longrightarrow> CHR 0x27 \<notin> set (Join (map cond_text cs) '' AND '')
     \<and> plain_text False (Join (map cond_text cs) '' AND '')
     \<and> count_holes False (Join (map cond_text cs) '' AND '') = length cs"
proof (induction cs rule: induct_list012)
  case (3 c c' cs)
  let ?rest = "Join (cond_text c' # map cond_text cs) '' AND ''"
  have rest: "CHR 0x27 \<notin> set ?rest" "plain_text False ?rest" "count_holes False ?rest = Suc (length cs)"
    using "3.IH"(2) by simp_all
  have "\<not> is_digit (hd ?rest)"
    by (cases cs) simp_all
  with rest have "plain_text False ('' AND '' @ ?rest)"
    by (intro plain_text_append) simp_all
  moreover have "\<not> is_digit (hd ('' AND '' @ ?rest))"
    by (simp add: is_digit_def)
  ultimately have "plain_text False (cond_text c @ '' AND '' @ ?rest)"
    using plain_text_append [OF cond_text_plain(1,2)] by blast
  moreover have "count_holes False (cond_text c @ '' AND '' @ ?rest) = Suc (Suc (length cs))"
    using rest by (simp add: count_holes_append)
  ultimately show ?case using rest by simp
qed simp_all

text \<open>The WHERE clause has one placeholder per argument.\<close>

lemma where_plain:
  "CHR 0x27 \<notin> set (fst (buildCostWhere q))" "plain_text False (fst (buildCostWhere q))"
  "count_holes False (fst (buildCostWhere q)) = length (snd (buildCostWhere q))"
  "fst (buildCostWhere q) = [] \<or> \<not> is_digit (hd (fst (buildCostWhere q)))"
  using join_plain [of "cost_conditions q"]
  by (simp_all add: buildCostWhere_def Let_def is_digit_def)

lemma limit_plain:
  "CHR 0x27 \<notin> set (limit_text q)" "plain_text False (limit_text q)" "count_holes False (limit_text q) = 0"
  "limit_text q = [] \<or> \<not> is_digit (hd (limit_text q))"
proof -
  have chars: "CHR 0x27 \<notin> set (limit_text q) \<and> CHR ''?'' \<notin> set (limit_text q) \<and> CHR ''$'' \<notin> set (limit_text q)"
    using digits_plain [OF Itoa_digits, of "nat (q_limit q)"] digits_plain [OF Itoa_digits, of "nat (q_offset q)"]
    by (simp add: limit_text_def)
  then show "CHR 0x27 \<notin> set (limit_text q)" "plain_text False (limit_text q)" "count_holes False (limit_text q) = 0"
    using plain_chars by auto
  show "limit_text q = [] \<or> \<not> is_digit (hd (limit_text q))"
    by (simp add: limit_text_def is_digit_def)
qed

lemma fixed_texts:
  "CHR 0x27 \<notin> set cost_query_select" "plain_text False cost_query_select" "count_holes False cost_query_select = 0"
  "CHR 0x27 \<notin> set aggregate_select" "plain_text False aggregate_select" "count_holes False aggregate_select = 0"
  by (simp_all add: cost_query_select_def aggregate_select_def)

lemma cost_query_text_plain:
  "plain_text False (cost_query_text q)
   \<and> count_holes False (cost_query_text q) = length (snd (buildCostWhere q))"
proof -
  have tail: "plain_text False ('' ORDER BY start_time DESC'' @ limit_text q)"
    "count_holes False ('' ORDER BY start_time DESC'' @ limit_text q) = 0"
    using limit_plain [of q] by (simp_all add: plain_text_append)
  have wh: "plain_text False (fst (buildCostWhere q) @ '' ORDER BY start_time DESC'' @ limit_text q)"
    "count_holes False (fst (buildCostWhere q) @ '' ORDER BY start_time DESC'' @ limit_text q)
      = length (snd (buildCostWhere q))"
    using tail where_plain [of q] by (auto simp: plain_text_append count_holes_append is_digit_def simp del: append.simps)
  have "fst (buildCostWhere q) @ '' ORDER BY start_time DESC'' @ limit_text q = []
    \<or> \<not> is_digit (hd (fst (buildCostWhere q) @ '' ORDER BY start_time DESC'' @ limit_text q))"
    using where_plain(4) [of q] by (cases "fst (buildCostWhere q)") (simp_all add: is_digit_def)
  with wh fixed_texts show ?thesis
    by (simp add: cost_query_text_def plain_text_append count_holes_append del: append.simps)
qed

lemma aggregate_text_plain:
  "plain_text False (aggregate_text q)
   \<and> count_holes False (aggregate_text q) = length (snd (buildCostWhere q))"
  using fixed_texts where_plain [of q]
  by (simp add: aggregate_text_def plain_text_append count_holes_append)

text \<open>What the numbered parameters of a rewritten text are.\<close>

lemma rebound_params:
  "plain_text False s \<Longrightarrow> dollar_params False (rebindQuery s) = [1..<Suc (count_holes False s)]"
  using dollar_params_rebind_loop [of False s 0] by (simp add: rebindQuery_loop)

text \<open>
  rewriting a statement for PostgreSQL loses nothing: reading the numbered parameters back
  as positional ones gives the original text, and the parameters are numbered 1, 2, ... in the
  order of the placeholders, quoted question marks left alone; other drivers get the text as it is.
\<close>

theorem rebind_roundtrip:
  assumes "plain_text False s"
  shows "unbind False (rebind ''pgx'' s) = s
    \<and> dollar_params False (rebind ''pgx'' s) = [1..<Suc (count_holes False s)]
    \<and> rebind ''sqlite'' s = s"
  using assms unbind_rebind_loop [OF assms, of 0] rebound_params
  by (simp add: rebind_def rebindQuery_loop del: upt_Suc)

theorem rebind_roundtrip_witness:
  "unbind False (rebind ''pgx'' ''a = ? AND b = 'x?' AND c = ?'') = ''a = ? AND b = 'x?' AND c = ?''"
  using rebind_roundtrip [of "''a = ? AND b = 'x?' AND c = ?''"] by (simp add: is_digit_def)

text \<open>
  every statement text of the store has as many placeholders as its method passes
  arguments, so that its rewriting for PostgreSQL refers to exactly the parameters passed.
\<close>

theorem statement_arguments:
  "list_all (\<lambda>(method, s, arguments). plain_text False s
      \<and> count_holes False s = arguments
      \<and> dollar_params False (rebind ''pgx'' s) = [1..<Suc arguments]) statements"
proof -
  have "list_all (\<lambda>(method, s, arguments). plain_text False s \<and> count_holes False s = arguments) statements"
    by code_simp
  then show ?thesis
    by (rule list.pred_mono_strong) (auto simp: rebind_def rebound_params simp del: upt_Suc)
qed

text \<open>
  the query and the aggregate over cost records, put together from the conditions
  that are set, refer on PostgreSQL to exactly the arguments \<open>buildCostWhere\<close> returns, in order,
  whatever values the query has.
\<close>

theorem cost_query_arguments:
  "dollar_params False (rebind ''pgx'' (cost_query_text q)) = [1..<Suc (length (snd (buildCostWhere q)))]
   \<and> dollar_params False (rebind ''pgx'' (aggregate_text q)) = [1..<Suc (length (snd (buildCostWhere q)))]"
  using cost_query_text_plain [of q] aggregate_text_plain [of q]
  by (simp add: rebind_def rebound_params del: upt_Suc)

end
