(* ===== verification/Connections.thy ===== *)
theory Connections
  imports Statements
begin

text \<open>
  The connection wrappers \<open>rebindDB\<close> and \<open>rebindTx\<close> of \<open>internal/store/rebind.go\<close>, with \<open>Close\<close> of
  \<open>internal/store/sql.go\<close>. Every method hands the rewritten text and the arguments it was given to the handle of
  \<open>database/sql\<close> it wraps; that handle is a parameter, a record of functions over the state of the connection.

  A database system is an engine, which sees a text with its holes resolved to argument positions, behind a reader:
  PostgreSQL reads numbered parameters, SQLite counts question marks. Lemmas: the two readings of a text and of its
  rewriting agree, and so two systems whose engines answer alike the statements that they are given answer alike
  any sequence of calls on the wrapper.
\<close>

section \<open>The handles of database/sql\<close>

text \<open>
  \<open>'s\<close>: the state of the connection, \<open>'x\<close>: an open transaction, \<open>'h\<close>: a prepared statement, \<open>'a\<close>: an argument,
  \<open>'r\<close>: what a statement returns; an error is its text.
\<close>

record ('s, 'x, 'h, 'a, 'r) sql_db =
  sq_exec :: "string \<Rightarrow> 'a list \<Rightarrow> 's \<Rightarrow> (string + 'r) \<times> 's"
  sq_query :: "string \<Rightarrow> 'a list \<Rightarrow> 's \<Rightarrow> (string + 'r) \<times> 's"
  sq_query_row :: "string \<Rightarrow> 'a list \<Rightarrow> 's \<Rightarrow> (string + 'r) \<times> 's"
  sq_prepare :: "string \<Rightarrow> 's \<Rightarrow> (string + 'h) \<times> 's"
  sq_begin :: "'s \<Rightarrow> (string + 'x) \<times> 's"
  sq_ping :: "'s \<Rightarrow> (string + unit) \<times> 's"
  sq_close :: "'s \<Rightarrow> (string + unit) \<times> 's"
  sq_tx_exec :: "'x \<Rightarrow> string \<Rightarrow> 'a list \<Rightarrow> 's \<Rightarrow> (string + 'r) \<times> 's"
  sq_tx_prepare :: "'x \<Rightarrow> string \<Rightarrow> 's \<Rightarrow> (string + 'h) \<times> 's"
  sq_tx_commit :: "'x \<Rightarrow> 's \<Rightarrow> (string + unit) \<times> 's"
  sq_tx_rollback :: "'x \<Rightarrow> 's \<Rightarrow> (string + unit) \<times> 's"

section \<open>rebindDB and rebindTx\<close>

record ('s, 'x, 'h, 'a, 'r) rebindDB =
  rd_db :: "('s, 'x, 'h, 'a, 'r) sql_db"
  rd_driver :: string

record ('s, 'x, 'h, 'a, 'r) rebindTx =
  rt_db :: "('s, 'x, 'h, 'a, 'r) sql_db"
  rt_tx :: 'x
  rt_driver :: string

text \<open>The variants without a context, \<open>Exec\<close> and \<open>QueryRow\<close>, pass on the background context.\<close>

definition ExecContext where
  "ExecContext r query args = sq_exec (rd_db r) (rebind (rd_driver r) query) args"

definition QueryContext where
  "QueryContext r query args = sq_query (rd_db r) (rebind (rd_driver r) query) args"

definition QueryRowContext where
  "QueryRowContext r query args = sq_query_row (rd_db r) (rebind (rd_driver r) query) args"

definition PrepareContext where
  "PrepareContext r query = sq_prepare (rd_db r) (rebind (rd_driver r) query)"

definition BeginTx ::
  "('s, 'x, 'h, 'a, 'r) rebindDB \<Rightarrow> 's \<Rightarrow> (string + ('s, 'x, 'h, 'a, 'r) rebindTx) \<times> 's"
where
  "BeginTx r s =
     (case sq_begin (rd_db r) s of
        (Inl err, s) \<Rightarrow> (Inl err, s)
      | (Inr tx, s) \<Rightarrow> (Inr \<lparr>rt_db = rd_db r, rt_tx = tx, rt_driver = rd_driver r\<rparr>, s))"

definition Exec where
  "Exec r query args = sq_exec (rd_db r) (rebind (rd_driver r) query) args"

definition QueryRow where
  "QueryRow r query args = sq_query_row (rd_db r) (rebind (rd_driver r) query) args"

definition Ping where "Ping r = sq_ping (rd_db r)"
definition CloseDB where "CloseDB r = sq_close (rd_db r)"

definition TxExecContext where
  "TxExecContext t query args = sq_tx_exec (rt_db t) (rt_tx t) (rebind (rt_driver t) query) args"

definition TxPrepareContext where
  "TxPrepareContext t query = sq_tx_prepare (rt_db t) (rt_tx t) (rebind (rt_driver t) query)"

definition TxCommit where "TxCommit t = sq_tx_commit (rt_db t) (rt_tx t)"
definition TxRollback where "TxRollback t = sq_tx_rollback (rt_db t) (rt_tx t)"

text \<open>The store: the wrapper, the handle itself, which \<open>Close\<close> closes, and the driver's name.\<close>

record ('s, 'x, 'h, 'a, 'r) SQLStore =
  ss_db :: "('s, 'x, 'h, 'a, 'r) rebindDB"
  ss_raw :: "('s, 'x, 'h, 'a, 'r) sql_db"
  ss_driver :: string

text \<open>The last lines of \<open>New\<close>.\<close>

definition wrap_store :: "string \<Rightarrow> ('s, 'x, 'h, 'a, 'r) sql_db \<Rightarrow> ('s, 'x, 'h, 'a, 'r) SQLStore" where
  "wrap_store driver rawDB =
     \<lparr>ss_db = \<lparr>rd_db = rawDB, rd_driver = driver\<rparr>, ss_raw = rawDB, ss_driver = driver\<rparr>"

definition CloseStore where "CloseStore s = sq_close (ss_raw s)"

section \<open>Calls on the wrapper\<close>

text \<open>
  What the store asks of its connection, one call after the other; the calls of a transaction go to the one that
  is open. A call that opens a transaction while there is one, or uses one when there is none, is not made.
\<close>

datatype 'a db_call =
    CallExec string "'a list" | CallQuery string "'a list" | CallRow string "'a list" | CallPrepare string
  | CallBegin | CallPing | CallClose
  | CallTxExec string "'a list" | CallTxPrepare string | CallCommit | CallRollback

fun call_text :: "'a db_call \<Rightarrow> string option" where
  "call_text (CallExec q args) = Some q"
| "call_text (CallQuery q args) = Some q"
| "call_text (CallRow q args) = Some q"
| "call_text (CallPrepare q) = Some q"
| "call_text (CallTxExec q args) = Some q"
| "call_text (CallTxPrepare q) = Some q"
| "call_text _ = None"

datatype ('h, 'r) db_result = Returned 'r | PreparedStmt 'h | Completed | Failed string

fun answered :: "('v \<Rightarrow> ('h, 'r) db_result) \<Rightarrow> (string + 'v) \<times> 's \<Rightarrow> ('h, 'r) db_result \<times> 's" where
  "answered f (Inl err, s) = (Failed err, s)"
| "answered f (Inr v, s) = (f v, s)"

text \<open>A call on the store, the transaction that is open, and the state: the answer, and both afterwards.\<close>

fun call_db ::
  "('s, 'x, 'h, 'a, 'r) rebindDB \<Rightarrow> 'a db_call \<Rightarrow> ('s, 'x, 'h, 'a, 'r) rebindTx option \<times> 's
     \<Rightarrow> ('h, 'r) db_result \<times> ('s, 'x, 'h, 'a, 'r) rebindTx option \<times> 's"
where
  "call_db r (CallExec q args) (t, s) = (let (a, s) = answered Returned (ExecContext r q args s) in (a, t, s))"
| "call_db r (CallQuery q args) (t, s) = (let (a, s) = answered Returned (QueryContext r q args s) in (a, t, s))"
| "call_db r (CallRow q args) (t, s) = (let (a, s) = answered Returned (QueryRowContext r q args s) in (a, t, s))"
| "call_db r (CallPrepare q) (t, s) = (let (a, s) = answered PreparedStmt (PrepareContext r q s) in (a, t, s))"
| "call_db r CallPing (t, s) = (let (a, s) = answered (\<lambda>_. Completed) (Ping r s) in (a, t, s))"
| "call_db r CallClose (t, s) = (let (a, s) = answered (\<lambda>_. Completed) (CloseDB r s) in (a, t, s))"
| "call_db r CallBegin (Some t, s) = (Failed ''transaction open'', Some t, s)"
| "call_db r CallBegin (None, s) =
     (case BeginTx r s of (Inl err, s) \<Rightarrow> (Failed err, None, s) | (Inr t, s) \<Rightarrow> (Completed, Some t, s))"
| "call_db r (CallTxExec q args) (Some t, s) =
     (let (a, s) = answered Returned (TxExecContext t q args s) in (a, Some t, s))"
| "call_db r (CallTxPrepare q) (Some t, s) =
     (let (a, s) = answered PreparedStmt (TxPrepareContext t q s) in (a, Some t, s))"
| "call_db r CallCommit (Some t, s) = (let (a, s) = answered (\<lambda>_. Completed) (TxCommit t s) in (a, None, s))"
| "call_db r CallRollback (Some t, s) = (let (a, s) = answered (\<lambda>_. Completed) (TxRollback t s) in (a, None, s))"
| "call_db r _ (None, s) = (Failed ''no transaction'', None, s)"

fun call_all ::
  "('s, 'x, 'h, 'a, 'r) rebindDB \<Rightarrow> 'a db_call list \<Rightarrow> ('s, 'x, 'h, 'a, 'r) rebindTx option \<times> 's
     \<Rightarrow> ('h, 'r) db_result list \<times> 's"
where
  "call_all r [] (t, s) = ([], s)"
| "call_all r (c # cs) (t, s) =
     (let (a, t, s) = call_db r c (t, s); (as, s) = call_all r cs (t, s) in (a # as, s))"

section \<open>Two readings of a text\<close>

text \<open>A text as an engine sees it: characters, and holes with the position of the argument that fills each.\<close>

datatype piece = Letter char | Hole nat

fun read_holes :: "bool \<Rightarrow> nat \<Rightarrow> string \<Rightarrow> piece list" where
  "read_holes inQuote n [] = []"
| "read_holes inQuote n (ch # rest) =
     (if ch = CHR 0x27 then Letter ch # read_holes (\<not> inQuote) n rest
      else if ch = CHR ''?'' \<and> \<not> inQuote then Hole n # read_holes inQuote (Suc n) rest
      else Letter ch # read_holes inQuote n rest)"

text \<open>The numbered reading: \<open>$n\<close> is the argument at position \<open>n - 1\<close>.\<close>

function read_params :: "bool \<Rightarrow> string \<Rightarrow> piece list" where
  "read_params inQuote [] = []"
| "read_params inQuote (ch # rest) =
     (if ch = CHR 0x27 then Letter ch # read_params (\<not> inQuote) rest
      else if ch = CHR ''$'' \<and> \<not> inQuote
        then Hole (parse_nat (takeWhile is_digit rest) - 1) # read_params inQuote (dropWhile is_digit rest)
      else Letter ch # read_params inQuote rest)"
  by pat_completeness auto
termination
  by (relation "measure (\<lambda>(_, s). length s)") (auto simp: length_dropWhile_le le_imp_less_Suc)

lemma read_rebind_loop: "plain_text b q \<Longrightarrow> read_params b (rebind_loop n b q) = read_holes b n q"
proof (induction n b q rule: rebind_loop.induct)
  case (2 n b ch rest)
  show ?case
  proof (cases "ch = CHR ''?'' \<and> \<not> b")
    case True
    with 2 have next_: "rest = [] \<or> \<not> is_digit (hd rest)" and pl: "plain_text b rest"
      by auto
    show ?thesis
      using True 2 pl rebound_hole [OF next_, of "Suc n" "Suc n" b] by simp
  next
    case False
    with 2 show ?thesis by auto
  qed
qed simp

lemma read_rebound: "plain_text False q \<Longrightarrow> read_params False (rebind ''pgx'' q) = read_holes False 0 q"
  by (simp add: rebind_def rebindQuery_loop read_rebind_loop)

section \<open>Two systems behind one wrapper\<close>

record ('s, 'x, 'h, 'a, 'r) engine =
  en_exec :: "piece list \<Rightarrow> 'a list \<Rightarrow> 's \<Rightarrow> (string + 'r) \<times> 's"
  en_query :: "piece list \<Rightarrow> 'a list \<Rightarrow> 's \<Rightarrow> (string + 'r) \<times> 's"
  en_prepare :: "piece list \<Rightarrow> 's \<Rightarrow> (string + 'h) \<times> 's"
  en_begin :: "'s \<Rightarrow> (string + 'x) \<times> 's"
  en_ping :: "'s \<Rightarrow> (string + unit) \<times> 's"
  en_close :: "'s \<Rightarrow> (string + unit) \<times> 's"
  en_tx_exec :: "'x \<Rightarrow> piece list \<Rightarrow> 'a list \<Rightarrow> 's \<Rightarrow> (string + 'r) \<times> 's"
  en_tx_prepare :: "'x \<Rightarrow> piece list \<Rightarrow> 's \<Rightarrow> (string + 'h) \<times> 's"
  en_tx_end :: "bool \<Rightarrow> 'x \<Rightarrow> 's \<Rightarrow> (string + unit) \<times> 's"

definition handle_of ::
  "(string \<Rightarrow> piece list) \<Rightarrow> ('s, 'x, 'h, 'a, 'r) engine \<Rightarrow> ('s, 'x, 'h, 'a, 'r) sql_db"
where
  "handle_of reader e =
     \<lparr>sq_exec = \<lambda>q. en_exec e (reader q), sq_query = \<lambda>q. en_query e (reader q),
      sq_query_row = \<lambda>q. en_query e (reader q), sq_prepare = \<lambda>q. en_prepare e (reader q),
      sq_begin = en_begin e, sq_ping = en_ping e, sq_close = en_close e,
      sq_tx_exec = \<lambda>x q. en_tx_exec e x (reader q), sq_tx_prepare = \<lambda>x q. en_tx_prepare e x (reader q),
      sq_tx_commit = en_tx_end e True, sq_tx_rollback = en_tx_end e False\<rparr>"

definition numbered where "numbered e = handle_of (read_params False) e"
definition positional where "positional e = handle_of (read_holes False 0) e"

definition pgx_db where "pgx_db e = \<lparr>rd_db = numbered e, rd_driver = ''pgx''\<rparr>"
definition sqlite_db where "sqlite_db e = \<lparr>rd_db = positional e, rd_driver = ''sqlite''\<rparr>"
definition pgx_tx where "pgx_tx e x = \<lparr>rt_db = numbered e, rt_tx = x, rt_driver = ''pgx''\<rparr>"
definition sqlite_tx where "sqlite_tx e x = \<lparr>rt_db = positional e, rt_tx = x, rt_driver = ''sqlite''\<rparr>"

lemmas wrapper_defs = ExecContext_def QueryContext_def QueryRowContext_def PrepareContext_def BeginTx_def
  Ping_def CloseDB_def TxExecContext_def TxPrepareContext_def TxCommit_def TxRollback_def
  numbered_def positional_def handle_of_def pgx_db_def sqlite_db_def pgx_tx_def sqlite_tx_def

lemma rebind_sqlite: "rebind ''sqlite'' q = q"
  by (simp add: rebind_def)

abbreviation holes :: "string \<Rightarrow> piece list" where
  "holes \<equiv> read_holes False 0"

text \<open>What reaches the engines: the pieces of the text as written, on PostgreSQL too.\<close>

lemma pgx_methods:
  assumes "plain_text False q"
  shows "ExecContext (pgx_db e) q = en_exec e (holes q)" and "QueryContext (pgx_db e) q = en_query e (holes q)"
    and "QueryRowContext (pgx_db e) q = en_query e (holes q)" and "PrepareContext (pgx_db e) q = en_prepare e (holes q)"
    and "TxExecContext (pgx_tx e x) q = en_tx_exec e x (holes q)"
    and "TxPrepareContext (pgx_tx e x) q = en_tx_prepare e x (holes q)"
  using read_rebound [OF assms] by (simp_all add: wrapper_defs fun_eq_iff)

lemma sqlite_methods:
  "ExecContext (sqlite_db e) q = en_exec e (holes q)" "QueryContext (sqlite_db e) q = en_query e (holes q)"
  "QueryRowContext (sqlite_db e) q = en_query e (holes q)" "PrepareContext (sqlite_db e) q = en_prepare e (holes q)"
  "TxExecContext (sqlite_tx e x) q = en_tx_exec e x (holes q)"
  "TxPrepareContext (sqlite_tx e x) q = en_tx_prepare e x (holes q)"
  by (simp_all add: wrapper_defs rebind_sqlite fun_eq_iff)

lemma textless_methods:
  "Ping (pgx_db e) = en_ping e" "CloseDB (pgx_db e) = en_close e"
  "TxCommit (pgx_tx e x) = en_tx_end e True x" "TxRollback (pgx_tx e x) = en_tx_end e False x"
  "Ping (sqlite_db e) = en_ping e" "CloseDB (sqlite_db e) = en_close e"
  "TxCommit (sqlite_tx e x) = en_tx_end e True x" "TxRollback (sqlite_tx e x) = en_tx_end e False x"
  "BeginTx (pgx_db e) s = (case en_begin e s of (Inl err, s) \<Rightarrow> (Inl err, s) | (Inr x, s) \<Rightarrow> (Inr (pgx_tx e x), s))"
  "BeginTx (sqlite_db e) s = (case en_begin e s of (Inl err, s) \<Rightarrow> (Inl err, s) | (Inr x, s) \<Rightarrow> (Inr (sqlite_tx e x), s))"
  by (simp_all add: wrapper_defs split: prod.split sum.split)

section \<open>Systems that answer alike\<close>

text \<open>Two answers: both are errors, of whatever texts, or both are values, and the states stay related.\<close>

definition match_answers ::
  "('s \<Rightarrow> 't \<Rightarrow> bool) \<Rightarrow> ('v \<Rightarrow> 'w \<Rightarrow> bool) \<Rightarrow> (string + 'v) \<times> 's \<Rightarrow> (string + 'w) \<times> 't \<Rightarrow> bool"
where
  "match_answers R V a b \<longleftrightarrow> rel_sum (\<lambda>_ _. True) V (fst a) (fst b) \<and> R (snd a) (snd b)"

text \<open>
  \<open>R\<close>: how the states of the two systems correspond, \<open>X\<close>: their transactions, \<open>H\<close>: their prepared statements, \<open>Q\<close>: what
  statements return; \<open>same\<close>: which statement of the one stands for which of the other.
\<close>

definition alike ::
  "('s \<Rightarrow> 't \<Rightarrow> bool) \<Rightarrow> ('x \<Rightarrow> 'y \<Rightarrow> bool) \<Rightarrow> ('h \<Rightarrow> 'k \<Rightarrow> bool) \<Rightarrow> ('r \<Rightarrow> 'q \<Rightarrow> bool) \<Rightarrow> (piece list \<Rightarrow> piece list \<Rightarrow> bool)
     \<Rightarrow> ('s, 'x, 'h, 'a, 'r) engine \<Rightarrow> ('t, 'y, 'k, 'a, 'q) engine \<Rightarrow> bool"
where
  "alike R X H Q same e1 e2 \<longleftrightarrow>
     (\<forall>p q s t. same p q \<longrightarrow> R s t \<longrightarrow>
        (\<forall>args. match_answers R Q (en_exec e1 p args s) (en_exec e2 q args t)
          \<and> match_answers R Q (en_query e1 p args s) (en_query e2 q args t))
        \<and> match_answers R H (en_prepare e1 p s) (en_prepare e2 q t))
   \<and> (\<forall>p q s t x y. same p q \<longrightarrow> R s t \<longrightarrow> X x y \<longrightarrow>
        (\<forall>args. match_answers R Q (en_tx_exec e1 x p args s) (en_tx_exec e2 y q args t))
        \<and> match_answers R H (en_tx_prepare e1 x p s) (en_tx_prepare e2 y q t))
   \<and> (\<forall>s t. R s t \<longrightarrow> match_answers R X (en_begin e1 s) (en_begin e2 t)
        \<and> match_answers R (\<lambda>_ _. True) (en_ping e1 s) (en_ping e2 t)
        \<and> match_answers R (\<lambda>_ _. True) (en_close e1 s) (en_close e2 t))
   \<and> (\<forall>s t x y c. R s t \<longrightarrow> X x y \<longrightarrow> match_answers R (\<lambda>_ _. True) (en_tx_end e1 c x s) (en_tx_end e2 c y t))"

fun match_results ::
  "('h \<Rightarrow> 'k \<Rightarrow> bool) \<Rightarrow> ('r \<Rightarrow> 'q \<Rightarrow> bool) \<Rightarrow> ('h, 'r) db_result \<Rightarrow> ('k, 'q) db_result \<Rightarrow> bool"
where
  "match_results H Q (Returned a) (Returned b) = Q a b"
| "match_results H Q (PreparedStmt a) (PreparedStmt b) = H a b"
| "match_results H Q Completed Completed = True"
| "match_results H Q (Failed _) (Failed _) = True"
| "match_results H Q _ _ = False"

text \<open>
  The same call to the two systems, with the text for each: their pieces correspond, and the one for PostgreSQL has no
  dollar sign outside quotes. The texts differ in \<open>AddGroupMember\<close> only.
\<close>

fun same_text :: "(piece list \<Rightarrow> piece list \<Rightarrow> bool) \<Rightarrow> string \<Rightarrow> string \<Rightarrow> bool" where
  "same_text same q q' = (plain_text False q \<and> same (holes q) (holes q'))"

inductive same_call :: "(piece list \<Rightarrow> piece list \<Rightarrow> bool) \<Rightarrow> 'a db_call \<Rightarrow> 'a db_call \<Rightarrow> bool" for same where
  exec: "same_text same q q' \<Longrightarrow> same_call same (CallExec q args) (CallExec q' args)"
| query: "same_text same q q' \<Longrightarrow> same_call same (CallQuery q args) (CallQuery q' args)"
| row: "same_text same q q' \<Longrightarrow> same_call same (CallRow q args) (CallRow q' args)"
| prepare: "same_text same q q' \<Longrightarrow> same_call same (CallPrepare q) (CallPrepare q')"
| tx_exec: "same_text same q q' \<Longrightarrow> same_call same (CallTxExec q args) (CallTxExec q' args)"
| tx_prepare: "same_text same q q' \<Longrightarrow> same_call same (CallTxPrepare q) (CallTxPrepare q')"
| textless: "call_text c = None \<Longrightarrow> same_call same c c"

lemma answered_match:
  assumes "match_answers R V a b" and "\<And>v w. V v w \<Longrightarrow> match_results H Q (f v) (g w)"
  shows "match_results H Q (fst (answered f a)) (fst (answered g b)) \<and> R (snd (answered f a)) (snd (answered g b))"
  using assms by (cases a; cases b; cases "fst a"; cases "fst b") (auto simp: match_answers_def)

definition match_state where
  "match_state e1 e2 R X ts us \<longleftrightarrow> (\<exists>x y s t. ts = (map_option (pgx_tx e1) x, s)
     \<and> us = (map_option (sqlite_tx e2) y, t) \<and> rel_option X x y \<and> R s t)"

lemma match_stateI:
  "rel_option X x y \<Longrightarrow> R s t \<Longrightarrow>
   match_state e1 e2 R X (map_option (pgx_tx e1) x, s) (map_option (sqlite_tx e2) y, t)"
  unfolding match_state_def by blast

lemma match_state_None: "R s t \<Longrightarrow> match_state e1 e2 R X (None, s) (None, t)"
  using match_stateI [of X None None R s t e1 e2] by simp

lemma match_state_Some: "X x y \<Longrightarrow> R s t \<Longrightarrow> match_state e1 e2 R X (Some (pgx_tx e1 x), s) (Some (sqlite_tx e2 y), t)"
  using match_stateI [of X "Some x" "Some y" R s t e1 e2] by simp

text \<open>The calls without a text.\<close>

lemma textless_call:
  assumes "alike R X H Q same e1 e2" and "rel_option X x y" and "R s t" and "call_text c = None"
  shows "match_results H Q (fst (call_db (pgx_db e1) c (map_option (pgx_tx e1) x, s)))
        (fst (call_db (sqlite_db e2) c (map_option (sqlite_tx e2) y, t)))
    \<and> match_state e1 e2 R X (snd (call_db (pgx_db e1) c (map_option (pgx_tx e1) x, s)))
        (snd (call_db (sqlite_db e2) c (map_option (sqlite_tx e2) y, t)))"
proof -
  note keep = match_stateI [of X x y R _ _ e1 e2, OF assms(2)]
  have al: "match_answers R X (en_begin e1 s) (en_begin e2 t)"
    "match_answers R (\<lambda>_ _. True) (en_ping e1 s) (en_ping e2 t)"
    "match_answers R (\<lambda>_ _. True) (en_close e1 s) (en_close e2 t)"
    "\<And>x y c. X x y \<Longrightarrow> match_answers R (\<lambda>_ _. True) (en_tx_end e1 c x s) (en_tx_end e2 c y t)"
    using assms(1,3) unfolding alike_def by blast+
  note completed = answered_match [where R = R and H = H and Q = Q and f = "\<lambda>_. Completed" and g = "\<lambda>_. Completed"]
  show ?thesis
  proof (cases c)
    case CallBegin
    show ?thesis
    proof (cases x)
      case None
      with assms(2) have y: "y = None" by (cases y) auto
      obtain a s1 b t1 where b: "en_begin e1 s = (a, s1)" "en_begin e2 t = (b, t1)" by fastforce
      with al(1) have "rel_sum (\<lambda>_ _. True) X a b" "R s1 t1" by (simp_all add: match_answers_def)
      with CallBegin None y b show ?thesis
        by (cases a; cases b) (simp_all add: textless_methods match_state_None match_state_Some)
    next
      case (Some x0)
      with assms(2) obtain y0 where "y = Some y0" "X x0 y0" by (cases y) auto
      with CallBegin Some assms(3) show ?thesis by (simp add: match_state_Some)
    qed
  next
    case CallPing
    with completed [OF al(2)] keep show ?thesis by (simp add: textless_methods case_prod_beta Let_def)
  next
    case CallClose
    with completed [OF al(3)] keep show ?thesis by (simp add: textless_methods case_prod_beta Let_def)
  next
    case CallCommit
    with assms(2,3) completed [OF al(4)] show ?thesis
      by (cases x; cases y) (simp_all add: textless_methods case_prod_beta Let_def match_state_None)
  next
    case CallRollback
    with assms(2,3) completed [OF al(4)] show ?thesis
      by (cases x; cases y) (simp_all add: textless_methods case_prod_beta Let_def match_state_None)
  qed (use assms(4) in simp_all)
qed

text \<open>One call.\<close>

lemma call_matches:
  assumes "alike R X H Q same e1 e2" and "same_call same c c'" and "match_state e1 e2 R X ts us"
  shows "match_results H Q (fst (call_db (pgx_db e1) c ts)) (fst (call_db (sqlite_db e2) c' us))
    \<and> match_state e1 e2 R X (snd (call_db (pgx_db e1) c ts)) (snd (call_db (sqlite_db e2) c' us))"
proof -
  from assms(3) obtain x y s t where st: "ts = (map_option (pgx_tx e1) x, s)" "us = (map_option (sqlite_tx e2) y, t)"
    and x: "rel_option X x y" and R: "R s t"
    unfolding match_state_def by blast
  note al = assms(1) [unfolded alike_def]
  note keep = match_stateI [of X x y R _ _ e1 e2, OF x]
  show ?thesis
    using assms(2)
  proof cases
    case (exec q q' args)
    with al R have "match_answers R Q (en_exec e1 (holes q) args s) (en_exec e2 (holes q') args t)" by simp
    from answered_match [OF this, of H Q Returned Returned] exec st keep show ?thesis
      by (simp add: pgx_methods sqlite_methods case_prod_beta Let_def)
  next
    case (query q q' args)
    with al R have "match_answers R Q (en_query e1 (holes q) args s) (en_query e2 (holes q') args t)" by simp
    from answered_match [OF this, of H Q Returned Returned] query st keep show ?thesis
      by (simp add: pgx_methods sqlite_methods case_prod_beta Let_def)
  next
    case (row q q' args)
    with al R have "match_answers R Q (en_query e1 (holes q) args s) (en_query e2 (holes q') args t)" by simp
    from answered_match [OF this, of H Q Returned Returned] row st keep show ?thesis
      by (simp add: pgx_methods sqlite_methods case_prod_beta Let_def)
  next
    case (prepare q q')
    with al R have "match_answers R H (en_prepare e1 (holes q) s) (en_prepare e2 (holes q') t)" by simp
    from answered_match [OF this, of H Q PreparedStmt PreparedStmt] prepare st keep show ?thesis
      by (simp add: pgx_methods sqlite_methods case_prod_beta Let_def)
  next
    case (tx_exec q q' args)
    show ?thesis
    proof (cases x)
      case (Some x0)
      with x obtain y0 where y: "y = Some y0" "X x0 y0" by (cases y) auto
      with tx_exec al R have "match_answers R Q (en_tx_exec e1 x0 (holes q) args s) (en_tx_exec e2 y0 (holes q') args t)"
        by simp
      from answered_match [OF this, of H Q Returned Returned] tx_exec st Some y show ?thesis
        by (simp add: pgx_methods sqlite_methods case_prod_beta Let_def match_state_Some)
    qed (use x st tx_exec R in \<open>auto simp: match_state_None\<close>)
  next
    case (tx_prepare q q')
    show ?thesis
    proof (cases x)
      case (Some x0)
      with x obtain y0 where y: "y = Some y0" "X x0 y0" by (cases y) auto
      with tx_prepare al R have "match_answers R H (en_tx_prepare e1 x0 (holes q) s) (en_tx_prepare e2 y0 (holes q') t)"
        by simp
      from answered_match [OF this, of H Q PreparedStmt PreparedStmt] tx_prepare st Some y show ?thesis
        by (simp add: pgx_methods sqlite_methods case_prod_beta Let_def match_state_Some)
    qed (use x st tx_prepare R in \<open>auto simp: match_state_None\<close>)
  next
    case textless
    then show ?thesis unfolding st using textless_call [OF assms(1) x R] by simp
  qed
qed

lemma calls_match:
  assumes "alike R X H Q same e1 e2"
  shows "list_all2 (same_call same) cs cs' \<Longrightarrow> match_state e1 e2 R X ts us \<Longrightarrow>
    list_all2 (match_results H Q) (fst (call_all (pgx_db e1) cs ts)) (fst (call_all (sqlite_db e2) cs' us))
    \<and> R (snd (call_all (pgx_db e1) cs ts)) (snd (call_all (sqlite_db e2) cs' us))"
proof (induction cs cs' arbitrary: ts us rule: list_all2_induct)
  case Nil
  then show ?case by (auto simp: match_state_def)
next
  case (Cons c cs c' cs')
  obtain a t s b u r where run: "call_db (pgx_db e1) c ts = (a, t, s)" "call_db (sqlite_db e2) c' us = (b, u, r)"
    by (metis prod_cases3)
  from call_matches [OF assms Cons.hyps(1) Cons.prems] Cons.IH [of "(t, s)" "(u, r)"] run show ?case
    by (cases ts; cases us) (simp add: case_prod_beta Let_def)
qed

text \<open>The texts of the store are such texts.\<close>

lemma store_calls_plain:
  "(method, q, n) \<in> set statements \<Longrightarrow> plain_text False q"
  "plain_text False (cost_query_text cq)" "plain_text False (aggregate_text cq)"
  "plain_text False ''INSERT INTO schema_migrations (version, dirty) VALUES (?, FALSE)''"
proof -
  show "(method, q, n) \<in> set statements \<Longrightarrow> plain_text False q"
    using statement_arguments by (auto simp: list_all_iff)
  show "plain_text False (cost_query_text cq)" "plain_text False (aggregate_text cq)"
    using cost_query_text_plain aggregate_text_plain by blast+
  show "plain_text False ''INSERT INTO schema_migrations (version, dirty) VALUES (?, FALSE)''"
    by code_simp
qed

text \<open>
  C40: The wrapper adds no difference of its own between PostgreSQL and SQLite: if their engines answer alike the
  statements that a sequence of calls on the store's connection carries (each with the text for its system, question
  marks standing for the arguments), then all the calls, transactions and preparations of statements included,
  are answered alike through the wrapper, which numbers the parameters for PostgreSQL and passes the text on to
  SQLite, and leave the systems in corresponding states. The texts for PostgreSQL have no dollar sign outside
  quotes; no text of the store has one. Where the engines themselves differ on a statement (an offset without
  a limit) the property says nothing.
\<close>

theorem backends_agree:
  assumes "alike R X H Q same e1 e2" and "list_all2 (same_call same) cs cs'" and "R s t"
  shows "list_all2 (match_results H Q) (fst (call_all (ss_db (wrap_store ''pgx'' (numbered e1))) cs (None, s)))
      (fst (call_all (ss_db (wrap_store ''sqlite'' (positional e2))) cs' (None, t)))
    \<and> R (snd (call_all (ss_db (wrap_store ''pgx'' (numbered e1))) cs (None, s)))
      (snd (call_all (ss_db (wrap_store ''sqlite'' (positional e2))) cs' (None, t)))"
  using calls_match [OF assms(1,2) match_state_None [of R s t, OF assms(3)]]
  by (simp add: wrap_store_def pgx_db_def sqlite_db_def)

text \<open>
  Two engines that differ in their states, their handles and their errors: one keeps the statements it has executed, the
  other their number; a statement for a member of a group is one of two texts.
\<close>

definition log_engine :: "(piece list list, unit, piece list, nat, nat list) engine" where
  "log_engine = \<lparr>en_exec = \<lambda>p args s. (Inr args, s @ [p]), en_query = \<lambda>p args s. (Inl ''log'', s),
     en_prepare = \<lambda>p s. (Inr p, s), en_begin = \<lambda>s. (Inr (), s), en_ping = \<lambda>s. (Inr (), s),
     en_close = \<lambda>s. (Inr (), s), en_tx_exec = \<lambda>x p args s. (Inr args, s @ [p]),
     en_tx_prepare = \<lambda>x p s. (Inr p, s), en_tx_end = \<lambda>commit x s. (Inr (), s)\<rparr>"

definition count_engine :: "(nat, nat, nat, nat, nat list) engine" where
  "count_engine = \<lparr>en_exec = \<lambda>p args s. (Inr args, Suc s), en_query = \<lambda>p args s. (Inl ''count'', s),
     en_prepare = \<lambda>p s. (Inr (length p), s), en_begin = \<lambda>s. (Inr s, s), en_ping = \<lambda>s. (Inr (), s),
     en_close = \<lambda>s. (Inr (), s), en_tx_exec = \<lambda>x p args s. (Inr args, Suc s),
     en_tx_prepare = \<lambda>x p s. (Inr (length p), s), en_tx_end = \<lambda>commit x s. (Inr (), s)\<rparr>"

definition member_texts :: "piece list \<Rightarrow> piece list \<Rightarrow> bool" where
  "member_texts p q \<longleftrightarrow> p = holes AddGroupMember_pgx \<and> q = holes AddGroupMember_sqlite"

lemma engines_alike:
  "alike (\<lambda>s n. n = length s) (\<lambda>_ _. True) (\<lambda>_ _. True) (=) member_texts log_engine count_engine"
  by (simp add: alike_def match_answers_def log_engine_def count_engine_def)

theorem backends_agree_witness:
  "length (snd (call_all (ss_db (wrap_store ''pgx'' (numbered log_engine)))
       [CallBegin, CallTxPrepare AddGroupMember_pgx, CallTxExec AddGroupMember_pgx [7, 8], CallCommit] (None, [])))
   = snd (call_all (ss_db (wrap_store ''sqlite'' (positional count_engine)))
       [CallBegin, CallTxPrepare AddGroupMember_sqlite, CallTxExec AddGroupMember_sqlite [7, 8], CallCommit] (None, 0))"
proof -
  have "plain_text False AddGroupMember_pgx" by code_simp
  then have t: "same_text member_texts AddGroupMember_pgx AddGroupMember_sqlite" by (simp add: member_texts_def)
  have c: "list_all2 (same_call member_texts)
      [CallBegin, CallTxPrepare AddGroupMember_pgx, CallTxExec AddGroupMember_pgx [7, 8], CallCommit]
      [CallBegin, CallTxPrepare AddGroupMember_sqlite, CallTxExec AddGroupMember_sqlite [7, 8], CallCommit]"
    using t by (auto intro: same_call.intros)
  have "(0::nat) = length ([] :: piece list list)" by simp
  from backends_agree [OF engines_alike c this] show ?thesis by simp
qed

end
