(* ===== verification/Store_Laws.thy ===== *)
theory Store_Laws
  imports Store
begin

text \<open>
  What the store promises: the schema invariant under every sequence of its operations, the
  functional behaviour of each operation seen through the later reads, the referential
  effect of deletions, the all-or-nothing insertion of cost records, and the agreement of the
  statement texts with their arguments under both placeholder styles.
\<close>

section \<open>Driver calls\<close>

lemma keep_project_simps [simp]:
  "p_id (keep_project e p) = p_id p" "p_name (keep_project e p) = p_name p"
  "p_description (keep_project e p) = p_description p"
  "p_created (keep_project e p) = e_time e (p_created p)" "p_updated (keep_project e p) = e_time e (p_updated p)"
  by (simp_all add: keep_project_def)

lemma keep_source_simps [simp]:
  "cs_id (keep_source e s) = cs_id s" "cs_project (keep_source e s) = cs_project s" "cs_type (keep_source e s) = cs_type s"
  "cs_name (keep_source e s) = cs_name s" "cs_config (keep_source e s) = cs_config s"
  "cs_enabled (keep_source e s) = cs_enabled s"
  by (simp_all add: keep_source_def)

lemma keep_user_simps [simp]:
  "ur_id (keep_user e u) = ur_id u" "ur_email (keep_user e u) = ur_email u" "ur_display (keep_user e u) = ur_display u"
  "ur_subject (keep_user e u) = ur_subject u"
  by (simp_all add: keep_user_def)

lemma keep_group_simps [simp]:
  "gr_id (keep_group e g) = gr_id g" "gr_name (keep_group e g) = gr_name g" "gr_claim (keep_group e g) = gr_claim g"
  by (simp_all add: keep_group_def)

lemma keep_budget_simps [simp]:
  "b_id (keep_budget e b) = b_id b" "b_project (keep_budget e b) = b_project b"
  "b_cost_source (keep_budget e b) = b_cost_source b"
  by (simp_all add: keep_budget_def)

lemma keep_record_simps [simp]:
  "cr_id (keep_record e r) = cr_id r" "cr_project (keep_record e r) = cr_project r"
  "cr_source (keep_record e r) = cr_source r" "cr_provider (keep_record e r) = cr_provider r"
  "cr_provider_id (keep_record e r) = cr_provider_id r" "cr_account_id (keep_record e r) = cr_account_id r"
  "cr_account_name (keep_record e r) = cr_account_name r" "cr_invoice (keep_record e r) = cr_invoice r"
  "cr_service (keep_record e r) = cr_service r" "cr_category (keep_record e r) = cr_category r"
  "cr_region (keep_record e r) = cr_region r" "cr_zone (keep_record e r) = cr_zone r"
  "cr_currency (keep_record e r) = cr_currency r" "cr_labels (keep_record e r) = cr_labels r"
  "cr_labels_json (keep_record e r) = cr_labels_json r"
  "cr_start (keep_record e r) = e_time e (cr_start r)" "cr_end (keep_record e r) = e_time e (cr_end r)"
  "cr_list (keep_record e r) = e_real e (cr_list r)" "cr_net (keep_record e r) = e_real e (cr_net r)"
  "cr_amortized (keep_record e r) = e_real e (cr_amortized r)"
  "cr_amortized_net (keep_record e r) = e_real e (cr_amortized_net r)"
  "cr_k8s_percent (keep_record e r) = e_real e (cr_k8s_percent r)"
  by (simp_all add: keep_record_def)

text \<open>Columns that keep the whole value, as those of SQLite.\<close>

definition keeps_all :: "env \<Rightarrow> bool" where
  "keeps_all e \<longleftrightarrow> e_time e = (\<lambda>t. t) \<and> e_real e = (\<lambda>x. x)"

lemma keep_all [simp]:
  assumes "keeps_all e"
  shows "keep_project e p = p" and "keep_source e s = s" and "keep_user e u = u" and "keep_group e g = g"
    and "keep_budget e b = b" and "keep_record e r = r" and "keep_cond e c = c"
  using assms by (simp_all add: keeps_all_def keep_project_def keep_source_def keep_user_def keep_group_def keep_budget_def
      keep_record_def option.map_ident) (cases c; simp)

lemma driver_call_simps [simp]:
  "fst (driver_call e w) = (\<not> e_fault e (w_calls w))"
  "w_db (snd (driver_call e w)) = w_db w"
  by (simp_all add: driver_call_def)

lemma newID_db [simp]: "w_db (snd (newID e w)) = w_db w"
  by (simp add: newID_def)

lemma now_db [simp]: "w_db (snd (now e w)) = w_db w"
  by (simp add: now_def)

lemma ensure_id_db [simp]: "w_db (snd (ensure_id e i w)) = w_db w"
  by (simp add: ensure_id_def)

lemma query_rows_db [simp]: "w_db (snd (query_rows e sel w)) = w_db w"
  by (simp add: query_rows_def driver_call_def)

lemma query_rows_fst:
  "fst (query_rows e sel w) = (if e_fault e (w_calls w) then Inl DriverError else Inr (sel (w_db w)))"
  by (simp add: query_rows_def driver_call_def)

lemma query_rows_Inr: "query_rows e sel w = (Inr x, w') \<Longrightarrow> x = sel (w_db w) \<and> w_db w' = w_db w"
  by (auto simp: query_rows_def driver_call_def split: if_splits)

lemma query_rows_Inl: "query_rows e sel w = (Inl err, w') \<Longrightarrow> err = DriverError \<and> w_db w' = w_db w"
  by (auto simp: query_rows_def driver_call_def split: if_splits)

lemma exec_Inr: "exec e stmt w = (Inr u, w') \<Longrightarrow> stmt (w_db w) = Inr (w_db w')"
  by (auto simp: exec_def driver_call_def split: if_splits sum.splits)

lemma exec_Inl: "exec e stmt w = (Inl err, w') \<Longrightarrow> w_db w' = w_db w"
  by (auto simp: exec_def driver_call_def split: if_splits sum.splits)

lemma exec_db:
  "w_db (snd (exec e stmt w)) = w_db w \<or> stmt (w_db w) = Inr (w_db (snd (exec e stmt w)))"
  by (auto simp: exec_def driver_call_def split: if_splits sum.splits)

lemma exec_preserves:
  assumes "\<And>d d'. stmt d = Inr d' \<Longrightarrow> db_inv d \<Longrightarrow> db_inv d'" and "db_inv (w_db w)"
  shows "db_inv (w_db (snd (exec e stmt w)))"
  using assms exec_db [of e stmt w] by auto

lemmas exec_stmt_inv = stmt_inv [THEN exec_preserves]

text \<open>Every method that writes is some preparation and one \<open>exec\<close>.\<close>

lemmas write_defs =
  CreateProject_def UpdateProject_def DeleteProject_def
  CreateCostSource_def UpdateCostSource_def DeleteCostSource_def UpdateCostSourceCollectedAt_def
  CreateUser_def CreateGroup_def AddGroupMember_def RemoveGroupMember_def
  SetProjectRole_def RemoveProjectRole_def CreateBudget_def UpdateBudget_def DeleteBudget_def

lemmas read_defs =
  GetProject_def ListProjects_def GetCostSource_def ListCostSources_def
  GetUser_def GetUserByEmail_def GetUserByOIDCSubject_def ListUsers_def
  GetGroup_def GetGroupByOIDCClaim_def ListGroups_def ListGroupMembers_def
  ListProjectRoles_def GetUserProjectRole_def ListUserProjects_def GetBudget_def ListBudgets_def
  AggregateCosts_def

section \<open>The operations as steps\<close>

datatype store_op =
    OpCreateProject project | OpUpdateProject project | OpDeleteProject string
  | OpCreateCostSource cost_source | OpUpdateCostSource cost_source | OpDeleteCostSource string
  | OpCollectedAt string time
  | OpCreateUser user | OpCreateGroup group
  | OpAddGroupMember string string | OpRemoveGroupMember string string
  | OpSetProjectRole project_role | OpRemoveProjectRole string subject_type string
  | OpCreateBudget budget | OpUpdateBudget budget | OpDeleteBudget string
  | OpInsertCostRecords "cost_record list"

fun store_step :: "env \<Rightarrow> store_op \<Rightarrow> world \<Rightarrow> world" where
  "store_step e (OpCreateProject p) w = snd (CreateProject e p w)"
| "store_step e (OpUpdateProject p) w = snd (UpdateProject e p w)"
| "store_step e (OpDeleteProject i) w = snd (DeleteProject e i w)"
| "store_step e (OpCreateCostSource s) w = snd (CreateCostSource e s w)"
| "store_step e (OpUpdateCostSource s) w = snd (UpdateCostSource e s w)"
| "store_step e (OpDeleteCostSource i) w = snd (DeleteCostSource e i w)"
| "store_step e (OpCollectedAt i t) w = snd (UpdateCostSourceCollectedAt e i t w)"
| "store_step e (OpCreateUser u) w = snd (CreateUser e u w)"
| "store_step e (OpCreateGroup g) w = snd (CreateGroup e g w)"
| "store_step e (OpAddGroupMember g u) w = snd (AddGroupMember e g u w)"
| "store_step e (OpRemoveGroupMember g u) w = snd (RemoveGroupMember e g u w)"
| "store_step e (OpSetProjectRole pr) w = snd (SetProjectRole e pr w)"
| "store_step e (OpRemoveProjectRole p st s) w = snd (RemoveProjectRole e p st s w)"
| "store_step e (OpCreateBudget b) w = snd (CreateBudget e b w)"
| "store_step e (OpUpdateBudget b) w = snd (UpdateBudget e b w)"
| "store_step e (OpDeleteBudget i) w = snd (DeleteBudget e i w)"
| "store_step e (OpInsertCostRecords rs) w = snd (InsertCostRecords e rs w)"

definition store_run :: "env \<Rightarrow> store_op list \<Rightarrow> world \<Rightarrow> world" where
  "store_run e ops w = fold (store_step e) ops w"

section \<open>Insertion of cost records\<close>

lemma insert_loop_world: "w_db (snd (insert_records_loop e rs tx w)) = w_db w"
  by (induction e rs tx w rule: insert_records_loop.induct)
    (auto simp: ensure_id_def newID_def driver_call_def split: sum.splits)

lemma insert_loop_inv:
  "insert_records_loop e rs tx w = (Inr tx', w') \<Longrightarrow> db_inv tx \<Longrightarrow> db_inv tx'"
proof (induction e rs tx w arbitrary: w' rule: insert_records_loop.induct)
  case (2 e r rs tx w)
  then show ?case
    by (auto simp: Let_def split: prod.splits if_splits sum.splits dest: insert_record_inv)
qed simp

lemma InsertCostRecords_Inl:
  "InsertCostRecords e rs w = (Inl err, w') \<Longrightarrow> w_db w' = w_db w"
  using insert_loop_world [of e rs "w_db w" "snd (driver_call e (snd (driver_call e w)))"]
  by (auto simp: InsertCostRecords_def driver_call_def split: if_splits sum.splits prod.splits)

lemma InsertCostRecords_Inr:
  assumes "InsertCostRecords e rs w = (Inr u, w')"
  obtains w1 w2 where "insert_records_loop e rs (w_db w) w1 = (Inr (w_db w'), w2)"
  using assms
  by (auto simp: InsertCostRecords_def driver_call_def split: if_splits sum.splits prod.splits)

lemma InsertCostRecords_inv:
  assumes "db_inv (w_db w)"
  shows "db_inv (w_db (snd (InsertCostRecords e rs w)))"
proof (cases "InsertCostRecords e rs w")
  case (Pair r w')
  with assms show ?thesis
    by (cases r) (auto dest: InsertCostRecords_Inl elim!: InsertCostRecords_Inr intro: insert_loop_inv)
qed

lemma store_step_inv: "db_inv (w_db w) \<Longrightarrow> db_inv (w_db (store_step e op w))"
  by (cases op) (simp_all add: write_defs Let_def case_prod_beta InsertCostRecords_inv exec_stmt_inv)

lemma store_run_inv: "db_inv (w_db w) \<Longrightarrow> db_inv (w_db (store_run e ops w))"
  unfolding store_run_def by (induction ops arbitrary: w) (simp_all add: store_step_inv)

text \<open>
  C2: the constraints of the schema (primary keys, unique columns, foreign keys) hold in every
  state the store's operations reach from the empty database, whatever fails on the way.
\<close>

theorem store_schema_invariant: "db_inv (w_db (store_run e ops init_world))"
  by (rule store_run_inv) (simp add: init_world_def db_inv_empty)

section \<open>Projects: reads after writes\<close>

lemma CreateProject_Inr:
  assumes "CreateProject e p w = (Inr p', w1)"
  shows "stmt_insert_project (keep_project e p') (w_db w) = Inr (w_db w1)"
    and "p_name p' = p_name p" and "p_description p' = p_description p"
    and "p_updated p' = p_created p'" and "p_id p \<noteq> '''' \<Longrightarrow> p_id p' = p_id p"
  using assms
  by (auto simp: CreateProject_def Let_def map_sum_Inr ensure_id_def newID_def now_def
      split: prod.splits if_splits dest!: exec_Inr)

lemma insert_project_find:
  assumes "stmt_insert_project p d = Inr d'"
  shows "find_row p_id i (t_projects d') =
    (if i = p_id p then Some p else find_row p_id i (t_projects d))"
  using assms
  by (auto simp: stmt_insert_project_def find_row_snoc project_ids_def split: if_splits)

lemma UpdateProject_Inr:
  assumes "UpdateProject e p w = (Inr p', w1)"
  shows "stmt_update_project (p_id p) (p_name p) (p_description p) (e_time e (p_updated p')) (w_db w) = Inr (w_db w1)"
    and "p' = p\<lparr>p_updated := p_updated p'\<rparr>"
  using assms
  by (auto simp: UpdateProject_def Let_def map_sum_Inr now_def split: prod.splits dest!: exec_Inr)

lemma update_project_find:
  assumes "stmt_update_project i n ds t d = Inr d'"
  shows "find_row p_id j (t_projects d') =
    map_option (\<lambda>p. if p_id p = i then p\<lparr>p_name := n, p_description := ds, p_updated := t\<rparr> else p)
      (find_row p_id j (t_projects d))"
  using assms by (auto simp: stmt_update_project_def find_row_update split: if_splits)

text \<open>
  a created project is, with the times as the columns keep them, the one a later read of its identifier returns, with the name and
  description given, equal creation and update times, and no other project changed; the
  identifier was not in use.
\<close>

theorem create_then_get_project:
  assumes "CreateProject e p w = (Inr p', w1)" and "GetProject e i w1 = (Inr r, w2)"
  shows "r = (if i = p_id p' then Some (keep_project e p') else find_row p_id i (t_projects (w_db w)))
    \<and> p_name p' = p_name p \<and> p_description p' = p_description p \<and> p_updated p' = p_created p'
    \<and> p_id p' \<notin> project_ids (w_db w)"
proof -
  note c = CreateProject_Inr [OF assms(1)]
  have "r = find_row p_id i (t_projects (w_db w1))"
    using query_rows_Inr [OF assms(2) [unfolded GetProject_def]] by simp
  moreover have "p_id p' \<notin> project_ids (w_db w)"
    using c(1) by (auto simp: stmt_insert_project_def split: if_splits)
  ultimately show ?thesis
    using insert_project_find [OF c(1), of i] c by simp
qed

section \<open>A sample environment for the witnesses\<close>

definition sample_env :: env where
  "sample_env = \<lparr>e_driver = ''sqlite'', e_fault = (\<lambda>_. False), e_clock = int,
     e_uuid = (\<lambda>n. ''id-'' @ Itoa n), e_collate = (\<lambda>_ _. True), e_sum = (\<lambda>_. Fin 0),
     e_time = (\<lambda>t. t), e_real = (\<lambda>x. x)\<rparr>"

lemma sample_keeps [simp]: "keeps_all sample_env"
  by (simp add: keeps_all_def sample_env_def)

definition sample_project :: project where
  "sample_project = \<lparr>p_id = ''p1'', p_name = ''web'', p_description = '''', p_created = 0, p_updated = 0\<rparr>"

lemmas run_defs =
  driver_call_def newID_def now_def ensure_id_def exec_def query_rows_def
  sample_env_def sample_project_def init_world_def empty_tables_def Let_def

theorem create_then_get_project_witness:
  "find_row p_id ''p1'' (t_projects (w_db (snd (CreateProject sample_env sample_project init_world))))
     = Some (sample_project\<lparr>p_created := 0, p_updated := 0\<rparr>)"
proof -
  let ?w1 = "snd (CreateProject sample_env sample_project init_world)"
  have c: "CreateProject sample_env sample_project init_world
      = (Inr (sample_project\<lparr>p_created := 0, p_updated := 0\<rparr>), ?w1)"
    by (simp add: CreateProject_def run_defs stmt_insert_project_def project_ids_def)
  have g: "GetProject sample_env ''p1'' ?w1
      = (Inr (find_row p_id ''p1'' (t_projects (w_db ?w1))), snd (GetProject sample_env ''p1'' ?w1))"
    by (simp add: GetProject_def query_rows_def driver_call_def sample_env_def)
  show ?thesis
    using create_then_get_project [OF c g] by (simp add: sample_project_def)
qed

section \<open>Deletion of a project\<close>

lemma sources_of_set: "s \<in> set (sources_of i d) \<longleftrightarrow> (\<exists>c \<in> set (t_sources d). cs_id c = s \<and> cs_project c = i)"
  by (auto simp: sources_of_def)

lemma delete_project_eq:
  assumes "db_inv d"
  shows "stmt_delete_project i d = Inr (cascade_sources (sources_of i d) (drop_project i d))"
proof (cases "i \<in> project_ids d")
  case True
  then show ?thesis by (simp add: stmt_delete_project_def drop_project_def)
next
  case False
  then have no: "key r \<noteq> i" if "key ` set t \<subseteq> project_ids d" "r \<in> set t" for key r and t :: "'r list"
    using that by auto
  note refs = assms [unfolded db_inv_def refs_inv_def]
  have "sources_of i d = []"
    using no [of cs_project "t_sources d"] refs by (auto simp: sources_of_def filter_empty_conv)
  moreover have "drop_project i d = d"
    using no [of p_id "t_projects d"] no [of pr_project "t_roles d"] no [of b_project "t_budgets d"]
      no [of cr_project "t_records d"] refs
    by (simp add: drop_project_def project_ids_def delete_rows_id)
  moreover have "cascade_sources [] d = d"
    by (simp add: cascade_sources_def delete_rows_id update_rows_id)
  ultimately show ?thesis using False by (simp add: stmt_delete_project_def)
qed

text \<open>
  C29: deleting a project removes the project, its cost sources, roles and budgets, and every cost
  record that belongs to it or was collected from one of its sources; every other project,
  source, role, budget and record stays, and users, groups and memberships are untouched.
\<close>

theorem delete_project_cascade:
  assumes "db_inv (w_db w)" and "DeleteProject e i w = (Inr (), w')"
  shows "set (t_projects (w_db w')) = {p \<in> set (t_projects (w_db w)). p_id p \<noteq> i}
    \<and> set (t_sources (w_db w')) = {s \<in> set (t_sources (w_db w)). cs_project s \<noteq> i}
    \<and> set (t_roles (w_db w')) = {r \<in> set (t_roles (w_db w)). pr_project r \<noteq> i}
    \<and> b_id ` set (t_budgets (w_db w')) = b_id ` {b \<in> set (t_budgets (w_db w)). b_project b \<noteq> i}
    \<and> set (t_records (w_db w')) = {r \<in> set (t_records (w_db w)). cr_project r \<noteq> i
          \<and> cr_source r \<notin> cs_id ` {s \<in> set (t_sources (w_db w)). cs_project s = i}}
    \<and> t_users (w_db w') = t_users (w_db w) \<and> t_groups (w_db w') = t_groups (w_db w)
    \<and> t_members (w_db w') = t_members (w_db w)"
proof -
  let ?d = "w_db w" and ?gone = "sources_of i (w_db w)"
  have "stmt_delete_project i ?d = Inr (w_db w')"
    using assms(2) by (auto simp: DeleteProject_def dest: exec_Inr)
  then have d': "w_db w' = cascade_sources ?gone (drop_project i ?d)"
    using delete_project_eq [OF assms(1)] by simp
  have unique: "s = s'" if "s \<in> set (t_sources ?d)" "s' \<in> set (t_sources ?d)" "cs_id s = cs_id s'" for s s'
    using assms(1) that by (metis db_inv_def keys_inv_def distinct_map inj_on_def)
  have src: "cs_id s \<in> set ?gone \<longleftrightarrow> cs_project s = i" if "s \<in> set (t_sources ?d)" for s
    using that unique by (auto simp: sources_of_set)
  have "set (delete_rows (\<lambda>s. cs_id s \<in> set ?gone) (t_sources ?d))
      = {s \<in> set (t_sources ?d). cs_project s \<noteq> i}"
    using src by (auto simp: set_delete_rows)
  moreover have "set ?gone = cs_id ` {s \<in> set (t_sources ?d). cs_project s = i}"
    by (auto simp: sources_of_set)
  ultimately show ?thesis
    unfolding d' cascade_sources_def
    by (simp add: drop_project_def image_update_rows) (auto simp: set_delete_rows)
qed

definition sample_source :: cost_source where
  "sample_source = \<lparr>cs_id = ''s1'', cs_project = ''p1'', cs_type = ''kubernetes'', cs_name = ''prod'',
     cs_config = Some (JObj []), cs_enabled = True, cs_collected = None, cs_created = 0, cs_updated = 0\<rparr>"

definition sample_record :: cost_record where
  "sample_record = \<lparr>cr_id = ''r1'', cr_project = ''p1'', cr_source = ''s1'', cr_provider = ''kubernetes'',
     cr_provider_id = '''', cr_account_id = '''', cr_account_name = '''', cr_invoice = '''',
     cr_service = ''web'', cr_category = ''Compute'', cr_region = '''', cr_zone = '''', cr_start = 5,
     cr_end = 6, cr_list = Fin 1, cr_net = Fin 1, cr_amortized = Fin 1, cr_amortized_net = Fin 0,
     cr_currency = ''USD'', cr_labels = None, cr_labels_json = JObj [], cr_k8s_percent = Fin 1\<rparr>"

definition sample_db :: tables where
  "sample_db = empty_tables\<lparr>t_projects := [sample_project, sample_project\<lparr>p_id := ''p2'', p_name := ''db''\<rparr>],
     t_sources := [sample_source],
     t_users := [\<lparr>ur_id = ''u1'', ur_email = ''a@b'', ur_display = ''A'', ur_subject = Some ''sub'', ur_created = 0\<rparr>],
     t_roles := [\<lparr>pr_project = ''p1'', pr_subject_type = ''user'', pr_subject = ''u1'', pr_role = ''editor''\<rparr>],
     t_records := [sample_record]\<rparr>"

definition sample_world :: world where
  "sample_world = init_world\<lparr>w_db := sample_db\<rparr>"

lemmas sample_defs = sample_world_def sample_db_def sample_record_def sample_source_def run_defs

lemma sample_db_inv: "db_inv (w_db sample_world)"
  by (simp add: sample_defs inv_simps id_sets subjects_def role_key_def)

theorem delete_project_cascade_witness:
  "db_inv (w_db sample_world)
   \<and> set (t_records (w_db (snd (DeleteProject sample_env ''p1'' sample_world)))) = {}"
proof -
  have d: "DeleteProject sample_env ''p1'' sample_world
      = (Inr (), snd (DeleteProject sample_env ''p1'' sample_world))"
    by (simp add: DeleteProject_def exec_def driver_call_def stmt_delete_project_def sample_env_def)
  show ?thesis
    using delete_project_cascade [OF sample_db_inv d] sample_db_inv
    by (simp add: sample_defs)
qed

section \<open>Cost records: all or nothing, and back\<close>

text \<open>
  The row that \<open>InsertCostRecords\<close> stores for a record: its values as the columns keep them; only an empty identifier is
  replaced.
\<close>

definition stored_as :: "env \<Rightarrow> cost_record \<Rightarrow> cost_record \<Rightarrow> bool" where
  "stored_as e r row \<longleftrightarrow>
     row = (keep_record e r)\<lparr>cr_id := cr_id row, cr_labels := None, cr_labels_json := marshal_labels (cr_labels r)\<rparr>
     \<and> (cr_id r \<noteq> '''' \<longrightarrow> cr_id row = cr_id r)"

lemma stored_as_row:
  assumes "cr_id r \<noteq> '''' \<longrightarrow> i = cr_id r"
  shows "stored_as e r (keep_record e (r\<lparr>cr_id := i, cr_labels := None, cr_labels_json := marshal_labels (cr_labels r)\<rparr>))"
  using assms by (simp add: stored_as_def keep_record_def)

lemma stored_as_fields:
  assumes "stored_as e r row"
  shows "cr_labels_json row = marshal_labels (cr_labels r)" and "cr_labels row = None"
proof -
  obtain i where "row = (keep_record e r)\<lparr>cr_id := i, cr_labels := None, cr_labels_json := marshal_labels (cr_labels r)\<rparr>"
    using assms unfolding stored_as_def by blast
  then show "cr_labels_json row = marshal_labels (cr_labels r)" and "cr_labels row = None"
    by simp_all
qed

lemma insert_record_rows:
  "stmt_insert_record row tx = Inr tx' \<Longrightarrow> tx' = tx\<lparr>t_records := t_records tx @ [row]\<rparr>"
  by (auto simp: stmt_insert_record_def split: if_splits)

lemma insert_loop_rows:
  "insert_records_loop e rs tx w = (Inr tx', w') \<Longrightarrow>
   \<exists>rows. list_all2 (stored_as e) rs rows \<and> tx' = tx\<lparr>t_records := t_records tx @ rows\<rparr>"
proof (induction e rs tx w arbitrary: w' rule: insert_records_loop.induct)
  case (1 e tx w)
  then show ?case by (intro exI [where x = "[]"]) simp
next
  case (2 e r rs tx w)
  obtain i w1 where i: "ensure_id e (cr_id r) w = (i, w1)" by fastforce
  obtain ok w2 where ok: "driver_call e w1 = (ok, w2)" by fastforce
  let ?row = "r\<lparr>cr_id := i, cr_labels := None, cr_labels_json := marshal_labels (cr_labels r)\<rparr>"
  have "ok" using "2.prems" i ok by (auto split: if_splits)
  then obtain tx1 where tx1: "stmt_insert_record (keep_record e ?row) tx = Inr tx1"
    and rest: "insert_records_loop e rs tx1 w2 = (Inr tx', w')"
    using "2.prems" i ok by (auto split: sum.splits)
  obtain rows where "list_all2 (stored_as e) rs rows" "tx' = tx1\<lparr>t_records := t_records tx1 @ rows\<rparr>"
    using "2.IH" [OF i [symmetric] _ refl refl ok [symmetric] _ tx1 rest] i ok \<open>ok\<close> by auto
  moreover have "stored_as e r (keep_record e ?row)"
    using i by (intro stored_as_row) (auto simp: ensure_id_def)
  ultimately show ?case
    using insert_record_rows [OF tx1] by (intro exI [where x = "keep_record e ?row # rows"]) simp
qed

lemma insert_loop_sources:
  "insert_records_loop e rs tx w = (Inr tx', w') \<Longrightarrow> tx' = tx\<lparr>t_records := t_records tx @ rows\<rparr> \<Longrightarrow>
   \<forall>row \<in> set rows. cr_source row \<in> source_ids tx"
proof (induction e rs tx w arbitrary: w' rows rule: insert_records_loop.induct)
  case (1 e tx w)
  then have "t_records (tx\<lparr>t_records := t_records tx @ rows\<rparr>) = t_records tx" by (simp only: insert_records_loop.simps) auto
  then show ?case by simp
next
  case (2 e r rs tx w)
  obtain i w1 where i: "ensure_id e (cr_id r) w = (i, w1)" by fastforce
  obtain ok w2 where ok: "driver_call e w1 = (ok, w2)" by fastforce
  let ?row = "keep_record e (r\<lparr>cr_id := i, cr_labels := None, cr_labels_json := marshal_labels (cr_labels r)\<rparr>)"
  have "ok" using "2.prems"(1) i ok by (auto split: if_splits)
  then obtain tx1 where tx1: "stmt_insert_record ?row tx = Inr tx1"
    and rest: "insert_records_loop e rs tx1 w2 = (Inr tx', w')"
    using "2.prems"(1) i ok by (auto split: sum.splits)
  obtain rows' where rows': "tx' = tx1\<lparr>t_records := t_records tx1 @ rows'\<rparr>"
    using insert_loop_rows [OF rest] by blast
  have row: "cr_source ?row \<in> source_ids tx"
    using tx1 by (auto simp: stmt_insert_record_def split: if_splits)
  have tx1': "tx1 = tx\<lparr>t_records := t_records tx @ [?row]\<rparr>" by (rule insert_record_rows [OF tx1])
  have "t_records tx' = t_records tx @ rows" using "2.prems"(2) by simp
  with rows' tx1' have "rows = ?row # rows'" by simp
  moreover have "\<forall>row \<in> set rows'. cr_source row \<in> source_ids tx1"
    using "2.IH" [OF i [symmetric] _ refl refl ok [symmetric] _ tx1 rest rows'] i ok \<open>ok\<close> by auto
  moreover have "source_ids tx1 = source_ids tx" by (simp add: tx1' source_ids_def)
  ultimately show ?case using row by simp
qed

text \<open>
  C3: inserting cost records is all or nothing: an error, at whichever record or driver call,
  leaves the tables as they were; success appends one row per record, in order, with the record's values as
  the columns of the database keep them (\<open>TIMESTAMP\<close> and \<open>REAL\<close> of PostgreSQL round), its own identifier if it has one, and
  its labels as JSON.
\<close>

theorem insert_records_atomic:
  "case InsertCostRecords e rs w of
     (Inl err, w') \<Rightarrow> w_db w' = w_db w
   | (Inr u, w') \<Rightarrow> \<exists>rows. list_all2 (stored_as e) rs rows
        \<and> w_db w' = (w_db w)\<lparr>t_records := t_records (w_db w) @ rows\<rparr>"
proof (cases "InsertCostRecords e rs w")
  case (Pair r w')
  show ?thesis
  proof (cases r)
    case (Inl err)
    with Pair show ?thesis by (simp add: InsertCostRecords_Inl)
  next
    case (Inr u)
    with Pair obtain w1 w2 where "insert_records_loop e rs (w_db w) w1 = (Inr (w_db w'), w2)"
      by (auto elim: InsertCostRecords_Inr)
    from insert_loop_rows [OF this] Pair Inr show ?thesis by simp
  qed
qed

subsection \<open>Labels\<close>

lemma label_values_marshal: "label_values (map (\<lambda>(k, v). (k, JStr v)) kvs) = Some kvs"
  by (induction kvs) auto

lemma update_fresh: "k \<notin> fst ` set m \<Longrightarrow> AList.update k v m = m @ [(k, v)]"
  by (induction m) auto

lemma fold_update_distinct:
  "distinct (map fst (acc @ kvs)) \<Longrightarrow> fold (\<lambda>(k, v). AList.update k v) kvs acc = acc @ kvs"
proof (induction kvs arbitrary: acc)
  case (Cons kv kvs)
  then have "fst kv \<notin> fst ` set acc" by auto
  with Cons show ?case by (cases kv) (simp add: update_fresh)
qed simp

lemma unmarshal_marshal_labels:
  "distinct (map fst kvs) \<Longrightarrow> unmarshal_labels (marshal_labels (Some kvs)) = Some (Some kvs)"
  using fold_update_distinct [of "[]" kvs] by (simp add: marshal_labels_def label_values_marshal)

text \<open>A Go map has one value per key; a nil map and an empty one are stored alike.\<close>

definition labels_ok :: "cost_record \<Rightarrow> bool" where
  "labels_ok r \<longleftrightarrow> (case cr_labels r of None \<Rightarrow> True | Some kvs \<Rightarrow> distinct (map fst kvs))"

definition read_back :: "cost_record \<Rightarrow> cost_record \<Rightarrow> cost_record" where
  "read_back r row = row\<lparr>cr_labels := (if cr_labels r = Some [] then None else cr_labels r)\<rparr>"

lemma scan_stored:
  "list_all2 (stored_as e) rs rows \<Longrightarrow> list_all labels_ok rs \<Longrightarrow>
   scan_records rows = Inr (map2 read_back rs rows)"
proof (induction rs rows rule: list_all2_induct)
  case Nil
  then show ?case by simp
next
  case (Cons r rs row rows)
  note row = stored_as_fields [OF Cons(1)]
  show ?case
  proof (cases "cr_labels r")
    case None
    have "row\<lparr>cr_labels := None\<rparr> = row" using row(2) by (cases row) simp
    with None Cons row show ?thesis by (simp add: marshal_labels_def read_back_def)
  next
    case (Some kvs)
    have "unmarshal_labels (marshal_labels (Some kvs)) = Some (Some kvs)"
      using Some Cons.prems by (intro unmarshal_marshal_labels) (simp add: labels_ok_def)
    moreover have "row\<lparr>cr_labels := None\<rparr> = row" using row(2) by (cases row) simp
    ultimately show ?thesis
      using Some Cons row by (cases kvs) (auto simp: marshal_labels_def read_back_def)
  qed
qed

section \<open>Queries over cost records\<close>

lemma scan_records_rows:
  "scan_records rows = Inr out \<Longrightarrow> list_all2 (\<lambda>row r. \<exists>m. r = row\<lparr>cr_labels := m\<rparr>) rows out"
proof (induction rows arbitrary: out)
  case (Cons row rows)
  have same: "\<exists>m. row = row\<lparr>cr_labels := m\<rparr>" by (rule exI [where x = "cr_labels row"]) simp
  show ?case
    using Cons same by (fastforce simp: map_sum_Inr split: if_splits option.splits)
qed simp

lemma scan_records_mem:
  "scan_records rows = Inr out \<Longrightarrow> row \<in> set rows \<Longrightarrow>
   (if cr_labels_json row = JObj [] then row \<in> set out
    else \<exists>m. unmarshal_labels (cr_labels_json row) = Some m \<and> row\<lparr>cr_labels := m\<rparr> \<in> set out)"
proof (induction rows arbitrary: out)
  case (Cons r rows)
  obtain out' r' where out: "out = r' # out'" "scan_records rows = Inr out'"
    and r': "if cr_labels_json r = JObj [] then r' = r
      else \<exists>m. unmarshal_labels (cr_labels_json r) = Some m \<and> r' = r\<lparr>cr_labels := m\<rparr>"
    using Cons.prems(1) by (auto simp: map_sum_Inr split: if_splits option.splits)
  show ?case
  proof (cases "row = r")
    case True
    with out r' show ?thesis by auto
  next
    case False
    with Cons.prems(2) Cons.IH [OF out(2)] out(1) show ?thesis by auto
  qed
qed simp

lemma cond_holds_labels [simp]: "cond_holds c (r\<lparr>cr_labels := m\<rparr>) = cond_holds c r"
  by (cases c) simp_all

text \<open>A condition that holds of a record holds, as compared in the database, of its row, if the columns keep the order.\<close>

lemma cond_holds_stored:
  assumes "stored_as e r row" and "mono (e_time e)" and "cond_holds c r"
  shows "cond_holds (keep_cond e c) row"
proof -
  obtain i where "row = (keep_record e r)\<lparr>cr_id := i, cr_labels := None, cr_labels_json := marshal_labels (cr_labels r)\<rparr>"
    using assms(1) unfolding stored_as_def by blast
  with assms(2,3) show ?thesis by (cases c) (simp_all add: monoD)
qed

lemma QueryCostRecords_Inr:
  assumes "QueryCostRecords e q w = (Inr out, w')"
  shows "scan_records (page (q_limit q) (q_offset q)
           (sort_key (\<lambda>r. - cr_start r) (where_rows e q (w_db w)))) = Inr out"
    and "w_db w' = w_db w"
  using assms by (auto simp: QueryCostRecords_def driver_call_def split: if_splits)

lemma page_all [simp]: "limit \<le> 0 \<Longrightarrow> offset \<le> 0 \<Longrightarrow> page limit offset rows = rows"
  by (simp add: page_def)

text \<open>
  How long a record lives: an operation spares it unless it deletes its project, its cost source, or the project of its
  cost source (\<open>d\<close> are the tables in which the cost source is looked up).
\<close>

definition spares :: "tables \<Rightarrow> cost_record \<Rightarrow> store_op \<Rightarrow> bool" where
  "spares d r op =
     (case op of
        OpDeleteProject i \<Rightarrow> i \<noteq> cr_project r \<and> list_all (\<lambda>s. cs_id s = cr_source r \<longrightarrow> cs_project s \<noteq> i) (t_sources d)
      | OpDeleteCostSource i \<Rightarrow> i \<noteq> cr_source r
      | _ \<Rightarrow> True)"

definition row_kept :: "tables \<Rightarrow> cost_record \<Rightarrow> tables \<Rightarrow> bool" where
  "row_kept d row d' \<longleftrightarrow> row \<in> set (t_records d') \<and> cr_source row \<in> source_ids d'
     \<and> (\<forall>s \<in> set (t_sources d'). cs_id s = cr_source row
          \<longrightarrow> (\<exists>s0 \<in> set (t_sources d). cs_id s0 = cs_id s \<and> cs_project s0 = cs_project s))"

lemma row_kept_same:
  "row_kept d row d1 \<Longrightarrow> set (t_records d1) \<subseteq> set (t_records d2) \<Longrightarrow> t_sources d2 = t_sources d1 \<Longrightarrow> row_kept d row d2"
  by (auto simp: row_kept_def source_ids_def)

lemma row_kept_updated:
  assumes "row_kept d row d1" and "t_records d2 = t_records d1" and "t_sources d2 = update_rows P f (t_sources d1)"
    and "\<And>s. cs_id (f s) = cs_id s" and "\<And>s. cs_project (f s) = cs_project s"
  shows "row_kept d row d2"
proof -
  have "source_ids d2 = source_ids d1" using assms(3,4) by (simp add: source_ids_def image_update_rows)
  with assms show ?thesis by (auto simp: row_kept_def update_rows_def split: if_splits)
qed

lemma stmt_sources_kept:
  "stmt_insert_project p d1 = Inr d2 \<Longrightarrow> row_kept d row d1 \<Longrightarrow> row_kept d row d2"
  "stmt_insert_user u d1 = Inr d2 \<Longrightarrow> row_kept d row d1 \<Longrightarrow> row_kept d row d2"
  "stmt_insert_group g d1 = Inr d2 \<Longrightarrow> row_kept d row d1 \<Longrightarrow> row_kept d row d2"
  "stmt_insert_member i j d1 = Inr d2 \<Longrightarrow> row_kept d row d1 \<Longrightarrow> row_kept d row d2"
  "stmt_upsert_role pr d1 = Inr d2 \<Longrightarrow> row_kept d row d1 \<Longrightarrow> row_kept d row d2"
  "stmt_insert_budget b d1 = Inr d2 \<Longrightarrow> row_kept d row d1 \<Longrightarrow> row_kept d row d2"
  "stmt_insert_record cr d1 = Inr d2 \<Longrightarrow> row_kept d row d1 \<Longrightarrow> row_kept d row d2"
  "stmt_update_project i n ds t d1 = Inr d2 \<Longrightarrow> row_kept d row d1 \<Longrightarrow> row_kept d row d2"
  "stmt_update_budget i l wn t d1 = Inr d2 \<Longrightarrow> row_kept d row d1 \<Longrightarrow> row_kept d row d2"
  "stmt_delete_member i j d1 = Inr d2 \<Longrightarrow> row_kept d row d1 \<Longrightarrow> row_kept d row d2"
  "stmt_delete_role i st j d1 = Inr d2 \<Longrightarrow> row_kept d row d1 \<Longrightarrow> row_kept d row d2"
  "stmt_delete_budget i d1 = Inr d2 \<Longrightarrow> row_kept d row d1 \<Longrightarrow> row_kept d row d2"
  by (auto simp: stmt_insert_project_def stmt_insert_user_def stmt_insert_group_def
      stmt_insert_member_def stmt_upsert_role_def stmt_insert_budget_def stmt_insert_record_def stmt_update_project_def
      stmt_update_budget_def stmt_delete_member_def stmt_delete_role_def stmt_delete_budget_def
      elim!: row_kept_same split: if_splits)

lemma stmt_source_kept:
  "stmt_insert_source cs d1 = Inr d2 \<Longrightarrow> row_kept d row d1 \<Longrightarrow> row_kept d row d2"
  "stmt_update_source i n cf en t d1 = Inr d2 \<Longrightarrow> row_kept d row d1 \<Longrightarrow> row_kept d row d2"
  "stmt_update_collected i t t' d1 = Inr d2 \<Longrightarrow> row_kept d row d1 \<Longrightarrow> row_kept d row d2"
proof -
  show "stmt_insert_source cs d1 = Inr d2 \<Longrightarrow> row_kept d row d1 \<Longrightarrow> row_kept d row d2"
    by (auto simp: stmt_insert_source_def row_kept_def source_ids_def split: if_splits)
  show "stmt_update_source i n cf en t d1 = Inr d2 \<Longrightarrow> row_kept d row d1 \<Longrightarrow> row_kept d row d2"
    by (erule row_kept_updated [where P = "\<lambda>s. cs_id s = i" and
        f = "\<lambda>s. s\<lparr>cs_name := n, cs_config := cf, cs_enabled := en, cs_updated := t\<rparr>"]) (auto simp: stmt_update_source_def)
  show "stmt_update_collected i t t' d1 = Inr d2 \<Longrightarrow> row_kept d row d1 \<Longrightarrow> row_kept d row d2"
    by (erule row_kept_updated [where P = "\<lambda>s. cs_id s = i" and
        f = "\<lambda>s. s\<lparr>cs_collected := Some t, cs_updated := t'\<rparr>"]) (auto simp: stmt_update_collected_def)
qed

lemma delete_row_kept:
  assumes "row_kept d row d1"
  shows "stmt_delete_source i d1 = Inr d2 \<Longrightarrow> i \<noteq> cr_source row \<Longrightarrow> row_kept d row d2"
    and "stmt_delete_project i d1 = Inr d2 \<Longrightarrow> spares d row (OpDeleteProject i) \<Longrightarrow> row_kept d row d2"
proof -
  have keep: "row_kept d row (cascade_sources gone d')" if "row_kept d row d'" "cr_source row \<notin> set gone" for gone d'
    using that by (auto simp: row_kept_def source_ids_def cascade_sources_def set_delete_rows)
  show "stmt_delete_source i d1 = Inr d2 \<Longrightarrow> i \<noteq> cr_source row \<Longrightarrow> row_kept d row d2"
    using assms keep by (auto simp: stmt_delete_source_def split: if_splits)
  show "row_kept d row d2" if "stmt_delete_project i d1 = Inr d2" "spares d row (OpDeleteProject i)"
  proof (cases "i \<in> project_ids d1")
    case True
    let ?d = "drop_project i d1"
    have "cr_source row \<notin> set (sources_of i d1)"
      using assms that(2) by (auto simp: sources_of_set row_kept_def spares_def list_all_iff)
    moreover have "row_kept d row ?d"
      using assms that(2) by (auto simp: row_kept_def drop_project_def spares_def source_ids_def set_delete_rows)
    ultimately have "row_kept d row (cascade_sources (sources_of i d1) ?d)" by (intro keep)
    with True that(1) show ?thesis by (simp add: stmt_delete_project_def drop_project_def)
  next
    case False
    with that(1) assms show ?thesis by (simp add: stmt_delete_project_def)
  qed
qed

lemma exec_row_kept:
  assumes "row_kept d row (w_db w)" and "\<And>d1 d2. stmt d1 = Inr d2 \<Longrightarrow> row_kept d row d1 \<Longrightarrow> row_kept d row d2"
  shows "row_kept d row (w_db (snd (exec e stmt w)))"
  using exec_db [of e stmt w] assms by auto

lemmas exec_stmt_kept = stmt_sources_kept [THEN exec_row_kept [rotated]] stmt_source_kept [THEN exec_row_kept [rotated]]

lemma step_row_kept:
  assumes "row_kept d row (w_db w)" and "spares d row op"
  shows "row_kept d row (w_db (store_step e op w))"
proof (cases op)
  case (OpDeleteProject i)
  with assms show ?thesis
    by (auto simp: DeleteProject_def intro: exec_row_kept delete_row_kept(2))
next
  case (OpDeleteCostSource i)
  with assms show ?thesis
    by (auto simp: DeleteCostSource_def spares_def intro: exec_row_kept delete_row_kept(1))
next
  case (OpInsertCostRecords rs)
  show ?thesis
  proof (cases "InsertCostRecords e rs w")
    case (Pair r w')
    with assms(1) OpInsertCostRecords show ?thesis
      by (cases r) (auto dest: InsertCostRecords_Inl elim!: InsertCostRecords_Inr dest!: insert_loop_rows elim: row_kept_same)
  qed
qed (use assms in \<open>simp_all add: write_defs Let_def case_prod_beta exec_stmt_kept\<close>)

lemma run_row_kept:
  "row_kept d row (w_db w) \<Longrightarrow> list_all (spares d row) ops \<Longrightarrow> row_kept d row (w_db (store_run e ops w))"
  unfolding store_run_def by (induction ops arbitrary: w) (simp_all add: step_row_kept)

text \<open>
  C26: a record that was inserted is returned by every later query without paging whose conditions it meets, whatever
  operations of the store come between, as long as none of them deletes its project, its cost source or the project of
  its cost source. It comes back with the values it was inserted with as the columns of the database keep them (which
  have to keep the order of times, as SQLite and PostgreSQL do), and with its labels, except that an empty label map comes
  back as the nil map.
\<close>

theorem inserted_record_is_found:
  assumes "InsertCostRecords e rs w = (Inr u, w1)" and "list_all labels_ok rs"
    and "r \<in> set rs" and "list_all (spares (w_db w1) r) ops"
    and "QueryCostRecords e q (store_run e ops w1) = (Inr out, w2)" and "q_limit q \<le> 0" and "q_offset q \<le> 0"
    and "\<forall>c \<in> set (cost_conditions q). cond_holds c r" and "mono (e_time e)"
  shows "\<exists>r' \<in> set out. r' = (keep_record e r)\<lparr>cr_id := cr_id r',
      cr_labels := (if cr_labels r = Some [] then None else cr_labels r),
      cr_labels_json := marshal_labels (cr_labels r)\<rparr>"
proof -
  obtain w3 w4 where loop: "insert_records_loop e rs (w_db w) w3 = (Inr (w_db w1), w4)"
    using assms(1) by (rule InsertCostRecords_Inr)
  then obtain rows where rows: "list_all2 (stored_as e) rs rows"
    and db: "w_db w1 = (w_db w)\<lparr>t_records := t_records (w_db w) @ rows\<rparr>"
    using insert_loop_rows by blast
  note srcs = insert_loop_sources [OF loop db]
  obtain row where row: "row \<in> set rows" "stored_as e r row"
    using list_all2_mem [OF rows assms(3)] by blast
  obtain i where shape: "row = (keep_record e r)\<lparr>cr_id := i, cr_labels := None, cr_labels_json := marshal_labels (cr_labels r)\<rparr>"
    using row(2) unfolding stored_as_def by blast
  have "row_kept (w_db w1) row (w_db w1)"
    using row(1) srcs db by (auto simp: row_kept_def source_ids_def)
  moreover have "list_all (spares (w_db w1) row) ops"
    using assms(4) shape by (simp add: spares_def [abs_def] list_all_iff)
  ultimately have "row \<in> set (t_records (w_db (store_run e ops w1)))"
    using run_row_kept by (auto simp: row_kept_def)
  then have "row \<in> set (where_rows e q (w_db (store_run e ops w1)))"
    using cond_holds_stored [OF row(2) assms(9)] assms(8) by (simp add: where_rows_def)
  with QueryCostRecords_Inr(1) [OF assms(5)] assms(6,7)
  have found: "if cr_labels_json row = JObj [] then row \<in> set out
    else \<exists>m. unmarshal_labels (cr_labels_json row) = Some m \<and> row\<lparr>cr_labels := m\<rparr> \<in> set out"
    by (intro scan_records_mem [where rows = "sort_key (\<lambda>r. - cr_start r) (where_rows e q (w_db (store_run e ops w1)))"])
      simp_all
  have ok: "labels_ok r" using assms(2,3) by (simp add: list_all_iff)
  show ?thesis
  proof (cases "cr_labels r")
    case None
    with found shape show ?thesis by (intro bexI [where x = row]) (simp_all add: marshal_labels_def)
  next
    case (Some kvs)
    have decoded: "unmarshal_labels (marshal_labels (cr_labels r)) = Some (Some kvs)"
      using ok Some by (simp add: labels_ok_def unmarshal_marshal_labels)
    show ?thesis
    proof (cases kvs)
      case Nil
      with Some found shape show ?thesis
        by (intro bexI [where x = row]) (simp_all add: marshal_labels_def)
    next
      case (Cons kv kvs')
      have "marshal_labels (cr_labels r) \<noteq> JObj []"
        using Some Cons by (simp add: marshal_labels_def)
      with found decoded shape have "row\<lparr>cr_labels := Some kvs\<rparr> \<in> set out" by simp
      with Some Cons shape show ?thesis by (intro bexI [where x = "row\<lparr>cr_labels := Some kvs\<rparr>"]) simp_all
    qed
  qed
qed

definition all_query :: cost_query where
  "all_query = \<lparr>q_project = '''', q_source = '''', q_provider = '''', q_service = '''',
     q_start = 0, q_end = 0, q_group_by = '''', q_limit = 0, q_offset = 0\<rparr>"

definition labelled_record :: cost_record where
  "labelled_record = sample_record\<lparr>cr_id := ''r2'', cr_labels := Some [(''team'', ''core'')]\<rparr>"

lemma labelled_stored:
  "InsertCostRecords sample_env [labelled_record] sample_world
     = (Inr (), snd (InsertCostRecords sample_env [labelled_record] sample_world))"
  by (simp add: InsertCostRecords_def stmt_insert_record_def id_sets labelled_record_def sample_defs)

lemma labelled_query:
  "\<exists>out w2. QueryCostRecords sample_env all_query
     (snd (InsertCostRecords sample_env [labelled_record] sample_world)) = (Inr out, w2)"
  by (simp add: InsertCostRecords_def QueryCostRecords_def stmt_insert_record_def id_sets where_rows_def
      cost_conditions_def labelled_record_def marshal_labels_def all_query_def IsZero_def sample_defs)

theorem inserted_record_is_found_witness:
  "\<exists>out. (\<exists>w2. QueryCostRecords sample_env all_query
       (snd (InsertCostRecords sample_env [labelled_record] sample_world)) = (Inr out, w2))
     \<and> (\<exists>r' \<in> set out. cr_labels r' = Some [(''team'', ''core'')])"
proof -
  obtain out w2 where q: "QueryCostRecords sample_env all_query
       (snd (InsertCostRecords sample_env [labelled_record] sample_world)) = (Inr out, w2)"
    using labelled_query by blast
  have run: "QueryCostRecords sample_env all_query (store_run sample_env []
       (snd (InsertCostRecords sample_env [labelled_record] sample_world))) = (Inr out, w2)"
    using q by (simp add: store_run_def)
  have "\<exists>r' \<in> set out. r' = (keep_record sample_env labelled_record)\<lparr>cr_id := cr_id r',
      cr_labels := (if cr_labels labelled_record = Some [] then None else cr_labels labelled_record),
      cr_labels_json := marshal_labels (cr_labels labelled_record)\<rparr>"
    by (rule inserted_record_is_found [OF labelled_stored _ _ _ run])
      (simp_all add: labels_ok_def labelled_record_def all_query_def cost_conditions_def IsZero_def sample_env_def mono_def)
  then have "\<exists>r' \<in> set out. r' = labelled_record\<lparr>cr_id := cr_id r',
      cr_labels := (if cr_labels labelled_record = Some [] then None else cr_labels labelled_record),
      cr_labels_json := marshal_labels (cr_labels labelled_record)\<rparr>" by simp
  then obtain r' where mem: "r' \<in> set out" and eq: "r' = labelled_record\<lparr>cr_id := cr_id r',
      cr_labels := (if cr_labels labelled_record = Some [] then None else cr_labels labelled_record),
      cr_labels_json := marshal_labels (cr_labels labelled_record)\<rparr>" by blast
  have "cr_labels r' = cr_labels (labelled_record\<lparr>cr_id := cr_id r',
      cr_labels := (if cr_labels labelled_record = Some [] then None else cr_labels labelled_record),
      cr_labels_json := marshal_labels (cr_labels labelled_record)\<rparr>)"
    by (rule arg_cong [OF eq])
  then have "cr_labels r' = Some [(''team'', ''core'')]" by (simp add: labelled_record_def)
  with q mem show ?thesis by blast
qed

subsection \<open>Order, conditions, paging\<close>

lemma page_sub: "set (page limit offset rows) \<subseteq> set rows"
  by (auto simp: page_def Let_def dest: in_set_takeD in_set_dropD)

lemma page_sorted: "sorted_wrt P rows \<Longrightarrow> sorted_wrt P (page limit offset rows)"
  by (auto simp: page_def Let_def sorted_wrt_take sorted_wrt_drop)

lemma page_length: "0 < limit \<Longrightarrow> int (length (page limit offset rows)) \<le> limit"
  by (auto simp: page_def Let_def)

lemma sorted_by_start:
  "sorted_wrt (\<lambda>a b. cr_start b \<le> cr_start a) (sort_key (\<lambda>r. - cr_start r) rows)"
  using sorted_sort_key [of "\<lambda>r. - cr_start r" rows] by (simp add: sorted_map)

lemma labels_only:
  assumes "list_all2 (\<lambda>row r. \<exists>m. r = row\<lparr>cr_labels := m\<rparr>) rows out"
  shows "map cr_id out = map cr_id rows" and "map cr_start out = map cr_start rows"
    and "length out = length rows"
  using assms by (induction rows out rule: list_all2_induct) auto

text \<open>
  a successful query returns records that are in the table and meet every condition of the
  query, newest start first, at most as many as its limit, and changes nothing.
\<close>

theorem query_records_spec:
  assumes "QueryCostRecords e q w = (Inr out, w')"
  shows "sorted_wrt (\<lambda>a b. cr_start b \<le> cr_start a) out
    \<and> (\<forall>r \<in> set out. cr_id r \<in> cr_id ` set (t_records (w_db w))
          \<and> (\<forall>c \<in> set (cost_conditions q). cond_holds (keep_cond e c) r))
    \<and> (0 < q_limit q \<longrightarrow> int (length out) \<le> q_limit q)
    \<and> w_db w' = w_db w"
proof -
  let ?sorted = "sort_key (\<lambda>r. - cr_start r) (where_rows e q (w_db w))"
  let ?rows = "page (q_limit q) (q_offset q) ?sorted"
  have scan: "list_all2 (\<lambda>row r. \<exists>m. r = row\<lparr>cr_labels := m\<rparr>) ?rows out"
    using QueryCostRecords_Inr(1) [OF assms] by (rule scan_records_rows)
  note maps = labels_only [OF scan]
  have "sorted_wrt (\<lambda>a b. b \<le> a) (map cr_start ?rows)"
    using page_sorted [OF sorted_by_start] by (simp add: sorted_wrt_map)
  then have "sorted_wrt (\<lambda>a b. b \<le> a) (map cr_start out)"
    using maps(2) by simp
  moreover have "cr_id r \<in> cr_id ` set (t_records (w_db w))
          \<and> (\<forall>c \<in> set (cost_conditions q). cond_holds (keep_cond e c) r)" if r: "r \<in> set out" for r
  proof -
    have "list_all2 (\<lambda>r row. \<exists>m. r = row\<lparr>cr_labels := m\<rparr>) out ?rows"
      using scan by (simp add: list_all2_conv_all_nth)
    from list_all2_mem [OF this r] obtain row m where row: "row \<in> set ?rows" "r = row\<lparr>cr_labels := m\<rparr>"
      by blast
    then have "row \<in> set (where_rows e q (w_db w))"
      using page_sub [of "q_limit q" "q_offset q" ?sorted] by auto
    with row(2) show ?thesis by (auto simp: where_rows_def)
  qed
  moreover have "0 < q_limit q \<longrightarrow> int (length out) \<le> q_limit q"
    using maps(3) page_length [of "q_limit q" "q_offset q" ?sorted] by simp
  ultimately show ?thesis
    using QueryCostRecords_Inr(2) [OF assms] by (simp add: sorted_wrt_map)
qed

lemma sample_query:
  "QueryCostRecords sample_env all_query sample_world
    = (Inr [sample_record], snd (QueryCostRecords sample_env all_query sample_world))"
  by (simp add: QueryCostRecords_def where_rows_def cost_conditions_def all_query_def IsZero_def
      page_def sample_defs)

theorem query_records_spec_witness:
  "\<exists>out w'. QueryCostRecords sample_env all_query sample_world = (Inr out, w')
     \<and> sample_record \<in> set out \<and> sorted_wrt (\<lambda>a b. cr_start b \<le> cr_start a) out"
  using query_records_spec [OF sample_query] sample_query by (metis list.set_intros(1))

text \<open>
  the record count of the aggregate over a query's conditions is the number of records the
  query without paging returns, and a total over no record is zero whatever the engine's sum.
\<close>

theorem aggregate_counts_query:
  assumes "QueryCostRecords e q w = (Inr out, w1)" and "q_limit q \<le> 0" and "q_offset q \<le> 0"
    and "AggregateCosts e q w1 = (Inr s, w2)"
  shows "sum_count s = length out
    \<and> (out = [] \<longrightarrow> sum_list_cost s = Fin 0 \<and> sum_net_cost s = Fin 0
         \<and> sum_amortized s = Fin 0 \<and> sum_amortized_net s = Fin 0)"
proof -
  have len: "length out = length (where_rows e q (w_db w))"
    using labels_only(3) [OF scan_records_rows [OF QueryCostRecords_Inr(1) [OF assms(1)]]] assms(2,3)
    by simp
  then have "out = [] \<longleftrightarrow> where_rows e q (w_db w) = []"
    by (metis length_0_conv)
  moreover have "w_db w1 = w_db w"
    using QueryCostRecords_Inr(2) [OF assms(1)] .
  ultimately show ?thesis
    using len query_rows_Inr [OF assms(4) [unfolded AggregateCosts_def]]
    by (simp add: Let_def coalesce_sum_def)
qed

theorem aggregate_counts_query_witness:
  "\<exists>s w2. AggregateCosts sample_env all_query
       (snd (QueryCostRecords sample_env all_query sample_world)) = (Inr s, w2) \<and> sum_count s = 1"
proof -
  let ?w1 = "snd (QueryCostRecords sample_env all_query sample_world)"
  obtain s w2 where a: "AggregateCosts sample_env all_query ?w1 = (Inr s, w2)"
    by (simp add: AggregateCosts_def query_rows_def driver_call_def sample_env_def)
  have "sum_count s = length [sample_record]"
    using aggregate_counts_query [OF sample_query _ _ a] by (simp add: all_query_def)
  with a show ?thesis by simp
qed

text \<open>SQLite rejects an offset without a limit, so such a query always fails there.\<close>

lemma sqlite_offset_rejected:
  "e_driver e \<noteq> ''pgx'' \<Longrightarrow> 0 < q_offset q \<Longrightarrow> q_limit q \<le> 0 \<Longrightarrow>
   fst (QueryCostRecords e q w) \<in> {Inl DriverError, Inl SyntaxError}"
  by (simp add: QueryCostRecords_def driver_call_def)

end
