(* ===== verification/Sql_Text.thy ===== *)
theory Sql_Text
  imports Connections Store_Laws
begin

text \<open>
  From the statement texts of \<open>internal/store/sql.go\<close> to the tables. \<open>Store\<close> speaks of typed tables; the program sends
  texts with arguments. Here a reader of the part of SQL the store
  uses takes a text, as the pieces of \<open>Connections\<close>, to a statement on tables of named columns, where the columns of
  a table are those of \<open>migrations/000001_init.up.sql\<close>; the argument lists are those of the code.

  Lemmas: what a text with its arguments does to the named columns is what the statement of \<open>Database\<close> does to the
  typed table (keys and foreign keys are its matter alone), on both database systems. \<open>Scans\<close> has the reading side.
\<close>

section \<open>Values, rows, tables\<close>

datatype sql_value = VNull | VText string | VTime time | VReal float64 | VBool bool | VJson json | VInt nat

type_synonym named_row = "(string \<times> sql_value) list"
type_synonym named_tables = "string \<Rightarrow> named_row list"

text \<open>The columns of the schema, by table, and the columns of its primary key.\<close>

definition schema_columns :: "string \<Rightarrow> string list" where
  "schema_columns t =
     (if t = ''projects'' then [''id'', ''name'', ''description'', ''created_at'', ''updated_at'']
      else if t = ''cost_sources'' then [''id'', ''project_id'', ''type'', ''name'', ''config_json'', ''enabled'',
        ''last_collected_at'', ''created_at'', ''updated_at'']
      else if t = ''users'' then [''id'', ''email'', ''display_name'', ''oidc_subject'', ''created_at'']
      else if t = ''groups'' then [''id'', ''name'', ''oidc_claim'', ''created_at'']
      else if t = ''group_members'' then [''group_id'', ''user_id'']
      else if t = ''project_roles'' then [''project_id'', ''subject_type'', ''subject_id'', ''role'']
      else if t = ''budgets'' then [''id'', ''project_id'', ''cost_source_id'', ''monthly_limit'', ''warn_threshold'',
        ''created_at'', ''updated_at'']
      else if t = ''cost_records'' then [''id'', ''project_id'', ''cost_source_id'', ''provider'', ''provider_id'',
        ''account_id'', ''account_name'', ''invoice_entity_id'', ''service'', ''category'', ''region'',
        ''availability_zone'', ''start_time'', ''end_time'', ''list_cost'', ''net_cost'', ''amortized_cost'',
        ''amortized_net_cost'', ''currency'', ''labels_json'', ''kubernetes_percent'']
      else [])"

definition schema_key :: "string \<Rightarrow> string list" where
  "schema_key t =
     (if t = ''group_members'' then [''group_id'', ''user_id'']
      else if t = ''project_roles'' then [''project_id'', ''subject_type'', ''subject_id'']
      else [''id''])"

section \<open>Reading a text\<close>

datatype token = Name string | Sym char | Arg nat | Quoted string

definition flush :: "string \<Rightarrow> token list" where
  "flush w = (if w = [] then [] else [Name (rev w)])"

text \<open>\<open>toks inQuote w ps\<close>: \<open>w\<close> is the word, or the quoted text, read so far, backwards.\<close>

fun toks :: "bool \<Rightarrow> string \<Rightarrow> piece list \<Rightarrow> token list" where
  "toks False w [] = flush w"
| "toks False w (Hole n # ps) = flush w @ Arg n # toks False [] ps"
| "toks False w (Letter ch # ps) =
     (if ch = CHR '' '' then flush w @ toks False [] ps
      else if ch = CHR 0x27 then flush w @ toks True [] ps
      else if ch \<in> {CHR ''('', CHR '')'', CHR '','', CHR ''=''} then flush w @ Sym ch # toks False [] ps
      else toks False (ch # w) ps)"
| "toks True w [] = [Quoted (rev w)]"
| "toks True w (Hole n # ps) = toks True w ps"
| "toks True w (Letter ch # ps) =
     (if ch = CHR 0x27 then Quoted (rev w) # toks False [] ps else toks True (ch # w) ps)"

datatype operand = ArgOp nat | TextOp string

datatype conflict = Reject | Ignore | Overwrite "string list" "string list"

text \<open>
  A statement: its table, and columns paired with the positions of their arguments; a SELECT with its columns, its
  conditions and the column it is ordered by.
\<close>

datatype sql =
    Insert string "(string \<times> nat) list" conflict
  | Update string "(string \<times> nat) list" "(string \<times> operand) list"
  | Delete string "(string \<times> operand) list"
  | Select "string list" string "(string \<times> operand) list" "string option"

text \<open>Parts of a token list: between the separators, up to a closing parenthesis, and after it.\<close>

fun split_on :: "'a \<Rightarrow> 'a list \<Rightarrow> 'a list list" where
  "split_on x [] = [[]]"
| "split_on x (y # ys) =
     (if y = x then [] # split_on x ys
      else (case split_on x ys of [] \<Rightarrow> [[y]] | z # zs \<Rightarrow> (y # z) # zs))"

definition items :: "token \<Rightarrow> (token list \<Rightarrow> 'a option) \<Rightarrow> token list \<Rightarrow> 'a list option" where
  "items sep item ts = those (map item (split_on sep ts))"

definition inside :: "token list \<Rightarrow> token list" where
  "inside ts = takeWhile (\<lambda>x. x \<noteq> Sym CHR '')'') ts"

definition beyond :: "token list \<Rightarrow> token list" where
  "beyond ts = tl (dropWhile (\<lambda>x. x \<noteq> Sym CHR '')'') ts)"

definition name_item :: "token list \<Rightarrow> string option" where
  "name_item ts = (case ts of [Name c] \<Rightarrow> Some c | _ \<Rightarrow> None)"

definition arg_item :: "token list \<Rightarrow> nat option" where
  "arg_item ts = (case ts of [Arg n] \<Rightarrow> Some n | _ \<Rightarrow> None)"

definition set_item :: "token list \<Rightarrow> (string \<times> nat) option" where
  "set_item ts = (case ts of [Name c, e, Arg n] \<Rightarrow> if e = Sym CHR ''='' then Some (c, n) else None | _ \<Rightarrow> None)"

definition excluded_item :: "token list \<Rightarrow> string option" where
  "excluded_item ts =
     (case ts of [Name c, e, v] \<Rightarrow> if e = Sym CHR ''='' \<and> v = Name (''excluded.'' @ c) then Some c else None | _ \<Rightarrow> None)"

definition cond_item :: "token list \<Rightarrow> (string \<times> operand) option" where
  "cond_item ts =
     (case ts of
        [Name c, e, v] \<Rightarrow>
          if e \<noteq> Sym CHR ''='' then None
          else (case v of Arg n \<Rightarrow> Some (c, ArgOp n) | Quoted q \<Rightarrow> Some (c, TextOp q) | _ \<Rightarrow> None)
      | _ \<Rightarrow> None)"

definition after_keyword :: "string list \<Rightarrow> token list \<Rightarrow> token list option" where
  "after_keyword ws ts = (if take (length ws) ts = map Name ws then Some (drop (length ws) ts) else None)"

definition parenthesis :: "token list \<Rightarrow> token list option" where
  "parenthesis ts = (if take 1 ts = [Sym CHR ''(''] then Some (drop 1 ts) else None)"

section \<open>The four kinds of statement\<close>

definition parse_conflict :: "bool \<Rightarrow> token list \<Rightarrow> conflict option" where
  "parse_conflict ignore ts =
     (if ts = [] then Some (if ignore then Ignore else Reject)
      else Option.bind (after_keyword [''ON'', ''CONFLICT''] ts) (\<lambda>ts.
           Option.bind (parenthesis ts) (\<lambda>ts.
           Option.bind (items (Sym CHR '','') name_item (inside ts)) (\<lambda>keys.
             if beyond ts = [Name ''DO'', Name ''NOTHING''] then Some Ignore
             else Option.bind (after_keyword [''DO'', ''UPDATE'', ''SET''] (beyond ts)) (\<lambda>ts.
                    map_option (Overwrite keys) (items (Sym CHR '','') excluded_item ts))))))"

definition parse_insert :: "bool \<Rightarrow> token list \<Rightarrow> sql option" where
  "parse_insert ignore ts =
     (case ts of
        Name t # ts \<Rightarrow>
          Option.bind (parenthesis ts) (\<lambda>ts.
          Option.bind (items (Sym CHR '','') name_item (inside ts)) (\<lambda>cols.
          Option.bind (after_keyword [''VALUES''] (beyond ts)) (\<lambda>ts.
          Option.bind (parenthesis ts) (\<lambda>ts.
          Option.bind (items (Sym CHR '','') arg_item (inside ts)) (\<lambda>args.
          Option.bind (parse_conflict ignore (beyond ts)) (\<lambda>cf.
            if length cols = length args then Some (Insert t (zip cols args) cf) else None))))))
      | _ \<Rightarrow> None)"

text \<open>\<open>WHERE\<close> and \<open>ORDER BY\<close>, either of which may be missing.\<close>

definition parse_where :: "token list \<Rightarrow> (string \<times> operand) list option" where
  "parse_where ts =
     (if ts = [] then Some []
      else Option.bind (after_keyword [''WHERE''] ts) (items (Name ''AND'') cond_item))"

definition parse_order :: "token list \<Rightarrow> string option option" where
  "parse_order ts =
     (if ts = [] then Some None
      else Option.bind (after_keyword [''ORDER'', ''BY''] ts) (\<lambda>ts. map_option Some (name_item ts)))"

definition parse_update :: "token list \<Rightarrow> sql option" where
  "parse_update ts =
     (case ts of
        Name t # ts \<Rightarrow>
          Option.bind (after_keyword [''SET''] ts) (\<lambda>ts.
          Option.bind (items (Sym CHR '','') set_item (takeWhile (\<lambda>x. x \<noteq> Name ''WHERE'') ts)) (\<lambda>sets.
            map_option (Update t sets) (parse_where (dropWhile (\<lambda>x. x \<noteq> Name ''WHERE'') ts))))
      | _ \<Rightarrow> None)"

definition parse_select :: "token list \<Rightarrow> sql option" where
  "parse_select ts =
     Option.bind (items (Sym CHR '','') name_item (takeWhile (\<lambda>x. x \<noteq> Name ''FROM'') ts)) (\<lambda>cols.
       case dropWhile (\<lambda>x. x \<noteq> Name ''FROM'') ts of
         _ # Name t # ts \<Rightarrow>
           Option.bind (parse_where (takeWhile (\<lambda>x. x \<noteq> Name ''ORDER'') ts)) (\<lambda>conds.
             map_option (Select cols t conds) (parse_order (dropWhile (\<lambda>x. x \<noteq> Name ''ORDER'') ts)))
       | _ \<Rightarrow> None)"

definition parse_sql :: "piece list \<Rightarrow> sql option" where
  "parse_sql ps =
     (let ts = toks False [] ps in
      case after_keyword [''INSERT'', ''INTO''] ts of
        Some ts \<Rightarrow> parse_insert False ts
      | None \<Rightarrow>
     (case after_keyword [''INSERT'', ''OR'', ''IGNORE'', ''INTO''] ts of
        Some ts \<Rightarrow> parse_insert True ts
      | None \<Rightarrow>
     (case after_keyword [''UPDATE''] ts of
        Some ts \<Rightarrow> parse_update ts
      | None \<Rightarrow>
     (case after_keyword [''DELETE'', ''FROM''] ts of
        Some (Name t # ts) \<Rightarrow> map_option (Delete t) (parse_where ts)
      | _ \<Rightarrow>
     (case after_keyword [''SELECT''] ts of
        Some ts \<Rightarrow> parse_select ts
      | None \<Rightarrow> None)))))"

section \<open>The texts of the store\<close>

definition add_member_text :: "string \<Rightarrow> string" where
  "add_member_text driver = (if driver = ''pgx'' then AddGroupMember_pgx else AddGroupMember_sqlite)"

abbreviation reads_as :: "string \<Rightarrow> sql \<Rightarrow> bool" where
  "reads_as s q \<equiv> parse_sql (read_holes False 0 s) = Some q"

lemma inserts_read:
  "reads_as CreateProject_sql
     (Insert ''projects'' [(''id'', 0), (''name'', 1), (''description'', 2), (''created_at'', 3), (''updated_at'', 4)] Reject)"
  "reads_as CreateCostSource_sql
     (Insert ''cost_sources'' [(''id'', 0), (''project_id'', 1), (''type'', 2), (''name'', 3), (''config_json'', 4), (''enabled'', 5), (''created_at'', 6), (''updated_at'', 7)] Reject)"
  "reads_as CreateUser_sql
     (Insert ''users'' [(''id'', 0), (''email'', 1), (''display_name'', 2), (''oidc_subject'', 3), (''created_at'', 4)] Reject)"
  "reads_as CreateGroup_sql
     (Insert ''groups'' [(''id'', 0), (''name'', 1), (''oidc_claim'', 2), (''created_at'', 3)] Reject)"
  "reads_as AddGroupMember_pgx
     (Insert ''group_members'' [(''group_id'', 0), (''user_id'', 1)] Ignore)"
  "reads_as AddGroupMember_sqlite
     (Insert ''group_members'' [(''group_id'', 0), (''user_id'', 1)] Ignore)"
  "reads_as SetProjectRole_sql
     (Insert ''project_roles'' [(''project_id'', 0), (''subject_type'', 1), (''subject_id'', 2), (''role'', 3)] (Overwrite [''project_id'', ''subject_type'', ''subject_id''] [''role'']))"
  "reads_as CreateBudget_sql
     (Insert ''budgets'' [(''id'', 0), (''project_id'', 1), (''cost_source_id'', 2), (''monthly_limit'', 3), (''warn_threshold'', 4), (''created_at'', 5), (''updated_at'', 6)] Reject)"
  "reads_as InsertCostRecords_sql
     (Insert ''cost_records'' [(''id'', 0), (''project_id'', 1), (''cost_source_id'', 2), (''provider'', 3), (''provider_id'', 4), (''account_id'', 5), (''account_name'', 6), (''invoice_entity_id'', 7), (''service'', 8), (''category'', 9), (''region'', 10), (''availability_zone'', 11), (''start_time'', 12), (''end_time'', 13), (''list_cost'', 14), (''net_cost'', 15), (''amortized_cost'', 16), (''amortized_net_cost'', 17), (''currency'', 18), (''labels_json'', 19), (''kubernetes_percent'', 20)] Reject)"
  by code_simp+

lemma updates_read:
  "reads_as UpdateProject_sql
     (Update ''projects'' [(''name'', 0), (''description'', 1), (''updated_at'', 2)] [(''id'', ArgOp 3)])"
  "reads_as UpdateCostSource_sql
     (Update ''cost_sources'' [(''name'', 0), (''config_json'', 1), (''enabled'', 2), (''updated_at'', 3)] [(''id'', ArgOp 4)])"
  "reads_as UpdateCostSourceCollectedAt_sql
     (Update ''cost_sources'' [(''last_collected_at'', 0), (''updated_at'', 1)] [(''id'', ArgOp 2)])"
  "reads_as UpdateBudget_sql
     (Update ''budgets'' [(''monthly_limit'', 0), (''warn_threshold'', 1), (''updated_at'', 2)] [(''id'', ArgOp 3)])"
  by code_simp+

lemma deletes_read:
  "reads_as DeleteProject_sql
     (Delete ''projects'' [(''id'', ArgOp 0)])"
  "reads_as DeleteCostSource_sql
     (Delete ''cost_sources'' [(''id'', ArgOp 0)])"
  "reads_as RemoveGroupMember_sql
     (Delete ''group_members'' [(''group_id'', ArgOp 0), (''user_id'', ArgOp 1)])"
  "reads_as RemoveProjectRole_sql
     (Delete ''project_roles'' [(''project_id'', ArgOp 0), (''subject_type'', ArgOp 1), (''subject_id'', ArgOp 2)])"
  "reads_as DeleteBudget_sql
     (Delete ''budgets'' [(''id'', ArgOp 0)])"
  by code_simp+

lemma selects_read:
  "reads_as GetProject_sql
     (Select [''id'', ''name'', ''description'', ''created_at'', ''updated_at''] ''projects'' [(''id'', ArgOp 0)] None)"
  "reads_as ListProjects_sql
     (Select [''id'', ''name'', ''description'', ''created_at'', ''updated_at''] ''projects'' [] (Some ''name''))"
  "reads_as GetCostSource_sql
     (Select [''id'', ''project_id'', ''type'', ''name'', ''config_json'', ''enabled'', ''last_collected_at'', ''created_at'', ''updated_at''] ''cost_sources'' [(''id'', ArgOp 0)] None)"
  "reads_as ListCostSources_sql
     (Select [''id'', ''project_id'', ''type'', ''name'', ''config_json'', ''enabled'', ''last_collected_at'', ''created_at'', ''updated_at''] ''cost_sources'' [(''project_id'', ArgOp 0)] (Some ''name''))"
  "reads_as GetUser_sql
     (Select [''id'', ''email'', ''display_name'', ''oidc_subject'', ''created_at''] ''users'' [(''id'', ArgOp 0)] None)"
  "reads_as GetUserByEmail_sql
     (Select [''id'', ''email'', ''display_name'', ''oidc_subject'', ''created_at''] ''users'' [(''email'', ArgOp 0)] None)"
  "reads_as GetUserByOIDCSubject_sql
     (Select [''id'', ''email'', ''display_name'', ''oidc_subject'', ''created_at''] ''users'' [(''oidc_subject'', ArgOp 0)] None)"
  "reads_as ListUsers_sql
     (Select [''id'', ''email'', ''display_name'', ''oidc_subject'', ''created_at''] ''users'' [] (Some ''email''))"
  "reads_as GetGroup_sql
     (Select [''id'', ''name'', ''oidc_claim'', ''created_at''] ''groups'' [(''id'', ArgOp 0)] None)"
  "reads_as GetGroupByOIDCClaim_sql
     (Select [''id'', ''name'', ''oidc_claim'', ''created_at''] ''groups'' [(''oidc_claim'', ArgOp 0)] None)"
  "reads_as ListGroups_sql
     (Select [''id'', ''name'', ''oidc_claim'', ''created_at''] ''groups'' [] (Some ''name''))"
  "reads_as ListProjectRoles_sql
     (Select [''project_id'', ''subject_type'', ''subject_id'', ''role''] ''project_roles'' [(''project_id'', ArgOp 0)] None)"
  "reads_as GetUserProjectRole_sql
     (Select [''project_id'', ''subject_type'', ''subject_id'', ''role''] ''project_roles'' [(''project_id'', ArgOp 0), (''subject_type'', TextOp ''user''), (''subject_id'', ArgOp 1)] None)"
  "reads_as GetBudget_sql
     (Select [''id'', ''project_id'', ''cost_source_id'', ''monthly_limit'', ''warn_threshold'', ''created_at'', ''updated_at''] ''budgets'' [(''id'', ArgOp 0)] None)"
  "reads_as ListBudgets_sql
     (Select [''id'', ''project_id'', ''cost_source_id'', ''monthly_limit'', ''warn_threshold'', ''created_at'', ''updated_at''] ''budgets'' [(''project_id'', ArgOp 0)] None)"
  by code_simp+

section \<open>Statements on named columns\<close>

definition column :: "named_row \<Rightarrow> string \<Rightarrow> sql_value" where
  "column r c = (case map_of r c of None \<Rightarrow> VNull | Some v \<Rightarrow> v)"

definition operand_value :: "sql_value list \<Rightarrow> operand \<Rightarrow> sql_value" where
  "operand_value args x = (case x of ArgOp n \<Rightarrow> args ! n | TextOp s \<Rightarrow> VText s)"

text \<open>
  What a column keeps of a value: a \<open>TIMESTAMP\<close> column of a time, and a \<open>REAL\<close> column of a number, what the database
  system at hand keeps of it (\<open>e_time\<close>, \<open>e_real\<close>). An argument that is compared with a column is of the column's type.
\<close>

definition timestamp_columns :: "string list" where
  "timestamp_columns = [''created_at'', ''updated_at'', ''last_collected_at'', ''start_time'', ''end_time'']"

definition real_columns :: "string list" where
  "real_columns = [''monthly_limit'', ''warn_threshold'', ''list_cost'', ''net_cost'', ''amortized_cost'',
     ''amortized_net_cost'', ''kubernetes_percent'']"

definition column_keeps :: "env \<Rightarrow> string \<Rightarrow> sql_value \<Rightarrow> sql_value" where
  "column_keeps e c v =
     (case v of
        VTime t \<Rightarrow> if List.member timestamp_columns c then VTime (e_time e t) else v
      | VReal x \<Rightarrow> if List.member real_columns c then VReal (e_real e x) else v
      | _ \<Rightarrow> v)"

text \<open>A comparison with NULL on either side is not true.\<close>

definition holds_for :: "env \<Rightarrow> sql_value list \<Rightarrow> (string \<times> operand) list \<Rightarrow> named_row \<Rightarrow> bool" where
  "holds_for e args conds r =
     list_all (\<lambda>(c, x). column r c = column_keeps e c (operand_value args x) \<and> column r c \<noteq> VNull) conds"

definition set_columns :: "(string \<times> sql_value) list \<Rightarrow> named_row \<Rightarrow> named_row" where
  "set_columns new r = map (\<lambda>(c, v). (c, case map_of new c of None \<Rightarrow> v | Some v' \<Rightarrow> v')) r"

text \<open>A new row has NULL in the columns the statement does not name (the only one is \<open>last_collected_at\<close>).\<close>

definition new_row :: "string \<Rightarrow> (string \<times> sql_value) list \<Rightarrow> named_row" where
  "new_row t new = map (\<lambda>c. (c, column new c)) (schema_columns t)"

definition same_columns :: "string list \<Rightarrow> named_row \<Rightarrow> named_row \<Rightarrow> bool" where
  "same_columns cs r r' = list_all (\<lambda>c. column r c = column r' c) cs"

fun add_row :: "string \<Rightarrow> conflict \<Rightarrow> named_row \<Rightarrow> named_row list \<Rightarrow> named_row list" where
  "add_row t Reject r rows = rows @ [r]"
| "add_row t Ignore r rows = (if list_ex (same_columns (schema_key t) r) rows then rows else rows @ [r])"
| "add_row t (Overwrite key sets) r rows =
     (if list_ex (same_columns key r) rows
      then map (\<lambda>r'. if same_columns key r r' then set_columns (map (\<lambda>c. (c, column r c)) sets) r' else r') rows
      else rows @ [r])"

definition given :: "env \<Rightarrow> sql_value list \<Rightarrow> (string \<times> nat) list \<Rightarrow> (string \<times> sql_value) list" where
  "given e args cs = map (\<lambda>(c, n). (c, column_keeps e c (args ! n))) cs"

fun run_sql :: "env \<Rightarrow> sql \<Rightarrow> sql_value list \<Rightarrow> named_tables \<Rightarrow> named_tables" where
  "run_sql e (Insert t cs cf) args g = g(t := add_row t cf (new_row t (given e args cs)) (g t))"
| "run_sql e (Update t cs conds) args g =
     g(t := map (\<lambda>r. if holds_for e args conds r then set_columns (given e args cs) r else r) (g t))"
| "run_sql e (Delete t conds) args g = g(t := filter (\<lambda>r. \<not> holds_for e args conds r) (g t))"
| "run_sql e (Select cs t conds order) args g = g"

text \<open>What a SELECT returns, as lists of values in the order of its columns.\<close>

definition by_column :: "(string \<Rightarrow> string \<Rightarrow> bool) \<Rightarrow> string option \<Rightarrow> named_row list \<Rightarrow> named_row list" where
  "by_column collate order rows =
     (case order of
        None \<Rightarrow> rows
      | Some c \<Rightarrow> sort_by (\<lambda>r r'. case (column r c, column r' c) of (VText a, VText b) \<Rightarrow> collate a b | _ \<Rightarrow> True) rows)"

fun select_sql :: "env \<Rightarrow> sql \<Rightarrow> sql_value list \<Rightarrow> named_tables \<Rightarrow> sql_value list list" where
  "select_sql e (Select cs t conds order) args g =
     map (\<lambda>r. map (column r) cs) (by_column (e_collate e) order (filter (holds_for e args conds) (g t)))"
| "select_sql e _ args g = []"

section \<open>The typed tables as named ones\<close>

definition or_null :: "('a \<Rightarrow> sql_value) \<Rightarrow> 'a option \<Rightarrow> sql_value" where
  "or_null f x = (case x of None \<Rightarrow> VNull | Some y \<Rightarrow> f y)"

definition project_row :: "project \<Rightarrow> named_row" where
  "project_row p = zip (schema_columns ''projects'')
     [VText (p_id p), VText (p_name p), VText (p_description p), VTime (p_created p), VTime (p_updated p)]"

definition source_row :: "cost_source \<Rightarrow> named_row" where
  "source_row s = zip (schema_columns ''cost_sources'')
     [VText (cs_id s), VText (cs_project s), VText (cs_type s), VText (cs_name s), or_null VJson (cs_config s),
      VBool (cs_enabled s), or_null VTime (cs_collected s), VTime (cs_created s), VTime (cs_updated s)]"

definition account_row :: "user_row \<Rightarrow> named_row" where
  "account_row u = zip (schema_columns ''users'')
     [VText (ur_id u), VText (ur_email u), VText (ur_display u), or_null VText (ur_subject u), VTime (ur_created u)]"

definition grouping_row :: "group_row \<Rightarrow> named_row" where
  "grouping_row g = zip (schema_columns ''groups'')
     [VText (gr_id g), VText (gr_name g), or_null VText (gr_claim g), VTime (gr_created g)]"

definition member_row :: "string \<times> string \<Rightarrow> named_row" where
  "member_row m = zip (schema_columns ''group_members'') [VText (fst m), VText (snd m)]"

definition role_row :: "project_role \<Rightarrow> named_row" where
  "role_row r = zip (schema_columns ''project_roles'')
     [VText (pr_project r), VText (pr_subject_type r), VText (pr_subject r), VText (pr_role r)]"

definition budget_row :: "budget \<Rightarrow> named_row" where
  "budget_row b = zip (schema_columns ''budgets'')
     [VText (b_id b), VText (b_project b), or_null VText (b_cost_source b), VReal (b_limit b), VReal (b_warn b),
      VTime (b_created b), VTime (b_updated b)]"

definition record_row :: "cost_record \<Rightarrow> named_row" where
  "record_row r = zip (schema_columns ''cost_records'')
     [VText (cr_id r), VText (cr_project r), VText (cr_source r), VText (cr_provider r), VText (cr_provider_id r),
      VText (cr_account_id r), VText (cr_account_name r), VText (cr_invoice r), VText (cr_service r),
      VText (cr_category r), VText (cr_region r), VText (cr_zone r), VTime (cr_start r), VTime (cr_end r),
      VReal (cr_list r), VReal (cr_net r), VReal (cr_amortized r), VReal (cr_amortized_net r), VText (cr_currency r),
      VJson (cr_labels_json r), VReal (cr_k8s_percent r)]"

lemmas row_defs = project_row_def source_row_def account_row_def grouping_row_def member_row_def role_row_def
  budget_row_def record_row_def

definition named :: "tables \<Rightarrow> named_tables" where
  "named d = (\<lambda>_. [])
     (''projects'' := map project_row (t_projects d), ''cost_sources'' := map source_row (t_sources d),
      ''users'' := map account_row (t_users d), ''groups'' := map grouping_row (t_groups d),
      ''group_members'' := map member_row (t_members d), ''project_roles'' := map role_row (t_roles d),
      ''budgets'' := map budget_row (t_budgets d), ''cost_records'' := map record_row (t_records d))"

section \<open>The writing calls\<close>

text \<open>
  What the writing methods send, with the identifiers and time stamps they have filled in; \<open>Send_InsertCostRecords\<close> is
  one record of the loop.
\<close>

datatype sending =
    Send_CreateProject project | Send_UpdateProject project | Send_DeleteProject string
  | Send_CreateCostSource cost_source | Send_UpdateCostSource cost_source | Send_DeleteCostSource string
  | Send_CollectedAt string time time
  | Send_CreateUser user | Send_CreateGroup group
  | Send_AddGroupMember string string | Send_RemoveGroupMember string string
  | Send_SetProjectRole project_role | Send_RemoveProjectRole string subject_type string
  | Send_CreateBudget budget | Send_UpdateBudget budget | Send_DeleteBudget string
  | Send_InsertCostRecords cost_record

fun sent_text :: "string \<Rightarrow> sending \<Rightarrow> string" where
  "sent_text driver (Send_CreateProject p) = CreateProject_sql"
| "sent_text driver (Send_UpdateProject p) = UpdateProject_sql"
| "sent_text driver (Send_DeleteProject i) = DeleteProject_sql"
| "sent_text driver (Send_CreateCostSource cs) = CreateCostSource_sql"
| "sent_text driver (Send_UpdateCostSource cs) = UpdateCostSource_sql"
| "sent_text driver (Send_DeleteCostSource i) = DeleteCostSource_sql"
| "sent_text driver (Send_CollectedAt i t t') = UpdateCostSourceCollectedAt_sql"
| "sent_text driver (Send_CreateUser u) = CreateUser_sql"
| "sent_text driver (Send_CreateGroup g) = CreateGroup_sql"
| "sent_text driver (Send_AddGroupMember g u) = add_member_text driver"
| "sent_text driver (Send_RemoveGroupMember g u) = RemoveGroupMember_sql"
| "sent_text driver (Send_SetProjectRole pr) = SetProjectRole_sql"
| "sent_text driver (Send_RemoveProjectRole p st s) = RemoveProjectRole_sql"
| "sent_text driver (Send_CreateBudget b) = CreateBudget_sql"
| "sent_text driver (Send_UpdateBudget b) = UpdateBudget_sql"
| "sent_text driver (Send_DeleteBudget i) = DeleteBudget_sql"
| "sent_text driver (Send_InsertCostRecords r) = InsertCostRecords_sql"

fun sent_args :: "sending \<Rightarrow> sql_value list" where
  "sent_args (Send_CreateProject p) =
     [VText (p_id p), VText (p_name p), VText (p_description p), VTime (p_created p), VTime (p_updated p)]"
| "sent_args (Send_UpdateProject p) = [VText (p_name p), VText (p_description p), VTime (p_updated p), VText (p_id p)]"
| "sent_args (Send_DeleteProject i) = [VText i]"
| "sent_args (Send_CreateCostSource cs) =
     [VText (cs_id cs), VText (cs_project cs), VText (cs_type cs), VText (cs_name cs), VJson (config_json (cs_config cs)),
      VBool (cs_enabled cs), VTime (cs_created cs), VTime (cs_updated cs)]"
| "sent_args (Send_UpdateCostSource cs) =
     [VText (cs_name cs), VJson (config_json (cs_config cs)), VBool (cs_enabled cs), VTime (cs_updated cs), VText (cs_id cs)]"
| "sent_args (Send_DeleteCostSource i) = [VText i]"
| "sent_args (Send_CollectedAt i t t') = [VTime t, VTime t', VText i]"
| "sent_args (Send_CreateUser u) =
     [VText (u_id u), VText (u_email u), VText (u_display u), or_null VText (nullString (u_subject u)), VTime (u_created u)]"
| "sent_args (Send_CreateGroup g) =
     [VText (g_id g), VText (g_name g), or_null VText (nullString (g_claim g)), VTime (g_created g)]"
| "sent_args (Send_AddGroupMember g u) = [VText g, VText u]"
| "sent_args (Send_RemoveGroupMember g u) = [VText g, VText u]"
| "sent_args (Send_SetProjectRole pr) =
     [VText (pr_project pr), VText (pr_subject_type pr), VText (pr_subject pr), VText (pr_role pr)]"
| "sent_args (Send_RemoveProjectRole p st s) = [VText p, VText st, VText s]"
| "sent_args (Send_CreateBudget b) =
     [VText (b_id b), VText (b_project b), or_null VText (b_cost_source b), VReal (b_limit b), VReal (b_warn b),
      VTime (b_created b), VTime (b_updated b)]"
| "sent_args (Send_UpdateBudget b) = [VReal (b_limit b), VReal (b_warn b), VTime (b_updated b), VText (b_id b)]"
| "sent_args (Send_DeleteBudget i) = [VText i]"
| "sent_args (Send_InsertCostRecords r) =
     [VText (cr_id r), VText (cr_project r), VText (cr_source r), VText (cr_provider r), VText (cr_provider_id r),
      VText (cr_account_id r), VText (cr_account_name r), VText (cr_invoice r),
      VText (cr_service r), VText (cr_category r), VText (cr_region r), VText (cr_zone r), VTime (cr_start r), VTime (cr_end r),
      VReal (cr_list r), VReal (cr_net r), VReal (cr_amortized r), VReal (cr_amortized_net r), VText (cr_currency r),
      VJson (marshal_labels (cr_labels r)), VReal (cr_k8s_percent r)]"

text \<open>The statement on typed tables that the same method of \<open>Store\<close> executes.\<close>

fun typed_stmt :: "env \<Rightarrow> sending \<Rightarrow> tables \<Rightarrow> store_error + tables" where
  "typed_stmt e (Send_CreateProject p) = stmt_insert_project (keep_project e p)"
| "typed_stmt e (Send_UpdateProject p) = stmt_update_project (p_id p) (p_name p) (p_description p) (e_time e (p_updated p))"
| "typed_stmt e (Send_DeleteProject i) = stmt_delete_project i"
| "typed_stmt e (Send_CreateCostSource cs) =
     stmt_insert_source (keep_source e (cs\<lparr>cs_config := Some (config_json (cs_config cs)), cs_collected := None\<rparr>))"
| "typed_stmt e (Send_UpdateCostSource cs) =
     stmt_update_source (cs_id cs) (cs_name cs) (Some (config_json (cs_config cs))) (cs_enabled cs) (e_time e (cs_updated cs))"
| "typed_stmt e (Send_DeleteCostSource i) = stmt_delete_source i"
| "typed_stmt e (Send_CollectedAt i t t') = stmt_update_collected i (e_time e t) (e_time e t')"
| "typed_stmt e (Send_CreateUser u) = stmt_insert_user (keep_user e (user_row_of u))"
| "typed_stmt e (Send_CreateGroup g) = stmt_insert_group (keep_group e (group_row_of g))"
| "typed_stmt e (Send_AddGroupMember g u) = stmt_insert_member g u"
| "typed_stmt e (Send_RemoveGroupMember g u) = stmt_delete_member g u"
| "typed_stmt e (Send_SetProjectRole pr) = stmt_upsert_role pr"
| "typed_stmt e (Send_RemoveProjectRole p st s) = stmt_delete_role p st s"
| "typed_stmt e (Send_CreateBudget b) = stmt_insert_budget (keep_budget e b)"
| "typed_stmt e (Send_UpdateBudget b) = stmt_update_budget (b_id b) (e_real e (b_limit b)) (e_real e (b_warn b)) (e_time e (b_updated b))"
| "typed_stmt e (Send_DeleteBudget i) = stmt_delete_budget i"
| "typed_stmt e (Send_InsertCostRecords r) =
     stmt_insert_record (keep_record e (r\<lparr>cr_labels := None, cr_labels_json := marshal_labels (cr_labels r)\<rparr>))"

text \<open>The tables whose rows go, or change, with the rows a call deletes.\<close>

fun dependents :: "sending \<Rightarrow> string list" where
  "dependents (Send_DeleteProject i) = [''cost_sources'', ''project_roles'', ''budgets'', ''cost_records'']"
| "dependents (Send_DeleteCostSource i) = [''budgets'', ''cost_records'']"
| "dependents _ = []"

section \<open>Both readers of a text sent\<close>

lemma sent_plain: "plain_text False (sent_text ''pgx'' x)"
  using statement_arguments by (cases x) (simp_all add: statements_def add_member_text_def)

lemma sent_same:
  "driver \<noteq> ''pgx'' \<Longrightarrow> parse_sql (read_holes False 0 (sent_text driver x)) = parse_sql (read_holes False 0 (sent_text ''pgx'' x))"
  by (cases x) (simp_all add: add_member_text_def inserts_read)

lemmas texts_read = inserts_read updates_read deletes_read

section \<open>Rows sent\<close>

lemma column_simps [simp]:
  "column [] c = VNull" "column ((c', v) # r) c = (if c = c' then v else column r c)"
  by (simp_all add: column_def)

lemma set_columns_simps [simp]:
  "set_columns new [] = []"
  "set_columns new ((c, v) # r) = (c, case map_of new c of None \<Rightarrow> v | Some v' \<Rightarrow> v') # set_columns new r"
  by (simp_all add: set_columns_def)

lemmas row_eqs = row_defs [unfolded schema_columns_def, simplified]

lemma or_null_simps [simp]:
  "or_null f None = VNull" "or_null f (Some y) = f y"
  by (simp_all add: or_null_def)

text \<open>What the columns keep of the values that are sent.\<close>

lemma column_keeps_simps [simp]:
  "column_keeps e c (VText s) = VText s" "column_keeps e c (VBool b) = VBool b" "column_keeps e c (VJson j) = VJson j"
  "column_keeps e c (or_null VText x) = or_null VText x"
  by (simp_all add: column_keeps_def or_null_def split: option.split)

lemma column_keeps_times [simp]:
  "column_keeps e ''created_at'' (VTime t) = VTime (e_time e t)" "column_keeps e ''updated_at'' (VTime t) = VTime (e_time e t)"
  "column_keeps e ''last_collected_at'' (VTime t) = VTime (e_time e t)"
  "column_keeps e ''start_time'' (VTime t) = VTime (e_time e t)" "column_keeps e ''end_time'' (VTime t) = VTime (e_time e t)"
  by (simp_all add: column_keeps_def timestamp_columns_def)

lemma column_keeps_reals [simp]:
  "column_keeps e ''monthly_limit'' (VReal x) = VReal (e_real e x)"
  "column_keeps e ''warn_threshold'' (VReal x) = VReal (e_real e x)"
  "column_keeps e ''list_cost'' (VReal x) = VReal (e_real e x)" "column_keeps e ''net_cost'' (VReal x) = VReal (e_real e x)"
  "column_keeps e ''amortized_cost'' (VReal x) = VReal (e_real e x)"
  "column_keeps e ''amortized_net_cost'' (VReal x) = VReal (e_real e x)"
  "column_keeps e ''kubernetes_percent'' (VReal x) = VReal (e_real e x)"
  by (simp_all add: column_keeps_def real_columns_def)

lemmas sent_simps = new_row_def given_def schema_columns_def row_eqs upt_rec keep_project_def keep_source_def
  keep_user_def keep_group_def keep_budget_def

text \<open>Changing one typed table changes the named table of the same rows.\<close>

lemma named_update:
  "named (d\<lparr>t_projects := ps\<rparr>) = (named d)(''projects'' := map project_row ps)"
  "named (d\<lparr>t_sources := ss\<rparr>) = (named d)(''cost_sources'' := map source_row ss)"
  "named (d\<lparr>t_users := us\<rparr>) = (named d)(''users'' := map account_row us)"
  "named (d\<lparr>t_groups := gs\<rparr>) = (named d)(''groups'' := map grouping_row gs)"
  "named (d\<lparr>t_members := ms\<rparr>) = (named d)(''group_members'' := map member_row ms)"
  "named (d\<lparr>t_roles := rs\<rparr>) = (named d)(''project_roles'' := map role_row rs)"
  "named (d\<lparr>t_budgets := bs\<rparr>) = (named d)(''budgets'' := map budget_row bs)"
  "named (d\<lparr>t_records := cs\<rparr>) = (named d)(''cost_records'' := map record_row cs)"
  by (simp_all add: named_def fun_eq_iff)

lemma named_tables:
  "named d ''projects'' = map project_row (t_projects d)" "named d ''cost_sources'' = map source_row (t_sources d)"
  "named d ''users'' = map account_row (t_users d)" "named d ''groups'' = map grouping_row (t_groups d)"
  "named d ''group_members'' = map member_row (t_members d)" "named d ''project_roles'' = map role_row (t_roles d)"
  "named d ''budgets'' = map budget_row (t_budgets d)" "named d ''cost_records'' = map record_row (t_records d)"
  by (simp_all add: named_def)

definition refined :: "env \<Rightarrow> sending \<Rightarrow> sql \<Rightarrow> tables \<Rightarrow> tables \<Rightarrow> bool" where
  "refined e x q d d' \<longleftrightarrow> (\<forall>t. t \<notin> set (dependents x) \<longrightarrow> run_sql e q (sent_args x) (named d) t = named d' t)"

lemma refined_insert:
  assumes "typed_stmt e x d = Inr d'"
  shows "x = Send_CreateProject p \<Longrightarrow> reads_as CreateProject_sql q \<Longrightarrow> refined e x q d d'"
    and "x = Send_CreateCostSource cs \<Longrightarrow> reads_as CreateCostSource_sql q \<Longrightarrow> refined e x q d d'"
    and "x = Send_CreateUser u \<Longrightarrow> reads_as CreateUser_sql q \<Longrightarrow> refined e x q d d'"
    and "x = Send_CreateGroup g \<Longrightarrow> reads_as CreateGroup_sql q \<Longrightarrow> refined e x q d d'"
    and "x = Send_CreateBudget b \<Longrightarrow> reads_as CreateBudget_sql q \<Longrightarrow> refined e x q d d'"
  using assms by (auto simp: inserts_read refined_def named_update named_tables sent_simps user_row_of_def group_row_of_def
      stmt_insert_project_def stmt_insert_source_def stmt_insert_user_def stmt_insert_group_def stmt_insert_budget_def
      split: if_splits)

lemma refined_record:
  assumes "typed_stmt e (Send_InsertCostRecords r) d = Inr d'" and "reads_as InsertCostRecords_sql q"
  shows "refined e (Send_InsertCostRecords r) q d d'"
  using assms by (auto simp: inserts_read refined_def named_update named_tables sent_simps stmt_insert_record_def
      split: if_splits)

lemma same_member: "same_columns [''group_id'', ''user_id''] (member_row m) (member_row m') \<longleftrightarrow> m' = m"
  by (cases m; cases m') (auto simp: same_columns_def row_eqs)

lemma same_role:
  "same_columns [''project_id'', ''subject_type'', ''subject_id''] (role_row pr) (role_row pr') \<longleftrightarrow> role_key pr' = role_key pr"
  by (auto simp: same_columns_def row_eqs role_key_def)

lemma refined_member:
  assumes "typed_stmt e (Send_AddGroupMember i j) d = Inr d'" and "reads_as AddGroupMember_pgx q"
  shows "refined e (Send_AddGroupMember i j) q d d'"
proof -
  have row: "new_row ''group_members'' (given e (sent_args (Send_AddGroupMember i j)) [(''group_id'', 0), (''user_id'', 1)]) = member_row (i, j)"
    by (simp add: sent_simps)
  have key: "schema_key ''group_members'' = [''group_id'', ''user_id'']" by (simp add: schema_key_def)
  have "list_ex (same_columns (schema_key ''group_members'') (member_row (i, j))) (map member_row (t_members d))
      \<longleftrightarrow> (i, j) \<in> set (t_members d)"
    unfolding key by (simp add: list_ex_iff same_member)
  with row assms show ?thesis
    by (auto simp: inserts_read refined_def named_update named_tables stmt_insert_member_def fun_upd_idem split: if_splits)
qed

lemma set_role: "set_columns [(''role'', VText r)] (role_row pr) = role_row (pr\<lparr>pr_role := r\<rparr>)"
  by (simp add: row_eqs)

lemma refined_role:
  assumes "typed_stmt e (Send_SetProjectRole pr) d = Inr d'" and "reads_as SetProjectRole_sql q"
  shows "refined e (Send_SetProjectRole pr) q d d'"
proof -
  let ?key = "[''project_id'', ''subject_type'', ''subject_id'']"
  have row: "new_row ''project_roles'' (given e (sent_args (Send_SetProjectRole pr))
      [(''project_id'', 0), (''subject_type'', 1), (''subject_id'', 2), (''role'', 3)]) = role_row pr"
    by (simp add: sent_simps)
  have ex: "list_ex (same_columns ?key (role_row pr)) (map role_row (t_roles d)) \<longleftrightarrow> role_key pr \<in> role_key ` set (t_roles d)"
    by (simp add: list_ex_iff same_role image_iff) metis
  have col: "column (role_row pr) ''role'' = VText (pr_role pr)" by (simp add: row_eqs)
  from row ex assms show ?thesis
    by (auto simp: inserts_read refined_def named_update named_tables stmt_upsert_role_def same_role col set_role
        update_rows_def split: if_splits)
qed

text \<open>Updates, row by row.\<close>

lemmas row_simps = holds_for_def operand_value_def row_eqs given_def

lemma refined_update:
  assumes "typed_stmt e x d = Inr d'"
  shows "x = Send_UpdateProject p \<Longrightarrow> reads_as UpdateProject_sql q \<Longrightarrow> refined e x q d d'"
    and "x = Send_UpdateCostSource cs \<Longrightarrow> reads_as UpdateCostSource_sql q \<Longrightarrow> refined e x q d d'"
    and "x = Send_CollectedAt i t t' \<Longrightarrow> reads_as UpdateCostSourceCollectedAt_sql q \<Longrightarrow> refined e x q d d'"
    and "x = Send_UpdateBudget b \<Longrightarrow> reads_as UpdateBudget_sql q \<Longrightarrow> refined e x q d d'"
  using assms by (auto simp: updates_read refined_def named_update named_tables stmt_update_project_def
      stmt_update_source_def stmt_update_collected_def stmt_update_budget_def update_rows_def row_simps
      split: if_splits)

text \<open>A DELETE drops the rows it names; those of other tables that go with them are the schema's matter.\<close>

lemma filter_rows:
  assumes "\<And>r. holds_for e args conds (f r) = c r"
  shows "filter (\<lambda>r. \<not> holds_for e args conds r) (map f rows) = map f (delete_rows c rows)"
  using assms by (simp add: delete_rows_def filter_map comp_def)

lemma named_cascade:
  "named (cascade_sources gone d) = (named d)
     (''cost_sources'' := map source_row (delete_rows (\<lambda>s. cs_id s \<in> set gone) (t_sources d)),
      ''budgets'' := map budget_row (update_rows (\<lambda>b. b_cost_source b \<in> Some ` set gone)
                    (\<lambda>b. b\<lparr>b_cost_source := None\<rparr>) (t_budgets d)),
      ''cost_records'' := map record_row (delete_rows (\<lambda>r. cr_source r \<in> set gone) (t_records d)))"
  by (simp add: cascade_sources_def named_update)

lemma refined_delete:
  assumes "typed_stmt e x d = Inr d'"
  shows "x = Send_DeleteProject i \<Longrightarrow> reads_as DeleteProject_sql q \<Longrightarrow> refined e x q d d'"
    and "x = Send_DeleteCostSource i \<Longrightarrow> reads_as DeleteCostSource_sql q \<Longrightarrow> refined e x q d d'"
    and "x = Send_RemoveGroupMember i j \<Longrightarrow> reads_as RemoveGroupMember_sql q \<Longrightarrow> refined e x q d d'"
    and "x = Send_RemoveProjectRole i st j \<Longrightarrow> reads_as RemoveProjectRole_sql q \<Longrightarrow> refined e x q d d'"
    and "x = Send_DeleteBudget i \<Longrightarrow> reads_as DeleteBudget_sql q \<Longrightarrow> refined e x q d d'"
proof -
  have p: "filter (\<lambda>r. \<not> holds_for e [VText i] [(''id'', ArgOp 0)] r) (map project_row rows)
      = map project_row (delete_rows (\<lambda>p. p_id p = i) rows)" for rows
    by (rule filter_rows) (simp add: row_simps)
  have s: "filter (\<lambda>r. \<not> holds_for e [VText i] [(''id'', ArgOp 0)] r) (map source_row rows)
      = map source_row (delete_rows (\<lambda>s. cs_id s = i) rows)" for rows
    by (rule filter_rows) (simp add: row_simps)
  have b: "filter (\<lambda>r. \<not> holds_for e [VText i] [(''id'', ArgOp 0)] r) (map budget_row rows)
      = map budget_row (delete_rows (\<lambda>b. b_id b = i) rows)" for rows
    by (rule filter_rows) (simp add: row_simps)
  have m: "filter (\<lambda>r. \<not> holds_for e [VText i, VText j] [(''group_id'', ArgOp 0), (''user_id'', ArgOp (Suc 0))] r) (map member_row rows)
      = map member_row (delete_rows (\<lambda>m. m = (i, j)) rows)" for rows
    by (rule filter_rows) (auto simp: row_simps)
  have r: "filter (\<lambda>r. \<not> holds_for e [VText i, VText st, VText j]
        [(''project_id'', ArgOp 0), (''subject_type'', ArgOp (Suc 0)), (''subject_id'', ArgOp 2)] r) (map role_row rows)
      = map role_row (delete_rows (\<lambda>r. role_key r = (i, st, j)) rows)" for rows
    by (rule filter_rows) (auto simp: row_simps role_key_def)
  have none: "i \<notin> project_ids d \<Longrightarrow> delete_rows (\<lambda>p. p_id p = i) (t_projects d) = t_projects d"
    "i \<notin> source_ids d \<Longrightarrow> delete_rows (\<lambda>s. cs_id s = i) (t_sources d) = t_sources d"
    by (auto simp: project_ids_def source_ids_def intro!: delete_rows_id)
  show "refined e x q d d'" if x: "x = Send_DeleteProject i" and q: "reads_as DeleteProject_sql q"
  proof -
    have "named d' t = ((named d)(''projects'' := map project_row (delete_rows (\<lambda>p. p_id p = i) (t_projects d)))) t"
      if "t \<notin> set (dependents x)" for t
    proof (cases "i \<in> project_ids d")
      case True
      with assms x have "d' = cascade_sources (sources_of i d) (d\<lparr>
             t_projects := delete_rows (\<lambda>p. p_id p = i) (t_projects d),
             t_roles := delete_rows (\<lambda>r. pr_project r = i) (t_roles d),
             t_budgets := delete_rows (\<lambda>b. b_project b = i) (t_budgets d),
             t_records := delete_rows (\<lambda>r. cr_project r = i) (t_records d)\<rparr>)"
        by (simp add: stmt_delete_project_def)
      with that x show ?thesis by (simp add: named_cascade named_update)
    next
      case False
      with assms x have "d' = d" by (simp add: stmt_delete_project_def)
      with none(1) [OF False] show ?thesis by (simp add: named_tables)
    qed
    moreover have "q = Delete ''projects'' [(''id'', ArgOp 0)]" using q deletes_read(1) by simp
    ultimately show ?thesis
      using x by (simp add: refined_def named_tables p del: fun_upd_apply dependents.simps)
  qed
  show "refined e x q d d'" if x: "x = Send_DeleteCostSource i" and q: "reads_as DeleteCostSource_sql q"
  proof -
    have "named d' t = ((named d)(''cost_sources'' := map source_row (delete_rows (\<lambda>s. cs_id s = i) (t_sources d)))) t"
      if "t \<notin> set (dependents x)" for t
    proof (cases "i \<in> source_ids d")
      case True
      with assms x have "d' = cascade_sources [i] d" by (simp add: stmt_delete_source_def)
      with that x show ?thesis by (simp add: named_cascade)
    next
      case False
      with assms x have "d' = d" by (simp add: stmt_delete_source_def)
      with none(2) [OF False] show ?thesis by (simp add: named_tables)
    qed
    moreover have "q = Delete ''cost_sources'' [(''id'', ArgOp 0)]" using q deletes_read(2) by simp
    ultimately show ?thesis
      using x by (simp add: refined_def named_tables s del: fun_upd_apply dependents.simps)
  qed
  show "x = Send_RemoveGroupMember i j \<Longrightarrow> reads_as RemoveGroupMember_sql q \<Longrightarrow> refined e x q d d'"
    using assms by (auto simp: deletes_read refined_def named_update named_tables m stmt_delete_member_def)
  show "x = Send_RemoveProjectRole i st j \<Longrightarrow> reads_as RemoveProjectRole_sql q \<Longrightarrow> refined e x q d d'"
    using assms by (auto simp: deletes_read refined_def named_update named_tables r stmt_delete_role_def)
  show "x = Send_DeleteBudget i \<Longrightarrow> reads_as DeleteBudget_sql q \<Longrightarrow> refined e x q d d'"
    using assms by (auto simp: deletes_read refined_def named_update named_tables b stmt_delete_budget_def)
qed

lemma sent_refined:
  assumes "typed_stmt e x d = Inr d'"
  shows "\<exists>q. reads_as (sent_text ''pgx'' x) q \<and> refined e x q d d'"
proof (cases x)
  case (Send_InsertCostRecords r)
  with refined_record assms inserts_read(9) show ?thesis by auto
next
  case (Send_AddGroupMember i j)
  with refined_member assms inserts_read(5) show ?thesis by (auto simp: add_member_text_def)
next
  case (Send_SetProjectRole pr)
  with refined_role assms inserts_read(7) show ?thesis by auto
qed (use refined_insert [OF assms] refined_update [OF assms] refined_delete [OF assms] inserts_read updates_read deletes_read
     in \<open>auto\<close>)

section \<open>Writing through the wrapper\<close>

text \<open>The engine of \<open>Connections\<close> that reads and runs statements; a prepared statement is its text as read.\<close>

definition table_engine ::
  "env \<Rightarrow> (named_tables, unit, piece list, sql_value, sql_value list list) engine"
where
  "table_engine e =
     (let run = (\<lambda>p args g. case parse_sql p of None \<Rightarrow> (Inl ''syntax error'', g) | Some q \<Rightarrow> (Inr [], run_sql e q args g)) in
      \<lparr>en_exec = run,
       en_query = \<lambda>p args g. (case parse_sql p of
          None \<Rightarrow> (Inl ''syntax error'', g) | Some q \<Rightarrow> (Inr (select_sql e q args g), g)),
       en_prepare = \<lambda>p g. (Inr p, g), en_begin = \<lambda>g. (Inr (), g), en_ping = \<lambda>g. (Inr (), g), en_close = \<lambda>g. (Inr (), g),
       en_tx_exec = \<lambda>x. run, en_tx_prepare = \<lambda>x p g. (Inr p, g), en_tx_end = \<lambda>commit x g. (Inr (), g)\<rparr>)"

lemma exec_pgx:
  "plain_text False s \<Longrightarrow> reads_as s q \<Longrightarrow>
   ExecContext (pgx_db (table_engine e)) s args g = (Inr [], run_sql e q args g)"
  by (simp add: wrapper_defs table_engine_def Let_def read_rebound)

lemma exec_sqlite:
  "reads_as s q \<Longrightarrow> ExecContext (sqlite_db (table_engine e)) s args g = (Inr [], run_sql e q args g)"
  by (simp add: wrapper_defs table_engine_def Let_def rebind_sqlite)

text \<open>The connection of a store, to the system its driver names.\<close>

definition store_db where
  "store_db e = (if e_driver e = ''pgx'' then pgx_db (table_engine e) else sqlite_db (table_engine e))"

text \<open>
  C17: What the store writes is what its statement texts say. On PostgreSQL, with its rewritten placeholders and its
  own text for memberships, and on SQLite, the text of every writing method, with the arguments in the order the
  method passes them, is accepted, and changes the named columns of the tables, each of which keeps of its values what its
  type in that system keeps, exactly as the statement of \<open>Database\<close> that models the method changes the typed tables,
  whenever the keys and foreign keys admit that statement; keys, foreign keys and the rows the schema deletes or clears
  along with a project or a cost source are the matter of \<open>Database\<close> alone.
\<close>

theorem written_as_sent:
  assumes "typed_stmt e x d = Inr d'"
  shows "\<exists>g. ExecContext (store_db e) (sent_text (e_driver e) x) (sent_args x) (named d) = (Inr [], g)
    \<and> (\<forall>t. t \<notin> set (dependents x) \<longrightarrow> g t = named d' t)"
proof -
  obtain q where q: "reads_as (sent_text ''pgx'' x) q" and r: "refined e x q d d'"
    using sent_refined [OF assms] by blast
  show ?thesis
    using exec_pgx [OF sent_plain q, of e] exec_sqlite [of "sent_text (e_driver e) x" q e] sent_same [of "e_driver e" x] q r
    by (auto simp: refined_def store_db_def)
qed

theorem written_as_sent_witness:
  "\<exists>g. ExecContext (store_db sample_env) (sent_text (e_driver sample_env) (Send_CreateProject sample_project))
       (sent_args (Send_CreateProject sample_project)) (named empty_tables) = (Inr [], g)
     \<and> g ''projects'' = [project_row sample_project]"
proof -
  have "typed_stmt sample_env (Send_CreateProject sample_project) empty_tables
      = Inr (empty_tables\<lparr>t_projects := [sample_project]\<rparr>)"
    by (simp add: stmt_insert_project_def empty_tables_def project_ids_def)
  from written_as_sent [OF this] show ?thesis by (auto simp: named_tables)
qed

end
