(* ===== verification/Scans.thy ===== *)
theory Scans
  imports Sql_Text
begin

text \<open>
  What the reading methods of \<open>internal/store/sql.go\<close> bring back: the rows the text of a query selects, and the \<open>Scan\<close>
  calls, which take the values of a row in the order of its columns into the fields of a struct.

  Lemmas: a row scanned is the row it came from; every operation of the store is a sequence of statements sent, so
  every cost source in the tables has a configuration (which \<open>Scan\<close> needs); on both database systems the queries over
  one table, by text and scan, are the typed queries of \<open>Store\<close>.
\<close>

section \<open>Rows and scans\<close>

definition rows_read ::
  "bool \<Rightarrow> env \<Rightarrow> string \<Rightarrow> sql_value list \<Rightarrow> tables \<Rightarrow> sql_value list list"
where
  "rows_read pgx e s args d =
     (case QueryContext (if pgx then pgx_db (table_engine e) else sqlite_db (table_engine e)) s args (named d) of
        (Inl err, g) \<Rightarrow> []
      | (Inr rows, g) \<Rightarrow> rows)"

text \<open>The \<open>Scan\<close> calls: a column into a field, in the order of the columns; \<open>None\<close> when a value has not the field's type.\<close>

fun text_in :: "sql_value \<Rightarrow> string option" where
  "text_in (VText s) = Some s"
| "text_in _ = None"

fun time_in :: "sql_value \<Rightarrow> time option" where
  "time_in (VTime t) = Some t"
| "time_in _ = None"

fun real_in :: "sql_value \<Rightarrow> float64 option" where
  "real_in (VReal x) = Some x"
| "real_in _ = None"

fun bool_in :: "sql_value \<Rightarrow> bool option" where
  "bool_in (VBool b) = Some b"
| "bool_in _ = None"

fun json_in :: "sql_value \<Rightarrow> json option" where
  "json_in (VJson j) = Some j"
| "json_in _ = None"

definition nullable :: "(sql_value \<Rightarrow> 'a option) \<Rightarrow> sql_value \<Rightarrow> 'a option option" where
  "nullable f v = (if v = VNull then Some None else map_option Some (f v))"

definition scan_project :: "sql_value list \<Rightarrow> project option" where
  "scan_project vs =
     (case vs of
        [i, n, ds, c, u] \<Rightarrow>
          (case (text_in i, text_in n, text_in ds, time_in c, time_in u) of
             (Some i, Some n, Some ds, Some c, Some u) \<Rightarrow>
               Some \<lparr>p_id = i, p_name = n, p_description = ds, p_created = c, p_updated = u\<rparr>
           | _ \<Rightarrow> None)
      | _ \<Rightarrow> None)"

definition scan_source :: "sql_value list \<Rightarrow> cost_source option" where
  "scan_source vs =
     (case vs of
        [i, p, ty, n, cfg, en, lc, c, u] \<Rightarrow>
          (case (text_in i, text_in p, text_in ty, text_in n, json_in cfg, bool_in en, nullable time_in lc, time_in c, time_in u) of
             (Some i, Some p, Some ty, Some n, Some cfg, Some en, Some lc, Some c, Some u) \<Rightarrow>
               Some \<lparr>cs_id = i, cs_project = p, cs_type = ty, cs_name = n, cs_config = Some cfg, cs_enabled = en,
                 cs_collected = lc, cs_created = c, cs_updated = u\<rparr>
           | _ \<Rightarrow> None)
      | _ \<Rightarrow> None)"

definition scan_account :: "sql_value list \<Rightarrow> user option" where
  "scan_account vs =
     (case vs of
        [i, em, dn, sub, c] \<Rightarrow>
          (case (text_in i, text_in em, text_in dn, nullable text_in sub, time_in c) of
             (Some i, Some em, Some dn, Some sub, Some c) \<Rightarrow>
               Some \<lparr>u_id = i, u_email = em, u_display = dn, u_subject = null_text sub, u_created = c\<rparr>
           | _ \<Rightarrow> None)
      | _ \<Rightarrow> None)"

definition scan_grouping :: "sql_value list \<Rightarrow> group option" where
  "scan_grouping vs =
     (case vs of
        [i, n, cl, c] \<Rightarrow>
          (case (text_in i, text_in n, nullable text_in cl, time_in c) of
             (Some i, Some n, Some cl, Some c) \<Rightarrow>
               Some \<lparr>g_id = i, g_name = n, g_claim = null_text cl, g_created = c\<rparr>
           | _ \<Rightarrow> None)
      | _ \<Rightarrow> None)"

definition scan_role :: "sql_value list \<Rightarrow> project_role option" where
  "scan_role vs =
     (case vs of
        [p, st, s, r] \<Rightarrow>
          (case (text_in p, text_in st, text_in s, text_in r) of
             (Some p, Some st, Some s, Some r) \<Rightarrow>
               Some \<lparr>pr_project = p, pr_subject_type = st, pr_subject = s, pr_role = r\<rparr>
           | _ \<Rightarrow> None)
      | _ \<Rightarrow> None)"

definition scan_budget :: "sql_value list \<Rightarrow> budget option" where
  "scan_budget vs =
     (case vs of
        [i, p, cs, l, wt, c, u] \<Rightarrow>
          (case (text_in i, text_in p, nullable text_in cs, real_in l, real_in wt, time_in c, time_in u) of
             (Some i, Some p, Some cs, Some l, Some wt, Some c, Some u) \<Rightarrow>
               Some \<lparr>b_id = i, b_project = p, b_cost_source = cs, b_limit = l, b_warn = wt, b_created = c, b_updated = u\<rparr>
           | _ \<Rightarrow> None)
      | _ \<Rightarrow> None)"

section \<open>What is scanned\<close>

lemma rows_read_select:
  assumes "plain_text False s" and "reads_as s q"
  shows "rows_read pgx e s args d = select_sql e q args (named d)"
  using assms by (simp add: rows_read_def wrapper_defs table_engine_def Let_def read_rebound rebind_sqlite)

lemma sort_by_map:
  assumes "\<And>x y. le' (f x) (f y) = le x y"
  shows "sort_by le' (map f xs) = map f (sort_by le xs)"
proof -
  have "insort_by le' (f x) (map f ys) = map f (insort_by le x ys)" for x ys
    by (induction ys) (simp_all add: assms)
  then show ?thesis by (induction xs) simp_all
qed

lemma filter_map_rows:
  assumes "\<And>r. holds_for e args conds (f r) = c r"
  shows "filter (holds_for e args conds) (map f rows) = map f (filter c rows)"
  using assms by (simp add: filter_map comp_def)

text \<open>Each row is scanned back to what it came from.\<close>

lemma nullable_or_null [simp]:
  "nullable text_in (or_null VText x) = Some x" "nullable time_in (or_null VTime t) = Some t"
  by (cases x; simp add: nullable_def) (cases t; simp add: nullable_def)

lemma scanned:
  "scan_project (map (column (project_row p)) [''id'', ''name'', ''description'', ''created_at'', ''updated_at'']) = Some p"
  "scan_account (map (column (account_row u)) [''id'', ''email'', ''display_name'', ''oidc_subject'', ''created_at''])
     = Some (scan_user u)"
  "scan_grouping (map (column (grouping_row g)) [''id'', ''name'', ''oidc_claim'', ''created_at'']) = Some (scan_group g)"
  "scan_role (map (column (role_row r)) [''project_id'', ''subject_type'', ''subject_id'', ''role'']) = Some r"
  "scan_budget (map (column (budget_row b)) [''id'', ''project_id'', ''cost_source_id'', ''monthly_limit'', ''warn_threshold'',
     ''created_at'', ''updated_at'']) = Some b"
  "scan_source (map (column (source_row cs)) [''id'', ''project_id'', ''type'', ''name'', ''config_json'', ''enabled'',
     ''last_collected_at'', ''created_at'', ''updated_at''])
     = map_option (\<lambda>j. cs) (cs_config cs)"
  by (simp_all add: row_eqs scan_project_def scan_account_def scan_grouping_def scan_role_def scan_budget_def
      scan_source_def scan_user_def scan_group_def) (cases "cs_config cs"; simp)

text \<open>\<open>QueryRow\<close> with one \<open>Scan\<close>, and the loop over \<open>rows.Next\<close>; a failing \<open>Scan\<close> is returned as an error.\<close>

definition scan_one :: "(sql_value list \<Rightarrow> 'a option) \<Rightarrow> sql_value list list \<Rightarrow> store_error + 'a option" where
  "scan_one f rows =
     (case rows of
        [] \<Rightarrow> Inr None
      | r # _ \<Rightarrow> (case f r of None \<Rightarrow> Inl DriverError | Some x \<Rightarrow> Inr (Some x)))"

definition scan_all :: "(sql_value list \<Rightarrow> 'a option) \<Rightarrow> sql_value list list \<Rightarrow> store_error + 'a list" where
  "scan_all f rows = (case those (map f rows) of None \<Rightarrow> Inl DriverError | Some xs \<Rightarrow> Inr xs)"

lemma scan_one_find:
  assumes "\<And>r. r \<in> set t \<Longrightarrow> f (g r) = Some (h r)"
  shows "scan_one f (map g (filter (\<lambda>r. key r = k) t)) = Inr (map_option h (find_row key k t))"
  using assms by (induction t) (auto simp: scan_one_def find_row_def)

lemma scan_all_map:
  "(\<And>r. r \<in> set t \<Longrightarrow> f (g r) = Some (h r)) \<Longrightarrow> scan_all f (map g t) = Inr (map h t)"
proof -
  assume "\<And>r. r \<in> set t \<Longrightarrow> f (g r) = Some (h r)"
  then have "those (map f (map g t)) = Some (map h t)"
    by (induction t) auto
  then show ?thesis by (simp add: scan_all_def)
qed

text \<open>A cost source in the table has a configuration: the methods that write one never leave the column NULL.\<close>

definition configured :: "tables \<Rightarrow> bool" where
  "configured d = list_all (\<lambda>cs. cs_config cs \<noteq> None) (t_sources d)"

lemma selects_plain:
  "plain_text False GetProject_sql" "plain_text False ListProjects_sql" "plain_text False GetCostSource_sql"
  "plain_text False ListCostSources_sql" "plain_text False GetUser_sql" "plain_text False GetUserByEmail_sql"
  "plain_text False GetUserByOIDCSubject_sql" "plain_text False ListUsers_sql" "plain_text False GetGroup_sql"
  "plain_text False GetGroupByOIDCClaim_sql" "plain_text False ListGroups_sql" "plain_text False ListProjectRoles_sql"
  "plain_text False GetUserProjectRole_sql" "plain_text False GetBudget_sql" "plain_text False ListBudgets_sql"
  using statement_arguments by (simp_all add: statements_def)

lemmas rows_of_text = selects_read [THEN rows_read_select [rotated]]

lemma where_rows:
  "holds_for e [VText i] [(''id'', ArgOp 0)] (project_row p) \<longleftrightarrow> p_id p = i"
  "holds_for e [VText i] [(''id'', ArgOp 0)] (source_row cs) \<longleftrightarrow> cs_id cs = i"
  "holds_for e [VText i] [(''project_id'', ArgOp 0)] (source_row cs) \<longleftrightarrow> cs_project cs = i"
  "holds_for e [VText i] [(''id'', ArgOp 0)] (account_row u) \<longleftrightarrow> ur_id u = i"
  "holds_for e [VText i] [(''email'', ArgOp 0)] (account_row u) \<longleftrightarrow> ur_email u = i"
  "holds_for e [VText i] [(''oidc_subject'', ArgOp 0)] (account_row u) \<longleftrightarrow> ur_subject u = Some i"
  "holds_for e [VText i] [(''id'', ArgOp 0)] (grouping_row g) \<longleftrightarrow> gr_id g = i"
  "holds_for e [VText i] [(''oidc_claim'', ArgOp 0)] (grouping_row g) \<longleftrightarrow> gr_claim g = Some i"
  "holds_for e [VText i] [(''project_id'', ArgOp 0)] (role_row r) \<longleftrightarrow> pr_project r = i"
  "holds_for e [VText i, VText j] [(''project_id'', ArgOp 0), (''subject_type'', TextOp ''user''), (''subject_id'', ArgOp (Suc 0))] (role_row r)
     \<longleftrightarrow> role_key r = (i, ''user'', j)"
  "holds_for e [VText i] [(''id'', ArgOp 0)] (budget_row b) \<longleftrightarrow> b_id b = i"
  "holds_for e [VText i] [(''project_id'', ArgOp 0)] (budget_row b) \<longleftrightarrow> b_project b = i"
  "holds_for e args [] row"
  by (auto simp: row_simps role_key_def or_null_def split: option.splits)

text \<open>The lists of values a SELECT over one table returns for its rows.\<close>

definition project_values where
  "project_values = (\<lambda>p. map (column (project_row p))
     [''id'', ''name'', ''description'', ''created_at'', ''updated_at''])"

definition source_values where
  "source_values = (\<lambda>cs. map (column (source_row cs))
     [''id'', ''project_id'', ''type'', ''name'', ''config_json'', ''enabled'', ''last_collected_at'',
      ''created_at'', ''updated_at''])"

definition account_values where
  "account_values = (\<lambda>u. map (column (account_row u))
     [''id'', ''email'', ''display_name'', ''oidc_subject'', ''created_at''])"

definition grouping_values where
  "grouping_values = (\<lambda>g. map (column (grouping_row g))
     [''id'', ''name'', ''oidc_claim'', ''created_at''])"

definition role_values where
  "role_values = (\<lambda>r. map (column (role_row r))
     [''project_id'', ''subject_type'', ''subject_id'', ''role''])"

definition budget_values where
  "budget_values = (\<lambda>b. map (column (budget_row b))
     [''id'', ''project_id'', ''cost_source_id'', ''monthly_limit'', ''warn_threshold'', ''created_at'',
      ''updated_at''])"


lemmas value_defs = project_values_def source_values_def account_values_def grouping_values_def role_values_def budget_values_def

lemma scanned_values:
  "scan_project (project_values p) = Some p" "scan_account (account_values u) = Some (scan_user u)"
  "scan_grouping (grouping_values g) = Some (scan_group g)" "scan_role (role_values r) = Some r"
  "scan_budget (budget_values b) = Some b" "scan_source (source_values cs) = map_option (\<lambda>j. cs) (cs_config cs)"
  unfolding value_defs by (rule scanned)+

lemma by_name:
  "by_column co (Some ''name'') (map project_row ps) = map project_row (sort_by (\<lambda>a b. co (p_name a) (p_name b)) ps)"
  "by_column co (Some ''name'') (map source_row ss) = map source_row (sort_by (\<lambda>a b. co (cs_name a) (cs_name b)) ss)"
  "by_column co (Some ''email'') (map account_row us) = map account_row (sort_by (\<lambda>a b. co (ur_email a) (ur_email b)) us)"
  "by_column co (Some ''name'') (map grouping_row gs) = map grouping_row (sort_by (\<lambda>a b. co (gr_name a) (gr_name b)) gs)"
  "by_column co None rows = rows"
  by (simp_all add: by_column_def sort_by_map row_eqs)

lemma rows_values:
  "rows_read pgx e GetProject_sql [VText i] d = map project_values (filter (\<lambda>p. p_id p = i) (t_projects d))"
  "rows_read pgx e ListProjects_sql [] d = map project_values (sort_by (\<lambda>a b. e_collate e (p_name a) (p_name b)) (t_projects d))"
  "rows_read pgx e GetCostSource_sql [VText i] d = map source_values (filter (\<lambda>cs. cs_id cs = i) (t_sources d))"
  "rows_read pgx e ListCostSources_sql [VText i] d
     = map source_values (sort_by (\<lambda>a b. e_collate e (cs_name a) (cs_name b)) (filter (\<lambda>cs. cs_project cs = i) (t_sources d)))"
  "rows_read pgx e GetUser_sql [VText i] d = map account_values (filter (\<lambda>u. ur_id u = i) (t_users d))"
  "rows_read pgx e GetUserByEmail_sql [VText i] d = map account_values (filter (\<lambda>u. ur_email u = i) (t_users d))"
  "rows_read pgx e GetUserByOIDCSubject_sql [VText i] d = map account_values (filter (\<lambda>u. ur_subject u = Some i) (t_users d))"
  "rows_read pgx e ListUsers_sql [] d = map account_values (sort_by (\<lambda>a b. e_collate e (ur_email a) (ur_email b)) (t_users d))"
  "rows_read pgx e GetGroup_sql [VText i] d = map grouping_values (filter (\<lambda>g. gr_id g = i) (t_groups d))"
  "rows_read pgx e GetGroupByOIDCClaim_sql [VText i] d = map grouping_values (filter (\<lambda>g. gr_claim g = Some i) (t_groups d))"
  "rows_read pgx e ListGroups_sql [] d = map grouping_values (sort_by (\<lambda>a b. e_collate e (gr_name a) (gr_name b)) (t_groups d))"
  "rows_read pgx e ListProjectRoles_sql [VText i] d = map role_values (filter (\<lambda>r. pr_project r = i) (t_roles d))"
  "rows_read pgx e GetUserProjectRole_sql [VText i, VText j] d
     = map role_values (filter (\<lambda>r. role_key r = (i, ''user'', j)) (t_roles d))"
  "rows_read pgx e GetBudget_sql [VText i] d = map budget_values (filter (\<lambda>b. b_id b = i) (t_budgets d))"
  "rows_read pgx e ListBudgets_sql [VText i] d = map budget_values (filter (\<lambda>b. b_project b = i) (t_budgets d))"
  by (simp_all add: rows_of_text selects_plain named_tables filter_map comp_def where_rows by_name value_defs)

lemma query_rows_ok: "\<not> e_fault e (w_calls w) \<Longrightarrow> fst (query_rows e sel w) = Inr (sel (w_db w))"
  by (simp add: query_rows_fst)

lemma scan_one_row:
  assumes "\<And>r. r \<in> set t \<Longrightarrow> f (g r) = Some r"
  shows "scan_one f (map g (filter (\<lambda>r. key r = k) t)) = Inr (find_row key k t)"
  using scan_one_find [of t f g "\<lambda>r. r" key k] assms by (simp add: option.map_ident)

lemma scan_all_rows: "(\<And>r. r \<in> set t \<Longrightarrow> f (g r) = Some r) \<Longrightarrow> scan_all f (map g t) = Inr t"
  using scan_all_map [of t f g "\<lambda>r. r"] by simp

lemma scanned_source: "configured d \<Longrightarrow> cs \<in> set (t_sources d) \<Longrightarrow> scan_source (source_values cs) = Some cs"
  by (auto simp: scanned_values configured_def list_all_iff)

lemmas scan_rules =
  scan_one_row [where g = project_values, OF scanned_values(1)] scan_one_row [where g = role_values, OF scanned_values(4)]
  scan_one_row [where g = budget_values, OF scanned_values(5)] scan_all_rows [where g = project_values, OF scanned_values(1)]
  scan_all_rows [where g = role_values, OF scanned_values(4)] scan_all_rows [where g = budget_values, OF scanned_values(5)]
  scan_one_find [where g = account_values and h = scan_user, OF scanned_values(2)]
  scan_one_find [where g = grouping_values and h = scan_group, OF scanned_values(3)]
  scan_all_map [where g = account_values and h = scan_user, OF scanned_values(2)]
  scan_all_map [where g = grouping_values and h = scan_group, OF scanned_values(3)]

section \<open>Histories of the store\<close>

text \<open>
  Whatever an operation of the store does to the tables it does by statements sent, one after the other; so what every
  statement keeps every history of the store keeps.
\<close>

fun sent_all :: "env \<Rightarrow> sending list \<Rightarrow> tables \<Rightarrow> store_error + tables" where
  "sent_all e [] d = Inr d"
| "sent_all e (x # xs) d = (case typed_stmt e x d of Inl err \<Rightarrow> Inl err | Inr d \<Rightarrow> sent_all e xs d)"

lemma exec_sent:
  assumes "w_db w = d"
  shows "\<exists>xs. sent_all e xs d = Inr (w_db (snd (exec e (typed_stmt e x) w)))"
proof (cases "w_db (snd (exec e (typed_stmt e x) w)) = w_db w")
  case True
  with assms show ?thesis by (intro exI [of _ "[]"]) simp
next
  case False
  with assms exec_db [of e "typed_stmt e x" w] show ?thesis by (intro exI [of _ "[x]"]) simp
qed

lemmas exec_sends =
  exec_sent [where x = "Send_CreateProject p" for p, simplified]
  exec_sent [where x = "Send_UpdateProject (p\<lparr>p_updated := t\<rparr>)" for p t, simplified]
  exec_sent [where x = "Send_DeleteProject i" for i, simplified]
  exec_sent [where x = "Send_CreateCostSource (cs\<lparr>cs_id := i, cs_created := t, cs_updated := t\<rparr>)" for cs i t, simplified]
  exec_sent [where x = "Send_UpdateCostSource (cs\<lparr>cs_updated := t\<rparr>)" for cs t, simplified]
  exec_sent [where x = "Send_DeleteCostSource i" for i, simplified]
  exec_sent [where x = "Send_CollectedAt i t t'" for i t t', simplified]
  exec_sent [where x = "Send_CreateUser u" for u, simplified]
  exec_sent [where x = "Send_CreateGroup g" for g, simplified]
  exec_sent [where x = "Send_AddGroupMember i j" for i j, simplified]
  exec_sent [where x = "Send_RemoveGroupMember i j" for i j, simplified]
  exec_sent [where x = "Send_SetProjectRole pr" for pr, simplified]
  exec_sent [where x = "Send_RemoveProjectRole i st j" for i st j, simplified]
  exec_sent [where x = "Send_CreateBudget b" for b, simplified]
  exec_sent [where x = "Send_UpdateBudget (b\<lparr>b_updated := t\<rparr>)" for b t, simplified]
  exec_sent [where x = "Send_DeleteBudget i" for i, simplified]

lemma insert_loop_sent:
  "insert_records_loop e rs tx w = (Inr tx', w') \<Longrightarrow> \<exists>xs. sent_all e xs tx = Inr tx'"
proof (induction e rs tx w arbitrary: w' rule: insert_records_loop.induct)
  case (1 e tx w)
  then show ?case by (intro exI [of _ "[]"]) simp
next
  case (2 e r rs tx w)
  obtain i w1 where i: "ensure_id e (cr_id r) w = (i, w1)" by fastforce
  let ?row = "r\<lparr>cr_id := i, cr_labels := None, cr_labels_json := marshal_labels (cr_labels r)\<rparr>"
  from 2(2) i obtain tx1 w2 where st: "stmt_insert_record (keep_record e ?row) tx = Inr tx1"
    and rest: "insert_records_loop e rs tx1 w2 = (Inr tx', w')"
    by (auto simp: driver_call_def split: if_splits sum.splits)
  have "\<exists>xs. sent_all e xs tx1 = Inr tx'"
    using 2 i st by (auto simp: driver_call_def split: if_splits)
  then obtain xs where "sent_all e xs tx1 = Inr tx'" by blast
  with st show ?case by (intro exI [of _ "Send_InsertCostRecords (r\<lparr>cr_id := i\<rparr>) # xs"]) simp
qed

lemma records_sent: "\<exists>xs. sent_all e xs (w_db w) = Inr (w_db (snd (InsertCostRecords e rs w)))"
proof (cases "InsertCostRecords e rs w")
  case (Pair r w')
  show ?thesis
  proof (cases r)
    case (Inl err)
    with Pair have "w_db w' = w_db w" by (blast dest: InsertCostRecords_Inl)
    with Pair show ?thesis by (intro exI [of _ "[]"]) simp
  next
    case (Inr u)
    with Pair obtain w1 w2 where "insert_records_loop e rs (w_db w) w1 = (Inr (w_db w'), w2)"
      by (blast elim: InsertCostRecords_Inr)
    with Pair show ?thesis by (auto dest: insert_loop_sent)
  qed
qed

lemma step_sent: "\<exists>xs. sent_all e xs (w_db w) = Inr (w_db (store_step e op w))"
  by (cases op) (simp_all add: write_defs Let_def case_prod_beta records_sent exec_sends)

text \<open>Every statement keeps the configurations; so does every history.\<close>

lemma sent_configured: "typed_stmt e x d = Inr d' \<Longrightarrow> configured d \<Longrightarrow> configured d'"
  by (cases x) (auto simp: configured_def list_all_iff update_rows_def delete_rows_def cascade_sources_def
      stmt_insert_project_def stmt_insert_source_def stmt_insert_user_def stmt_insert_group_def stmt_insert_member_def
      stmt_upsert_role_def stmt_insert_budget_def stmt_insert_record_def stmt_update_project_def
      stmt_update_source_def stmt_update_collected_def stmt_update_budget_def stmt_delete_project_def
      stmt_delete_source_def stmt_delete_member_def stmt_delete_role_def stmt_delete_budget_def split: if_splits)

lemma all_sent: "sent_all e xs d = Inr d' \<Longrightarrow> (\<And>x d d'. typed_stmt e x d = Inr d' \<Longrightarrow> P d \<Longrightarrow> P d') \<Longrightarrow> P d \<Longrightarrow> P d'"
  by (induction xs arbitrary: d) (auto split: sum.splits)

lemma store_run_sent:
  assumes kept: "\<And>x d d'. typed_stmt e x d = Inr d' \<Longrightarrow> P d \<Longrightarrow> P d'" and "P (w_db w)"
  shows "P (w_db (store_run e ops w))"
proof -
  have "P (w_db (store_step e op w))" if P: "P (w_db w)" for op w
  proof -
    obtain xs where "sent_all e xs (w_db w) = Inr (w_db (store_step e op w))" using step_sent by blast
    from all_sent [of _ _ _ _ P, OF this kept P] show ?thesis .
  qed
  then show ?thesis
    using assms(2) unfolding store_run_def by (induction ops arbitrary: w) simp_all
qed

lemma store_run_configured: "configured (w_db w) \<Longrightarrow> configured (w_db (store_run e ops w))"
  using store_run_sent [where P = configured] sent_configured by blast

section \<open>Reads\<close>

text \<open>
  C32: What the store reads is what its statement texts and its \<open>Scan\<close> calls say. On both database systems the rows
  the text of a query selects, scanned column by column into the fields the method names, are what the typed query of
  \<open>Store\<close> returns: for every query over one table except those of the cost records, which \<open>Record_Query\<close> has.
\<close>

theorem read_as_scanned:
  assumes "\<not> e_fault e (w_calls w)" and "configured (w_db w)"
  shows "fst (GetProject e i w) = scan_one scan_project (rows_read pgx e GetProject_sql [VText i] (w_db w))
    \<and> fst (ListProjects e w) = scan_all scan_project (rows_read pgx e ListProjects_sql [] (w_db w))
    \<and> fst (GetCostSource e i w) = scan_one scan_source (rows_read pgx e GetCostSource_sql [VText i] (w_db w))
    \<and> fst (ListCostSources e i w) = scan_all scan_source (rows_read pgx e ListCostSources_sql [VText i] (w_db w))
    \<and> fst (GetUser e i w) = scan_one scan_account (rows_read pgx e GetUser_sql [VText i] (w_db w))
    \<and> fst (GetUserByEmail e i w) = scan_one scan_account (rows_read pgx e GetUserByEmail_sql [VText i] (w_db w))
    \<and> fst (GetUserByOIDCSubject e i w)
        = scan_one scan_account (rows_read pgx e GetUserByOIDCSubject_sql [VText i] (w_db w))
    \<and> fst (ListUsers e w) = scan_all scan_account (rows_read pgx e ListUsers_sql [] (w_db w))
    \<and> fst (GetGroup e i w) = scan_one scan_grouping (rows_read pgx e GetGroup_sql [VText i] (w_db w))
    \<and> fst (GetGroupByOIDCClaim e i w)
        = scan_one scan_grouping (rows_read pgx e GetGroupByOIDCClaim_sql [VText i] (w_db w))
    \<and> fst (ListGroups e w) = scan_all scan_grouping (rows_read pgx e ListGroups_sql [] (w_db w))
    \<and> fst (ListProjectRoles e i w) = scan_all scan_role (rows_read pgx e ListProjectRoles_sql [VText i] (w_db w))
    \<and> fst (GetUserProjectRole e i j w)
        = scan_one scan_role (rows_read pgx e GetUserProjectRole_sql [VText i, VText j] (w_db w))
    \<and> fst (GetBudget e i w) = scan_one scan_budget (rows_read pgx e GetBudget_sql [VText i] (w_db w))
    \<and> fst (ListBudgets e i w) = scan_all scan_budget (rows_read pgx e ListBudgets_sql [VText i] (w_db w))"
proof -
  have src: "scan_one scan_source (map source_values (filter (\<lambda>cs. cs_id cs = i) (t_sources (w_db w))))
      = Inr (find_row cs_id i (t_sources (w_db w)))"
    by (rule scan_one_row) (rule scanned_source [OF assms(2)])
  have srcs: "scan_all scan_source (map source_values (sort_by le (filter P (t_sources (w_db w)))))
      = Inr (sort_by le (filter P (t_sources (w_db w))))" for le P
    by (rule scan_all_rows) (simp add: scanned_source [OF assms(2)])
  show ?thesis
    unfolding read_defs
    by (intro conjI) (simp_all add: query_rows_ok [OF assms(1)] rows_values scan_rules src srcs)
qed

theorem read_as_scanned_witness:
  "\<exists>w. w = store_run sample_env [OpCreateProject sample_project, OpCreateCostSource sample_source] init_world
     \<and> fst (ListProjects sample_env w)
         = scan_all scan_project (rows_read True sample_env ListProjects_sql [] (w_db w))
     \<and> fst (GetCostSource sample_env ''s1'' w)
         = scan_one scan_source (rows_read False sample_env GetCostSource_sql [VText ''s1''] (w_db w))"
proof -
  let ?w = "store_run sample_env [OpCreateProject sample_project, OpCreateCostSource sample_source] init_world"
  have "\<not> e_fault sample_env (w_calls ?w)" by (simp add: sample_env_def)
  moreover have "configured (w_db ?w)"
    by (rule store_run_configured) (simp add: configured_def init_world_def empty_tables_def)
  ultimately show ?thesis
    using read_as_scanned [of sample_env ?w "''s1''" True] read_as_scanned [of sample_env ?w "''s1''" False] by blast
qed

end
