(* ===== verification/Record_Query.thy ===== *)
theory Record_Query
  imports Scans
begin

text \<open>
  The two queries of \<open>internal/store/sql.go\<close> whose text is put together at run time: \<open>QueryCostRecords\<close> and
  \<open>AggregateCosts\<close>, with the conditions of \<open>buildCostWhere\<close>. A reader takes their tokens to conditions, order, pages
  and totals; \<open>OFFSET\<close> without \<open>LIMIT\<close> is in the grammar of PostgreSQL only.

  Lemmas: whatever the filters and pages, the text is read as what the query asks for; run on named columns and scanned
  it gives what the methods of \<open>Store\<close> return. The order of records with equal start times, which SQL leaves open, is
  that of the table in both.
\<close>

section \<open>Texts put together\<close>

definition tokens_at :: "nat \<Rightarrow> string \<Rightarrow> token list" where
  "tokens_at n s = toks False [] (read_holes False n s)"

lemma read_holes_append:
  "CHR 0x27 \<notin> set a \<Longrightarrow>
   read_holes False n (a @ c) = read_holes False n a @ read_holes False (n + count_holes False a) c"
  by (induction a arbitrary: n) auto

lemma no_quote_pieces: "CHR 0x27 \<notin> set a \<Longrightarrow> Letter CHR 0x27 \<notin> set (read_holes False n a)"
  by (induction a arbitrary: n) auto

lemma toks_append:
  "Letter CHR 0x27 \<notin> set ps \<Longrightarrow>
   toks False w (ps @ Letter CHR '' '' # qs) = toks False w ps @ toks False [] qs"
proof (induction ps arbitrary: w)
  case (Cons p ps)
  then show ?case by (cases p) auto
qed simp

text \<open>A space ends a token: the tokens of two texts with a space between are those of both.\<close>

lemma tokens_append:
  "CHR 0x27 \<notin> set a \<Longrightarrow>
   tokens_at n (a @ CHR '' '' # c) = tokens_at n a @ tokens_at (n + count_holes False a) c"
  by (simp add: tokens_at_def read_holes_append toks_append no_quote_pieces)

lemma tokens_digits:
  assumes "list_all is_digit s" and "s \<noteq> []"
  shows "tokens_at n s = [Name s]"
proof -
  have "toks False w (read_holes False n t) = flush (rev t @ w)" if "list_all is_digit t" for t w
    using that
  proof (induction t arbitrary: w)
    case (Cons ch t)
    then have "ch \<notin> {CHR 0x27, CHR ''?'', CHR '' '', CHR ''('', CHR '')'', CHR '','', CHR ''=''}"
      by (auto simp: is_digit_def)
    with Cons show ?case by simp
  qed simp
  with assms show ?thesis by (simp add: tokens_at_def flush_def)
qed

section \<open>Conditions\<close>

datatype test = Same | AtLeast | AtMost

definition test_item :: "token list \<Rightarrow> (string \<times> test \<times> nat) option" where
  "test_item ts =
     (case ts of
        Name c # e # es \<Rightarrow>
          (case last (e # es) of
             Arg n \<Rightarrow>
               if butlast (e # es) = [Sym CHR ''=''] then Some (c, Same, n)
               else if butlast (e # es) = [Name ''>'', Sym CHR ''=''] then Some (c, AtLeast, n)
               else if butlast (e # es) = [Name ''<'', Sym CHR ''=''] then Some (c, AtMost, n)
               else None
           | _ \<Rightarrow> None)
      | _ \<Rightarrow> None)"

definition parse_tests :: "token list \<Rightarrow> (string \<times> test \<times> nat) list option" where
  "parse_tests ts =
     (if ts = [] then Some []
      else Option.bind (after_keyword [''WHERE''] ts) (items (Name ''AND'') test_item))"

fun cond_test :: "cost_cond \<Rightarrow> nat \<Rightarrow> string \<times> test \<times> nat" where
  "cond_test (CondProject _) n = (''project_id'', Same, n)"
| "cond_test (CondSource _) n = (''cost_source_id'', Same, n)"
| "cond_test (CondProvider _) n = (''provider'', Same, n)"
| "cond_test (CondService _) n = (''service'', Same, n)"
| "cond_test (CondStart _) n = (''start_time'', AtLeast, n)"
| "cond_test (CondEnd _) n = (''end_time'', AtMost, n)"

fun cond_tests :: "nat \<Rightarrow> cost_cond list \<Rightarrow> (string \<times> test \<times> nat) list" where
  "cond_tests n [] = []"
| "cond_tests n (c # cs) = cond_test c n # cond_tests (Suc n) cs"

lemma cond_tokens:
  "test_item (tokens_at n (cond_text c)) = Some (cond_test c n)"
  "Name ''AND'' \<notin> set (tokens_at n (cond_text c))" "Name ''ORDER'' \<notin> set (tokens_at n (cond_text c))"
  by (cases c; simp add: tokens_at_def flush_def test_item_def)+

lemma split_on_absent: "x \<notin> set a \<Longrightarrow> split_on x a = [a]"
  by (induction a) auto

lemma split_on_first: "x \<notin> set a \<Longrightarrow> split_on x (a @ x # b) = a # split_on x b"
  by (induction a) auto

text \<open>The conditions joined with \<open>AND\<close>, from the hole \<open>n\<close> on, are read back one by one.\<close>

lemma joined_tests:
  "cs \<noteq> [] \<Longrightarrow> items (Name ''AND'') test_item (tokens_at n (Join (map cond_text cs) '' AND '')) = Some (cond_tests n cs)
     \<and> Name ''ORDER'' \<notin> set (tokens_at n (Join (map cond_text cs) '' AND ''))"
proof (induction cs arbitrary: n rule: induct_list012)
  case (2 c)
  then show ?case by (simp add: items_def split_on_absent cond_tokens)
next
  case (3 c c' cs)
  let ?rest = "Join (map cond_text (c' # cs)) '' AND ''"
  have and_token: "tokens_at m ''AND'' = [Name ''AND'']" for m by (simp add: tokens_at_def flush_def)
  have "tokens_at n (cond_text c @ CHR '' '' # ''AND'' @ CHR '' '' # ?rest)
      = tokens_at n (cond_text c) @ Name ''AND'' # tokens_at (Suc n) ?rest"
    using tokens_append [of "''AND''" "Suc n" ?rest]
    by (simp add: tokens_append and_token del: append.simps list.map Join.simps)
  moreover have "Join (map cond_text (c # c' # cs)) '' AND ''
      = cond_text c @ CHR '' '' # ''AND'' @ CHR '' '' # ?rest"
    by simp
  ultimately have "tokens_at n (Join (map cond_text (c # c' # cs)) '' AND '')
      = tokens_at n (cond_text c) @ Name ''AND'' # tokens_at (Suc n) ?rest"
    by (simp only:)
  with "3.IH"(2) [of "Suc n"] show ?case
    by (simp add: items_def split_on_first cond_tokens del: Join.simps list.map) (simp add: cond_tokens)
qed simp

section \<open>The query of cost records\<close>

text \<open>Its columns, conditions, the column it is ordered by, newest first, and its \<open>LIMIT\<close> and \<open>OFFSET\<close>.\<close>

datatype record_query = Records "string list" "(string \<times> test \<times> nat) list" string "nat option" "nat option"

definition number_item :: "token list \<Rightarrow> nat option" where
  "number_item ts = (case ts of [Name s] \<Rightarrow> if list_all is_digit s then Some (parse_nat s) else None | _ \<Rightarrow> None)"

text \<open>\<open>alone\<close>: the grammar has \<open>OFFSET\<close> without \<open>LIMIT\<close>, as that of PostgreSQL has and that of SQLite has not.\<close>

definition parse_offset :: "token list \<Rightarrow> nat option option" where
  "parse_offset ts =
     (if ts = [] then Some None
      else Option.bind (after_keyword [''OFFSET''] ts) (\<lambda>ts. map_option Some (number_item ts)))"

definition parse_paging :: "bool \<Rightarrow> token list \<Rightarrow> (nat option \<times> nat option) option" where
  "parse_paging alone ts =
     (case after_keyword [''LIMIT''] ts of
        Some ts \<Rightarrow>
          Option.bind (number_item (take 1 ts)) (\<lambda>l. map_option (Pair (Some l)) (parse_offset (drop 1 ts)))
      | None \<Rightarrow> if alone \<or> ts = [] then map_option (Pair None) (parse_offset ts) else None)"

definition parse_records :: "bool \<Rightarrow> token list \<Rightarrow> record_query option" where
  "parse_records alone ts =
     Option.bind (after_keyword [''SELECT''] ts) (\<lambda>ts.
     Option.bind (items (Sym CHR '','') name_item (takeWhile (\<lambda>x. x \<noteq> Name ''FROM'') ts)) (\<lambda>cols.
     Option.bind (after_keyword [''FROM'', ''cost_records''] (dropWhile (\<lambda>x. x \<noteq> Name ''FROM'') ts)) (\<lambda>ts.
     Option.bind (parse_tests (takeWhile (\<lambda>x. x \<noteq> Name ''ORDER'') ts)) (\<lambda>tests.
     Option.bind (after_keyword [''ORDER'', ''BY''] (dropWhile (\<lambda>x. x \<noteq> Name ''ORDER'') ts)) (\<lambda>ts.
     Option.bind (name_item (take 1 ts)) (\<lambda>c.
     Option.bind (after_keyword [''DESC''] (drop 1 ts)) (\<lambda>ts.
       map_option (\<lambda>(l, f). Records cols tests c l f) (parse_paging alone ts))))))))"

section \<open>The query of totals\<close>

datatype sum_of = SumOrZero string | CountAll

datatype totals_query = Totals "sum_of list" "(string \<times> test \<times> nat) list"

text \<open>The columns of the result, \<open>COALESCE(SUM(column),0)\<close> or \<open>COUNT(*)\<close>, between commas outside parentheses.\<close>

fun split_top :: "nat \<Rightarrow> token list \<Rightarrow> token list list" where
  "split_top k [] = [[]]"
| "split_top k (x # xs) =
     (if x = Sym CHR '','' \<and> k = 0 then [] # split_top 0 xs
      else (case split_top (if x = Sym CHR ''('' then Suc k else if x = Sym CHR '')'' then k - 1 else k) xs of
              [] \<Rightarrow> [[x]] | z # zs \<Rightarrow> (x # z) # zs))"

definition total_item :: "token list \<Rightarrow> sum_of option" where
  "total_item ts =
     (if ts = [Name ''COUNT'', Sym CHR ''('', Name ''*'', Sym CHR '')''] then Some CountAll
      else if take 4 ts = [Name ''COALESCE'', Sym CHR ''('', Name ''SUM'', Sym CHR ''('']
              \<and> drop 5 ts = [Sym CHR '')'', Sym CHR '','', Name ''0'', Sym CHR '')'']
        then map_option SumOrZero (name_item (take 1 (drop 4 ts)))
      else None)"

definition parse_totals :: "token list \<Rightarrow> sum_of list option" where
  "parse_totals ts = those (map total_item (split_top 0 ts))"

definition parse_aggregate :: "token list \<Rightarrow> totals_query option" where
  "parse_aggregate ts =
     Option.bind (after_keyword [''SELECT''] ts) (\<lambda>ts.
     Option.bind (parse_totals (takeWhile (\<lambda>x. x \<noteq> Name ''FROM'') ts)) (\<lambda>cols.
     Option.bind (after_keyword [''FROM'', ''cost_records''] (dropWhile (\<lambda>x. x \<noteq> Name ''FROM'') ts)) (\<lambda>ts.
       map_option (Totals cols) (parse_tests ts))))"

definition summed :: "sum_of list" where
  "summed = [SumOrZero ''list_cost'', SumOrZero ''net_cost'', SumOrZero ''amortized_cost'',
     SumOrZero ''amortized_net_cost'', CountAll]"

section \<open>The two texts read\<close>

text \<open>What the texts \<open>buildCostWhere\<close> and \<open>QueryCostRecords\<close> put together are read as.\<close>

definition record_columns :: "string list" where
  "record_columns = schema_columns ''cost_records''"

definition limit_of :: "int \<Rightarrow> nat option" where
  "limit_of n = (if n > 0 then Some (nat n) else None)"

definition asked :: "cost_query \<Rightarrow> record_query" where
  "asked q = Records record_columns (cond_tests 0 (cost_conditions q)) ''start_time''
     (limit_of (q_limit q)) (limit_of (q_offset q))"

lemma select_tokens: "\<exists>ts. tokens_at 0 cost_query_select = Name ''SELECT'' # ts @ [Name ''FROM'', Name ''cost_records'']
    \<and> Name ''FROM'' \<notin> set ts \<and> items (Sym CHR '','') name_item ts = Some record_columns \<and> parse_totals ts = None"
proof -
  let ?ts = "butlast (butlast (tl (tokens_at 0 cost_query_select)))"
  have "tokens_at 0 cost_query_select = Name ''SELECT'' # ?ts @ [Name ''FROM'', Name ''cost_records'']
    \<and> Name ''FROM'' \<notin> set ?ts \<and> items (Sym CHR '','') name_item ?ts = Some record_columns \<and> parse_totals ?ts = None"
    by code_simp
  then show ?thesis by blast
qed

text \<open>The end of the text, from the third word of the order on.\<close>

lemma paging_tokens:
  "\<exists>ts. tokens_at n (''ORDER BY start_time DESC'' @ limit_text q)
      = Name ''ORDER'' # Name ''BY'' # Name ''start_time'' # Name ''DESC'' # ts
    \<and> parse_paging alone ts = (if \<not> alone \<and> q_offset q > 0 \<and> \<not> q_limit q > 0 then None
        else Some (limit_of (q_limit q), limit_of (q_offset q)))"
proof -
  let ?l = "Itoa (nat (q_limit q))" and ?f = "Itoa (nat (q_offset q))"
  have number: "number_item [Name (Itoa k)] = Some k" for k
    using Itoa_digits [of k] by (simp add: number_item_def)
  have digits: "tokens_at m (Itoa k) = [Name (Itoa k)]" for m k
    by (rule tokens_digits) (simp_all add: Itoa_digits)
  have plain: "CHR 0x27 \<notin> set (Itoa k)" "count_holes False (Itoa k) = 0" for k
    using digits_plain [OF Itoa_digits, of k] plain_chars [of "Itoa k"] by auto
  have order: "tokens_at m ''ORDER BY start_time DESC'' = map Name [''ORDER'', ''BY'', ''start_time'', ''DESC'']"
    "tokens_at m ''LIMIT'' = [Name ''LIMIT'']" "tokens_at m ''OFFSET'' = [Name ''OFFSET'']" for m
    by (simp_all add: tokens_at_def flush_def)
  have limit: "tokens_at m (''LIMIT '' @ Itoa k @ c) = Name ''LIMIT'' # tokens_at m (Itoa k @ c)"
    "tokens_at m (''OFFSET '' @ Itoa k @ c) = Name ''OFFSET'' # tokens_at m (Itoa k @ c)" for m k c
    using tokens_append [of "''LIMIT''" m "Itoa k @ c"] tokens_append [of "''OFFSET''" m "Itoa k @ c"] order(2,3) by simp_all
  have offset: "tokens_at m (Itoa k @ '' OFFSET '' @ c) = Name (Itoa k) # Name ''OFFSET'' # tokens_at m c" for m k c
    using tokens_append [of "Itoa k" m "''OFFSET '' @ c"] tokens_append [of "''OFFSET''" m c] plain order(3) digits
    by simp
  have tail: "limit_text q = CHR '' '' # c \<Longrightarrow> tokens_at n (''ORDER BY start_time DESC'' @ limit_text q)
      = map Name [''ORDER'', ''BY'', ''start_time'', ''DESC''] @ tokens_at n c" for c
    using tokens_append [of "''ORDER BY start_time DESC''" n c] order(1) [of n] by simp
  note defs = limit_text_def parse_paging_def parse_offset_def after_keyword_def limit_of_def number
  consider (none) "\<not> q_limit q > 0" "\<not> q_offset q > 0" | (l) "q_limit q > 0" "\<not> q_offset q > 0"
    | (f) "\<not> q_limit q > 0" "q_offset q > 0" | (both) "q_limit q > 0" "q_offset q > 0" by blast
  then show ?thesis
  proof cases
    case none
    then show ?thesis using order(1) [of n] by (simp add: defs)
  next
    case l
    then show ?thesis using tail [of "''LIMIT '' @ ?l"] limit(1) [of n "nat (q_limit q)" "[]"] digits by (simp add: defs)
  next
    case f
    then show ?thesis using tail [of "''OFFSET '' @ ?f"] limit(2) [of n "nat (q_offset q)" "[]"] digits by (simp add: defs)
  next
    case both
    then show ?thesis
      using tail [of "''LIMIT '' @ ?l @ '' OFFSET '' @ ?f"] limit(1) [of n "nat (q_limit q)" "'' OFFSET '' @ ?f"] offset digits
      by (simp add: defs)
  qed
qed

lemma where_tokens:
  assumes "CHR 0x27 \<notin> set s" and "count_holes False s = 0"
  shows "\<exists>ts. tokens_at 0 (s @ fst (buildCostWhere q)) = tokens_at 0 s @ ts
    \<and> Name ''ORDER'' \<notin> set ts \<and> parse_tests ts = Some (cond_tests 0 (cost_conditions q))"
proof (cases "cost_conditions q = []")
  case True
  then show ?thesis
    by (intro exI [of _ "[]"]) (simp add: buildCostWhere_def parse_tests_def)
next
  case False
  let ?cs = "cost_conditions q"
  let ?join = "Join (map cond_text ?cs) '' AND ''"
  have wh: "fst (buildCostWhere q) = CHR '' '' # ''WHERE'' @ CHR '' '' # ?join"
    using False by (simp add: buildCostWhere_def Let_def)
  have word: "tokens_at 0 ''WHERE'' = [Name ''WHERE'']" by (simp add: tokens_at_def flush_def)
  have "tokens_at 0 (s @ CHR '' '' # ''WHERE'' @ CHR '' '' # ?join) = tokens_at 0 s @ Name ''WHERE'' # tokens_at 0 ?join"
    using tokens_append [of s 0 "''WHERE'' @ CHR '' '' # ?join"] tokens_append [of "''WHERE''" 0 ?join] assms word
    by simp
  with joined_tests [OF False, of 0] wh show ?thesis
    by (intro exI [of _ "Name ''WHERE'' # tokens_at 0 ?join"]) (simp add: parse_tests_def after_keyword_def)
qed

text \<open>The text is read as what the query asks for, whatever values the query has.\<close>

lemma query_read:
  "parse_records alone (tokens_at 0 (cost_query_text q))
     = (if \<not> alone \<and> q_offset q > 0 \<and> \<not> q_limit q > 0 then None else Some (asked q))" (is ?records)
  "parse_aggregate (tokens_at 0 (cost_query_text q)) = None" (is ?aggregate)
proof -
  let ?c = "''ORDER BY start_time DESC'' @ limit_text q"
  let ?n = "length (snd (buildCostWhere q))"
  obtain ts where "tokens_at 0 (cost_query_select @ fst (buildCostWhere q)) = tokens_at 0 cost_query_select @ ts"
    and tests: "Name ''ORDER'' \<notin> set ts" "parse_tests ts = Some (cond_tests 0 (cost_conditions q))"
    using where_tokens [OF fixed_texts(1,3)] by blast
  then have ts: "tokens_at 0 ((cost_query_select @ fst (buildCostWhere q)) @ CHR '' '' # ?c)
      = tokens_at 0 cost_query_select @ ts @ tokens_at ?n ?c"
    using tokens_append [of "cost_query_select @ fst (buildCostWhere q)" 0 ?c] where_plain [of q] fixed_texts
    by (simp add: count_holes_append)
  obtain ps where ps: "tokens_at ?n ?c
      = Name ''ORDER'' # Name ''BY'' # Name ''start_time'' # Name ''DESC'' # ps"
    and paging: "parse_paging alone ps = (if \<not> alone \<and> q_offset q > 0 \<and> \<not> q_limit q > 0 then None
        else Some (limit_of (q_limit q), limit_of (q_offset q)))"
    using paging_tokens by blast
  obtain cs where cs: "tokens_at 0 cost_query_select = Name ''SELECT'' # cs @ [Name ''FROM'', Name ''cost_records'']"
    and cols: "Name ''FROM'' \<notin> set cs" "items (Sym CHR '','') name_item cs = Some record_columns"
      "parse_totals cs = None"
    using select_tokens by blast
  have "tokens_at 0 (cost_query_text q) = Name ''SELECT'' # cs @ Name ''FROM'' # Name ''cost_records'' # ts
      @ Name ''ORDER'' # Name ''BY'' # Name ''start_time'' # Name ''DESC'' # ps"
    using ts ps cs by (simp add: cost_query_text_def)
  moreover have "takeWhile (\<lambda>x. x \<noteq> Name ''FROM'') (cs @ Name ''FROM'' # r) = cs"
    "dropWhile (\<lambda>x. x \<noteq> Name ''FROM'') (cs @ Name ''FROM'' # r) = Name ''FROM'' # r" for r
    using cols(1) by (induction cs) auto
  moreover have "takeWhile (\<lambda>x. x \<noteq> Name ''ORDER'') (ts @ Name ''ORDER'' # r) = ts"
    "dropWhile (\<lambda>x. x \<noteq> Name ''ORDER'') (ts @ Name ''ORDER'' # r) = Name ''ORDER'' # r" for r
    using tests(1) by (induction ts) auto
  ultimately show ?records and ?aggregate
    by (simp_all add: parse_records_def parse_aggregate_def after_keyword_def cols(2,3) tests(2) name_item_def paging asked_def)
qed

lemma aggregate_tokens: "\<exists>ts. tokens_at 0 aggregate_select = Name ''SELECT'' # ts @ [Name ''FROM'', Name ''cost_records'']
    \<and> Name ''FROM'' \<notin> set ts \<and> parse_totals ts = Some summed \<and> items (Sym CHR '','') name_item ts = None"
proof -
  let ?ts = "butlast (butlast (tl (tokens_at 0 aggregate_select)))"
  have "tokens_at 0 aggregate_select = Name ''SELECT'' # ?ts @ [Name ''FROM'', Name ''cost_records'']
    \<and> Name ''FROM'' \<notin> set ?ts \<and> parse_totals ?ts = Some summed \<and> items (Sym CHR '','') name_item ?ts = None"
    by code_simp
  then show ?thesis by blast
qed

text \<open>So is the text of the query of totals.\<close>

lemma totals_read_as:
  "parse_aggregate (tokens_at 0 (aggregate_text q)) = Some (Totals summed (cond_tests 0 (cost_conditions q)))"
  "parse_records alone (tokens_at 0 (aggregate_text q)) = None"
proof -
  obtain ts where ts: "tokens_at 0 (aggregate_text q) = tokens_at 0 aggregate_select @ ts"
    and tests: "parse_tests ts = Some (cond_tests 0 (cost_conditions q))"
    using where_tokens [OF fixed_texts(4,6)] unfolding aggregate_text_def by blast
  obtain cs where cs: "tokens_at 0 aggregate_select = Name ''SELECT'' # cs @ [Name ''FROM'', Name ''cost_records'']"
    and cols: "Name ''FROM'' \<notin> set cs" "parse_totals cs = Some summed" "items (Sym CHR '','') name_item cs = None"
    using aggregate_tokens by blast
  have "takeWhile (\<lambda>x. x \<noteq> Name ''FROM'') (cs @ Name ''FROM'' # r) = cs"
    "dropWhile (\<lambda>x. x \<noteq> Name ''FROM'') (cs @ Name ''FROM'' # r) = Name ''FROM'' # r" for r
    using cols(1) by (induction cs) auto
  with ts cs cols tests show "parse_aggregate (tokens_at 0 (aggregate_text q)) = Some (Totals summed (cond_tests 0 (cost_conditions q)))"
    and "parse_records alone (tokens_at 0 (aggregate_text q)) = None"
    by (simp_all add: parse_aggregate_def parse_records_def after_keyword_def)
qed

section \<open>Running it\<close>

definition meets :: "test \<Rightarrow> sql_value \<Rightarrow> sql_value \<Rightarrow> bool" where
  "meets t v a =
     (case t of
        Same \<Rightarrow> v = a \<and> v \<noteq> VNull
      | AtLeast \<Rightarrow> (case (v, a) of (VTime x, VTime y) \<Rightarrow> x \<ge> y | _ \<Rightarrow> False)
      | AtMost \<Rightarrow> (case (v, a) of (VTime x, VTime y) \<Rightarrow> x \<le> y | _ \<Rightarrow> False))"

definition tests_hold :: "env \<Rightarrow> sql_value list \<Rightarrow> (string \<times> test \<times> nat) list \<Rightarrow> named_row \<Rightarrow> bool" where
  "tests_hold e args tests r = list_all (\<lambda>(c, t, n). meets t (column r c) (column_keeps e c (args ! n))) tests"

definition newest_first :: "string \<Rightarrow> named_row list \<Rightarrow> named_row list" where
  "newest_first c = sort_by (\<lambda>r r'. case (column r c, column r' c) of (VTime a, VTime b) \<Rightarrow> a \<ge> b | _ \<Rightarrow> True)"

definition paged :: "nat option \<Rightarrow> nat option \<Rightarrow> 'a list \<Rightarrow> 'a list" where
  "paged l f xs =
     (let xs = (case f of None \<Rightarrow> xs | Some n \<Rightarrow> drop n xs) in case l of None \<Rightarrow> xs | Some n \<Rightarrow> take n xs)"

fun run_records :: "env \<Rightarrow> record_query \<Rightarrow> sql_value list \<Rightarrow> named_tables \<Rightarrow> sql_value list list" where
  "run_records e (Records cols tests c l f) args g =
     map (\<lambda>r. map (column r) cols) (paged l f (newest_first c (filter (tests_hold e args tests) (g ''cost_records''))))"

fun arg_value :: "sql_arg \<Rightarrow> sql_value" where
  "arg_value (ArgText s) = VText s"
| "arg_value (ArgTime t) = VTime t"

definition reals :: "string \<Rightarrow> named_row list \<Rightarrow> float64 list" where
  "reals c rows = List.map_filter (\<lambda>r. real_in (column r c)) rows"

fun total_value :: "env \<Rightarrow> named_row list \<Rightarrow> sum_of \<Rightarrow> sql_value" where
  "total_value e rows (SumOrZero c) = VReal (if reals c rows = [] then Fin 0 else e_sum e (reals c rows))"
| "total_value e rows CountAll = VInt (length rows)"

fun run_totals :: "env \<Rightarrow> totals_query \<Rightarrow> sql_value list \<Rightarrow> named_tables \<Rightarrow> sql_value list list" where
  "run_totals e (Totals cols tests) args g =
     [map (total_value e (filter (tests_hold e args tests) (g ''cost_records''))) cols]"

text \<open>An engine for both queries.\<close>

definition record_engine ::
  "bool \<Rightarrow> env \<Rightarrow> (named_tables, unit, piece list, sql_value, sql_value list list) engine"
where
  "record_engine alone e = (table_engine e)\<lparr>
     en_query := \<lambda>p args g.
       (let ts = toks False [] p in
        case parse_records alone ts of
          Some q \<Rightarrow> (Inr (run_records e q args g), g)
        | None \<Rightarrow>
            (case parse_aggregate ts of
               Some q \<Rightarrow> (Inr (run_totals e q args g), g)
             | None \<Rightarrow> (Inl ''syntax error'', g)))\<rparr>"

definition record_db where
  "record_db pgx e = (if pgx then pgx_db (record_engine True e) else sqlite_db (record_engine False e))"

definition records_read :: "bool \<Rightarrow> env \<Rightarrow> cost_query \<Rightarrow> tables \<Rightarrow> string + sql_value list list" where
  "records_read pgx e q d =
     fst (QueryContext (record_db pgx e) (cost_query_text q) (map arg_value (snd (buildCostWhere q))) (named d))"

definition totals_read :: "bool \<Rightarrow> env \<Rightarrow> cost_query \<Rightarrow> tables \<Rightarrow> string + sql_value list list" where
  "totals_read pgx e q d =
     fst (QueryRowContext (record_db pgx e) (aggregate_text q) (map arg_value (snd (buildCostWhere q))) (named d))"

definition record_values :: "cost_record \<Rightarrow> sql_value list" where
  "record_values r = map (column (record_row r)) record_columns"

lemma records_read_asked:
  "records_read pgx e q d = (if \<not> pgx \<and> q_offset q > 0 \<and> \<not> q_limit q > 0 then Inl ''syntax error''
     else Inr (run_records e (asked q) (map arg_value (snd (buildCostWhere q))) (named d)))"
proof -
  have "read_params False (rebind ''pgx'' (cost_query_text q)) = read_holes False 0 (cost_query_text q)"
    by (rule read_rebound) (simp add: cost_query_text_plain)
  then show ?thesis
    using query_read(1) [of True q] query_read(1) [of False q] query_read(2) [of q]
    by (simp add: records_read_def record_db_def wrapper_defs record_engine_def rebind_sqlite tokens_at_def Let_def)
qed

lemma totals_read_asked:
  "totals_read pgx e q d = Inr (run_totals e (Totals summed (cond_tests 0 (cost_conditions q)))
     (map arg_value (snd (buildCostWhere q))) (named d))"
proof -
  have "read_params False (rebind ''pgx'' (aggregate_text q)) = read_holes False 0 (aggregate_text q)"
    by (rule read_rebound) (simp add: aggregate_text_plain)
  then show ?thesis
    using totals_read_as(1) [of q] totals_read_as(2) [of True q] totals_read_as(2) [of False q]
    by (simp add: totals_read_def record_db_def wrapper_defs record_engine_def rebind_sqlite tokens_at_def Let_def)
qed

text \<open>Conditions, order and pages on named rows are those on records.\<close>

lemma tests_meaning:
  "tests_hold e (pre @ map (\<lambda>c. arg_value (cond_arg c)) cs) (cond_tests (length pre) cs) (record_row r)
     \<longleftrightarrow> (\<forall>c \<in> set cs. cond_holds (keep_cond e c) r)"
proof (induction cs arbitrary: pre)
  case (Cons c cs)
  have "tests_hold e ((pre @ [arg_value (cond_arg c)]) @ map (\<lambda>c. arg_value (cond_arg c)) cs)
      (cond_tests (Suc (length pre)) cs) (record_row r) \<longleftrightarrow> (\<forall>c \<in> set cs. cond_holds (keep_cond e c) r)"
    using Cons.IH [of "pre @ [arg_value (cond_arg c)]"] by simp
  then show ?case
    by (cases c) (auto simp: tests_hold_def meets_def row_eqs nth_append)
qed (simp add: tests_hold_def)

lemma newest_rows:
  "newest_first ''start_time'' (map record_row rs) = map record_row (sort_key (\<lambda>r. - cr_start r) rs)"
proof -
  have insort: "insort_by (\<lambda>a b. cr_start b \<le> cr_start a) = insort_key (\<lambda>r. - cr_start r)"
  proof (intro ext)
    show "insort_by (\<lambda>a b. cr_start b \<le> cr_start a) x ys = insort_key (\<lambda>r. - cr_start r) x ys" for x ys
      by (induction ys) auto
  qed
  have "sort_by (\<lambda>a b. cr_start b \<le> cr_start a) rs = sort_key (\<lambda>r. - cr_start r) rs"
    by (induction rs) (simp_all add: sort_key_def insort)
  then show ?thesis
    by (simp add: newest_first_def row_eqs sort_by_map [where le = "\<lambda>a b. cr_start b \<le> cr_start a"])
qed

lemma paged_page: "paged (limit_of l) (limit_of f) xs = page l f xs"
  by (simp add: paged_def page_def limit_of_def Let_def)

lemma paged_map: "paged l f (map h xs) = map h (paged l f xs)"
  by (simp add: paged_def drop_map take_map Let_def split: option.splits)

lemma tests_rows:
  "filter (tests_hold e (map arg_value (snd (buildCostWhere q))) (cond_tests 0 (cost_conditions q)))
     (map record_row (t_records d)) = map record_row (where_rows e q d)"
proof -
  have "map arg_value (snd (buildCostWhere q)) = map (\<lambda>c. arg_value (cond_arg c)) (cost_conditions q)"
    by (simp add: buildCostWhere_def Let_def comp_def)
  then show ?thesis
    using tests_meaning [of e "[]" "cost_conditions q"] by (simp add: where_rows_def filter_map comp_def)
qed

lemma asked_rows:
  "run_records e (asked q) (map arg_value (snd (buildCostWhere q))) (named d)
     = map record_values (page (q_limit q) (q_offset q) (sort_key (\<lambda>r. - cr_start r) (where_rows e q d)))"
  by (simp add: asked_def named_tables tests_rows newest_rows paged_map paged_page record_values_def [abs_def] comp_def)

section \<open>Reading the rows\<close>

text \<open>\<open>Scan\<close> of a whole record, and the loop of \<open>QueryCostRecords\<close>, which decodes the labels row by row.\<close>

definition scan_record :: "sql_value list \<Rightarrow> cost_record option" where
  "scan_record vs =
     (if length vs \<noteq> 21 then None
      else case (those (map text_in (take 12 vs)), those (map time_in (take 2 (drop 12 vs))),
                 those (map real_in (take 4 (drop 14 vs))), text_in (vs ! 18), json_in (vs ! 19), real_in (vs ! 20)) of
        (Some ts, Some ds, Some cs, Some cur, Some labels, Some k) \<Rightarrow>
          Some \<lparr>cr_id = ts ! 0, cr_project = ts ! 1, cr_source = ts ! 2, cr_provider = ts ! 3, cr_provider_id = ts ! 4,
            cr_account_id = ts ! 5, cr_account_name = ts ! 6, cr_invoice = ts ! 7, cr_service = ts ! 8,
            cr_category = ts ! 9, cr_region = ts ! 10, cr_zone = ts ! 11, cr_start = ds ! 0, cr_end = ds ! 1,
            cr_list = cs ! 0, cr_net = cs ! 1, cr_amortized = cs ! 2, cr_amortized_net = cs ! 3, cr_currency = cur,
            cr_labels = None, cr_labels_json = labels, cr_k8s_percent = k\<rparr>
      | _ \<Rightarrow> None)"

fun read_records :: "sql_value list list \<Rightarrow> store_error + cost_record list" where
  "read_records [] = Inr []"
| "read_records (vs # rows) =
     (case scan_record vs of
        None \<Rightarrow> Inl DriverError
      | Some r \<Rightarrow>
          if cr_labels_json r \<noteq> JObj [] then
            (case unmarshal_labels (cr_labels_json r) of
               None \<Rightarrow> Inl (LabelsError (cr_id r))
             | Some m \<Rightarrow> map_sum id (Cons (r\<lparr>cr_labels := m\<rparr>)) (read_records rows))
          else map_sum id (Cons r) (read_records rows))"

lemma record_scanned:
  assumes "cr_labels r = None"
  shows "scan_record (record_values r) = Some r"
proof -
  have "scan_record (record_values r) = Some (r\<lparr>cr_labels := None\<rparr>)"
    by (simp add: record_values_def record_columns_def schema_columns_def row_eqs scan_record_def numeral_eq_Suc)
  with assms show ?thesis by simp
qed

text \<open>The records in the table have their labels in the column, not in the field.\<close>

definition labels_in_column :: "tables \<Rightarrow> bool" where
  "labels_in_column d = list_all (\<lambda>r. cr_labels r = None) (t_records d)"

lemma records_scanned:
  "list_all (\<lambda>r. cr_labels r = None) rs \<Longrightarrow> read_records (map record_values rs) = scan_records rs"
  by (induction rs) (simp_all add: record_scanned split: option.split)

lemma sent_labels: "typed_stmt e x d = Inr d' \<Longrightarrow> labels_in_column d \<Longrightarrow> labels_in_column d'"
  by (cases x) (auto simp: labels_in_column_def list_all_iff update_rows_def delete_rows_def cascade_sources_def
      stmt_insert_project_def stmt_insert_source_def stmt_insert_user_def stmt_insert_group_def stmt_insert_member_def
      stmt_upsert_role_def stmt_insert_budget_def stmt_insert_record_def stmt_update_project_def
      stmt_update_source_def stmt_update_collected_def stmt_update_budget_def stmt_delete_project_def
      stmt_delete_source_def stmt_delete_member_def stmt_delete_role_def stmt_delete_budget_def split: if_splits)

lemma store_run_labels: "labels_in_column (w_db w) \<Longrightarrow> labels_in_column (w_db (store_run e ops w))"
  using store_run_sent [where P = labels_in_column] sent_labels by blast

text \<open>The totals of named rows are those of records.\<close>

lemma reals_rows:
  "reals ''list_cost'' (map record_row rs) = map cr_list rs" "reals ''net_cost'' (map record_row rs) = map cr_net rs"
  "reals ''amortized_cost'' (map record_row rs) = map cr_amortized rs"
  "reals ''amortized_net_cost'' (map record_row rs) = map cr_amortized_net rs"
  by (induction rs) (simp_all add: reals_def row_eqs map_filter_simps)

definition scan_summary :: "sql_value list \<Rightarrow> cost_summary option" where
  "scan_summary vs =
     (case vs of
        [a, b, c, d, n] \<Rightarrow>
          (case (real_in a, real_in b, real_in c, real_in d, n) of
             (Some a, Some b, Some c, Some d, VInt n) \<Rightarrow>
               Some \<lparr>sum_list_cost = a, sum_net_cost = b, sum_amortized = c, sum_amortized_net = d, sum_count = n\<rparr>
           | _ \<Rightarrow> None)
      | _ \<Rightarrow> None)"

definition read_summary :: "sql_value list list \<Rightarrow> store_error + cost_summary" where
  "read_summary rows =
     (case rows of
        [] \<Rightarrow> Inl DriverError
      | vs # _ \<Rightarrow> (case scan_summary vs of None \<Rightarrow> Inl DriverError | Some s \<Rightarrow> Inr s))"

section \<open>Reads of cost records\<close>

text \<open>
  C25: What the store reads of the cost records is what the texts put together at run time, their arguments, and the
  \<open>Scan\<close> calls say: for every combination of filters and pages the text is read on both database systems as those
  conditions over those columns, newest first, and the rows it selects, scanned and their labels decoded, are the
  answer, an \<open>OFFSET\<close> without \<open>LIMIT\<close> being an error on SQLite alone; the totals are the sums of the same rows.
\<close>

theorem cost_records_as_scanned:
  assumes "\<not> e_fault e (w_calls w)" and "labels_in_column (w_db w)"
  shows "fst (QueryCostRecords e q w) = (case records_read (e_driver e = ''pgx'') e q (w_db w) of
           Inl err \<Rightarrow> Inl SyntaxError | Inr rows \<Rightarrow> read_records rows)
    \<and> fst (AggregateCosts e q w) = (case totals_read (e_driver e = ''pgx'') e q (w_db w) of
           Inl err \<Rightarrow> Inl SyntaxError | Inr rows \<Rightarrow> read_summary rows)"
proof -
  let ?rows = "page (q_limit q) (q_offset q) (sort_key (\<lambda>r. - cr_start r) (where_rows e q (w_db w)))"
  have "set ?rows \<subseteq> set (t_records (w_db w))"
    by (auto simp: page_def where_rows_def Let_def dest!: in_set_takeD in_set_dropD split: if_splits)
  then have "read_records (map record_values ?rows) = scan_records ?rows"
    using assms(2) by (intro records_scanned) (auto simp: labels_in_column_def list_all_iff)
  moreover have "fst (AggregateCosts e q w) = (case totals_read (e_driver e = ''pgx'') e q (w_db w) of
           Inl err \<Rightarrow> Inl SyntaxError | Inr rows \<Rightarrow> read_summary rows)"
    by (simp add: AggregateCosts_def query_rows_ok [OF assms(1)] totals_read_asked named_tables tests_rows summed_def
        reals_rows read_summary_def scan_summary_def coalesce_sum_def Let_def)
  ultimately show ?thesis
    using assms(1) by (simp add: QueryCostRecords_def driver_call_def records_read_asked asked_rows)
qed

theorem cost_records_as_scanned_witness:
  "\<exists>w. w = store_run sample_env [OpCreateProject sample_project, OpCreateCostSource sample_source,
         OpInsertCostRecords [sample_record]] init_world
     \<and> fst (QueryCostRecords sample_env all_query w)
         = (case records_read (e_driver sample_env = ''pgx'') sample_env all_query (w_db w) of
              Inl err \<Rightarrow> Inl SyntaxError | Inr rows \<Rightarrow> read_records rows)"
proof -
  let ?w = "store_run sample_env [OpCreateProject sample_project, OpCreateCostSource sample_source,
    OpInsertCostRecords [sample_record]] init_world"
  have "\<not> e_fault sample_env (w_calls ?w)" by (simp add: sample_env_def)
  moreover have "labels_in_column (w_db ?w)"
    by (rule store_run_labels) (simp add: labels_in_column_def init_world_def empty_tables_def)
  ultimately show ?thesis
    using cost_records_as_scanned [of sample_env ?w all_query] by blast
qed

end
