(* ===== verification/Hub.thy ===== *)
theory Hub
  imports Models "HOL-Library.Transitive_Closure_Table"
begin

text \<open>
  The event hub of \<open>internal/stream/hub.go\<close>, twice: as functions, one per method, on the registered
  clients and their send queues; and as a step relation in which the methods run
  concurrently, with the hub's lock, the window between removing a client and closing its
  channel, and the unlocked write of a client's topics. Sending on a closed channel is a panic, the
  result \<open>None\<close> of the functions and the thread state \<open>Panicked\<close> of the relation.

  A client is its index in the heap of all clients ever registered; messages are the bytes
  \<open>json.Marshal\<close> makes of an event, the function \<open>marshal\<close> of the definitions.
\<close>

section \<open>State\<close>

record 'm client =
  c_topics :: "string list"
  c_queue :: "'m list"
  c_closed :: bool
  c_cancelled :: bool

record 'm hub =
  h_clients :: "nat list"
  h_heap :: "'m client list"

definition NewHub :: "'m hub" where
  "NewHub = \<lparr>h_clients = [], h_heap = []\<rparr>"

definition send_capacity :: nat where
  "send_capacity = 256"

definition new_client :: "'m client" where
  "new_client = \<lparr>c_topics = [], c_queue = [], c_closed = False, c_cancelled = False\<rparr>"

section \<open>The methods\<close>

definition Register :: "'m hub \<Rightarrow> nat \<times> 'm hub" where
  "Register h = (length (h_heap h),
     h\<lparr>h_clients := length (h_heap h) # h_clients h, h_heap := h_heap h @ [new_client]\<rparr>)"

text \<open>\<open>c.cancel()\<close> and \<open>c.closed.Do(close(c.send))\<close>.\<close>

definition shut :: "'m client \<Rightarrow> 'm client" where
  "shut c = c\<lparr>c_cancelled := True, c_closed := True\<rparr>"

definition Unregister :: "nat \<Rightarrow> 'm hub \<Rightarrow> 'm hub" where
  "Unregister c h =
     (let existed = c \<in> set (h_clients h);
          h = h\<lparr>h_clients := filter (\<lambda>x. x \<noteq> c) (h_clients h)\<rparr>
      in if \<not> existed then h else h\<lparr>h_heap := (h_heap h)[c := shut (h_heap h ! c)]\<rparr>)"

definition Len :: "'m hub \<Rightarrow> nat" where
  "Len h = length (h_clients h)"

definition Subscribe :: "string list \<Rightarrow> 'm client \<Rightarrow> 'm client" where
  "Subscribe topics c = c\<lparr>c_topics := fold List.insert topics (c_topics c)\<rparr>"

definition subscribedTo :: "string \<Rightarrow> 'm client \<Rightarrow> bool" where
  "subscribedTo topic c \<longleftrightarrow> c_topics c = [] \<or> topic \<in> set (c_topics c)"

text \<open>The \<open>select\<close> of a send with a default branch: a full queue drops the message.\<close>

definition offer :: "'m \<Rightarrow> 'm client \<Rightarrow> 'm client option" where
  "offer d c =
     (if c_closed c then None
      else if length (c_queue c) < send_capacity then Some (c\<lparr>c_queue := c_queue c @ [d]\<rparr>)
      else Some c)"

fun deliver :: "('m client \<Rightarrow> bool) \<Rightarrow> 'm \<Rightarrow> nat list \<Rightarrow> 'm client list \<Rightarrow> 'm client list option" where
  "deliver wants d [] heap = Some heap"
| "deliver wants d (c # cs) heap =
     (if \<not> wants (heap ! c) then deliver wants d cs heap
      else case offer d (heap ! c) of
        None \<Rightarrow> None
      | Some x \<Rightarrow> deliver wants d cs (heap[c := x]))"

definition Publish :: "(event \<Rightarrow> 'm option) \<Rightarrow> event \<Rightarrow> 'm hub \<Rightarrow> 'm hub option" where
  "Publish marshal e h =
     (case marshal e of
        None \<Rightarrow> Some h
      | Some d \<Rightarrow> map_option (\<lambda>heap. h\<lparr>h_heap := heap\<rparr>)
          (deliver (subscribedTo (ev_topic e)) d (h_clients h) (h_heap h)))"

definition Broadcast :: "(event \<Rightarrow> 'm option) \<Rightarrow> event \<Rightarrow> 'm hub \<Rightarrow> 'm hub option" where
  "Broadcast marshal e h =
     (case marshal e of
        None \<Rightarrow> Some h
      | Some d \<Rightarrow> map_option (\<lambda>heap. h\<lparr>h_heap := heap\<rparr>)
          (deliver (\<lambda>_. True) d (h_clients h) (h_heap h)))"

text \<open>The connection's writer takes the oldest message.\<close>

definition receive :: "nat \<Rightarrow> 'm hub \<Rightarrow> 'm hub" where
  "receive c h = h\<lparr>h_heap := (h_heap h)[c := (h_heap h ! c)\<lparr>c_queue := tl (c_queue (h_heap h ! c))\<rparr>]\<rparr>"

section \<open>Invariant\<close>

definition hub_inv :: "'m hub \<Rightarrow> bool" where
  "hub_inv h \<longleftrightarrow> distinct (h_clients h)
     \<and> (\<forall>c \<in> set (h_clients h). c < length (h_heap h) \<and> \<not> c_closed (h_heap h ! c))
     \<and> (\<forall>x \<in> set (h_heap h). length (c_queue x) \<le> send_capacity)"

lemma hub_inv_new: "hub_inv NewHub"
  by (simp add: hub_inv_def NewHub_def)

lemma Register_inv: "hub_inv h \<Longrightarrow> hub_inv (snd (Register h))"
  by (auto simp: hub_inv_def Register_def new_client_def nth_append send_capacity_def)

lemma queue_bound_update:
  assumes "\<forall>x \<in> set heap. length (c_queue x) \<le> n" and "length (c_queue y) \<le> n"
  shows "\<forall>x \<in> set (heap[c := y]). length (c_queue x) \<le> n"
  using assms set_update_subset_insert [of heap c y] by auto

lemma heap_queue_bound:
  "\<forall>x \<in> set heap. length (c_queue x) \<le> n \<Longrightarrow> c < length heap \<Longrightarrow> length (c_queue (heap ! c)) \<le> n"
  by simp

lemma Unregister_inv: "hub_inv h \<Longrightarrow> hub_inv (Unregister c h)"
proof -
  assume h: "hub_inv h"
  show ?thesis
  proof (cases "c \<in> set (h_clients h)")
    case True
    then have "\<forall>x \<in> set ((h_heap h)[c := shut (h_heap h ! c)]). length (c_queue x) \<le> send_capacity"
      using h by (intro queue_bound_update) (auto simp: hub_inv_def shut_def)
    with h True show ?thesis by (auto simp: hub_inv_def Unregister_def Let_def)
  next
    case False
    with h show ?thesis by (auto simp: hub_inv_def Unregister_def Let_def)
  qed
qed

lemma offer_open: "\<not> c_closed x \<Longrightarrow> offer d x =
    Some (if length (c_queue x) < send_capacity then x\<lparr>c_queue := c_queue x @ [d]\<rparr> else x)"
  by (simp add: offer_def)

definition offered :: "'m \<Rightarrow> 'm client \<Rightarrow> 'm client" where
  "offered d x = (if length (c_queue x) < send_capacity then x\<lparr>c_queue := c_queue x @ [d]\<rparr> else x)"

text \<open>Delivery handles every listed client once, in any order, and no other.\<close>

lemma deliver_spec:
  assumes "distinct cs" and "\<forall>c \<in> set cs. c < length heap \<and> \<not> c_closed (heap ! c)"
  shows "deliver wants d cs heap = Some (map (\<lambda>i. let x = heap ! i in
     if i \<in> set cs \<and> wants x then offered d x else x) [0..<length heap])"
  using assms
proof (induction cs arbitrary: heap)
  case Nil
  then show ?case by (simp add: map_nth)
next
  case (Cons c cs)
  show ?case
  proof (cases "wants (heap ! c)")
    case False
    with Cons show ?thesis by (auto simp: Let_def intro!: map_cong)
  next
    case True
    let ?heap = "heap[c := offered d (heap ! c)]"
    have "offer d (heap ! c) = Some (offered d (heap ! c))"
      using Cons.prems by (simp add: offer_open offered_def)
    then have "deliver wants d (c # cs) heap = deliver wants d cs ?heap"
      using True by simp
    also have "\<dots> = Some (map (\<lambda>i. let x = ?heap ! i in if i \<in> set cs \<and> wants x then offered d x else x)
        [0..<length ?heap])"
      using Cons.prems by (intro Cons.IH) (auto simp: nth_list_update)
    also have "\<dots> = Some (map (\<lambda>i. let x = heap ! i in
        if i \<in> set (c # cs) \<and> wants x then offered d x else x) [0..<length heap])"
      using Cons.prems True by (auto simp: nth_list_update Let_def)
    finally show ?thesis .
  qed
qed

lemma offered_simps [simp]:
  "c_closed (offered d x) = c_closed x" "c_topics (offered d x) = c_topics x"
  "c_cancelled (offered d x) = c_cancelled x"
  "length (c_queue x) \<le> send_capacity \<Longrightarrow> length (c_queue (offered d x)) \<le> send_capacity"
  by (simp_all add: offered_def)

lemma deliver_inv:
  assumes "hub_inv h" and "deliver wants d (h_clients h) (h_heap h) = Some heap"
  shows "hub_inv (h\<lparr>h_heap := heap\<rparr>)"
proof -
  have "heap = map (\<lambda>i. let x = h_heap h ! i in
     if i \<in> set (h_clients h) \<and> wants x then offered d x else x) [0..<length (h_heap h)]"
    using assms deliver_spec [of "h_clients h" "h_heap h" wants d] by (simp add: hub_inv_def)
  with assms(1) show ?thesis by (auto simp: hub_inv_def Let_def)
qed

text \<open>
  C27: publishing never panics; it appends the message to the queue of every registered client that is
  subscribed to the event's topic and has room, and changes nothing else. A full queue drops the message for
  that client only; an event that does not marshal reaches nobody.
\<close>

theorem publish_delivery:
  assumes "hub_inv h"
  shows "\<exists>h'. Publish marshal e h = Some h' \<and> hub_inv h' \<and> h_clients h' = h_clients h
    \<and> length (h_heap h') = length (h_heap h)
    \<and> (\<forall>c < length (h_heap h). h_heap h' ! c =
        (case marshal e of
           None \<Rightarrow> h_heap h ! c
         | Some d \<Rightarrow>
             if c \<in> set (h_clients h) \<and> subscribedTo (ev_topic e) (h_heap h ! c)
                \<and> length (c_queue (h_heap h ! c)) < send_capacity
             then (h_heap h ! c)\<lparr>c_queue := c_queue (h_heap h ! c) @ [d]\<rparr>
             else h_heap h ! c))"
proof (cases "marshal e")
  case None
  with assms show ?thesis by (simp add: Publish_def)
next
  case (Some d)
  let ?heap = "map (\<lambda>i. let x = h_heap h ! i in
     if i \<in> set (h_clients h) \<and> subscribedTo (ev_topic e) x then offered d x else x) [0..<length (h_heap h)]"
  have d: "deliver (subscribedTo (ev_topic e)) d (h_clients h) (h_heap h) = Some ?heap"
    using assms by (intro deliver_spec) (auto simp: hub_inv_def)
  then have "Publish marshal e h = Some (h\<lparr>h_heap := ?heap\<rparr>)"
    using Some by (simp add: Publish_def)
  moreover have "hub_inv (h\<lparr>h_heap := ?heap\<rparr>)" by (rule deliver_inv [OF assms d])
  ultimately show ?thesis using Some by (simp add: offered_def Let_def)
qed

lemma Publish_ok: "hub_inv h \<Longrightarrow> \<exists>h'. Publish marshal e h = Some h' \<and> hub_inv h'"
proof (cases "marshal e")
  case None
  assume "hub_inv h"
  with None show ?thesis by (simp add: Publish_def)
next
  case (Some d)
  assume h: "hub_inv h"
  then obtain heap where d: "deliver (subscribedTo (ev_topic e)) d (h_clients h) (h_heap h) = Some heap"
    using deliver_spec [of "h_clients h" "h_heap h"] by (simp add: hub_inv_def)
  with Some deliver_inv [OF h d] show ?thesis by (simp add: Publish_def)
qed

text \<open>A broadcast reaches every registered client with room, whatever its topics.\<close>

lemma broadcast_delivery:
  assumes "hub_inv h" and "marshal e = Some d"
  shows "Broadcast marshal e h = Some (h\<lparr>h_heap := map (\<lambda>i. let x = h_heap h ! i in
     if i \<in> set (h_clients h) then offered d x else x) [0..<length (h_heap h)]\<rparr>)"
  using assms deliver_spec [of "h_clients h" "h_heap h" "\<lambda>_. True" d]
  by (simp add: Broadcast_def hub_inv_def Let_def)

definition sample_event :: event where
  "sample_event = \<lparr>ev_type = ''t'', ev_topic = TopicBudgetWarning, ev_time = 0, ev_source = ''s'', ev_payload = JNull\<rparr>"

theorem publish_delivery_witness:
  "\<exists>h'. Publish (\<lambda>_. Some (7::nat)) sample_event (snd (Register NewHub)) = Some h' \<and> c_queue (h_heap h' ! 0) = [7]"
proof -
  let ?h = "snd (Register NewHub) :: nat hub"
  have inv: "hub_inv ?h" by (rule Register_inv [OF hub_inv_new])
  have one: "0 < length (h_heap ?h)" "0 \<in> set (h_clients ?h)" "h_heap ?h ! 0 = new_client"
    by (simp_all add: Register_def NewHub_def)
  obtain h' where h': "Publish (\<lambda>_. Some (7::nat)) sample_event ?h = Some h'"
    and q: "\<forall>c < length (h_heap ?h). h_heap h' ! c =
        (if c \<in> set (h_clients ?h) \<and> subscribedTo (ev_topic sample_event) (h_heap ?h ! c)
            \<and> length (c_queue (h_heap ?h ! c)) < send_capacity
         then (h_heap ?h ! c)\<lparr>c_queue := c_queue (h_heap ?h ! c) @ [7]\<rparr>
         else h_heap ?h ! c)"
    using publish_delivery [OF inv, of "\<lambda>_. Some 7" sample_event]
    by (simp only: option.case) (elim exE conjE, rule that; assumption)
  from q one have "c_queue (h_heap h' ! 0) = [7]"
    by (simp add: new_client_def subscribedTo_def send_capacity_def)
  with h' show ?thesis by blast
qed

section \<open>Concurrent runs\<close>

text \<open>
  A thread is idle, or inside a method:
  \<open>Publishing d t cs\<close> holds the read lock and has the clients \<open>cs\<close> left in its loop;
  \<open>Checking\<close> is it reading the topics of the first of them, \<open>Sending\<close> at its \<open>select\<close>;
  \<open>Closing c\<close> has removed \<open>c\<close> under the write lock and released it;
  \<open>Subscribing c ts\<close> is writing topics, under no lock.
\<close>

datatype 'm thread =
    Idle
  | Publishing 'm string "nat list"
  | Checking 'm string nat "nat list"
  | Sending 'm string nat "nat list"
  | Closing nat
  | Subscribing nat "string list"
  | Panicked

fun holds_read_lock :: "'m thread \<Rightarrow> bool" where
  "holds_read_lock (Publishing _ _ _) = True"
| "holds_read_lock (Checking _ _ _ _) = True"
| "holds_read_lock (Sending _ _ _ _) = True"
| "holds_read_lock _ = False"

record 'm sys =
  s_hub :: "'m hub"
  s_threads :: "'m thread list"

definition write_lock_free :: "'m sys \<Rightarrow> bool" where
  "write_lock_free s \<longleftrightarrow> list_all (\<lambda>t. \<not> holds_read_lock t) (s_threads s)"

definition goto :: "nat \<Rightarrow> 'm thread \<Rightarrow> 'm sys \<Rightarrow> 'm sys" where
  "goto i t s = s\<lparr>s_threads := (s_threads s)[i := t]\<rparr>"

definition at_thread :: "'m sys \<Rightarrow> nat \<Rightarrow> 'm thread \<Rightarrow> bool" where
  "at_thread s i t \<longleftrightarrow> i < length (s_threads s) \<and> s_threads s ! i = t"

text \<open>
  The critical sections of \<open>Register\<close> and \<open>Unregister\<close> contain no blocking call and exclude every
  other holder of the lock, so each is one step; it can happen when no thread holds the
  read lock.
\<close>

inductive hub_step :: "'m sys \<Rightarrow> 'm sys \<Rightarrow> bool" where
  register: "at_thread s i Idle \<Longrightarrow> write_lock_free s \<Longrightarrow>
    hub_step s (s\<lparr>s_hub := snd (Register (s_hub s))\<rparr>)"
| unregister_known: "at_thread s i Idle \<Longrightarrow> write_lock_free s \<Longrightarrow> c \<in> set (h_clients (s_hub s)) \<Longrightarrow>
    hub_step s (goto i (Closing c)
      (s\<lparr>s_hub := (s_hub s)\<lparr>h_clients := filter (\<lambda>x. x \<noteq> c) (h_clients (s_hub s))\<rparr>\<rparr>))"
| close: "at_thread s i (Closing c) \<Longrightarrow>
    hub_step s (goto i Idle
      (s\<lparr>s_hub := (s_hub s)\<lparr>h_heap := (h_heap (s_hub s))[c := shut (h_heap (s_hub s) ! c)]\<rparr>\<rparr>))"
| publish: "at_thread s i Idle \<Longrightarrow>
    hub_step s (goto i (Publishing d topic (h_clients (s_hub s))) s)"
| check: "at_thread s i (Publishing d topic (c # cs)) \<Longrightarrow>
    hub_step s (goto i (Checking d topic c cs) s)"
| skip: "at_thread s i (Checking d topic c cs) \<Longrightarrow> \<not> subscribedTo topic (h_heap (s_hub s) ! c) \<Longrightarrow>
    hub_step s (goto i (Publishing d topic cs) s)"
| wanted: "at_thread s i (Checking d topic c cs) \<Longrightarrow> subscribedTo topic (h_heap (s_hub s) ! c) \<Longrightarrow>
    hub_step s (goto i (Sending d topic c cs) s)"
| send: "at_thread s i (Sending d topic c cs) \<Longrightarrow> offer d (h_heap (s_hub s) ! c) = Some x \<Longrightarrow>
    hub_step s (goto i (Publishing d topic cs)
      (s\<lparr>s_hub := (s_hub s)\<lparr>h_heap := (h_heap (s_hub s))[c := x]\<rparr>\<rparr>))"
| send_panic: "at_thread s i (Sending d topic c cs) \<Longrightarrow> offer d (h_heap (s_hub s) ! c) = None \<Longrightarrow>
    hub_step s (goto i Panicked s)"
| unlock: "at_thread s i (Publishing d topic []) \<Longrightarrow> hub_step s (goto i Idle s)"
| subscribe: "at_thread s i Idle \<Longrightarrow> c < length (h_heap (s_hub s)) \<Longrightarrow>
    hub_step s (goto i (Subscribing c topics) s)"
| write_topics: "at_thread s i (Subscribing c topics) \<Longrightarrow>
    hub_step s (goto i Idle
      (s\<lparr>s_hub := (s_hub s)\<lparr>h_heap := (h_heap (s_hub s))[c := Subscribe topics (h_heap (s_hub s) ! c)]\<rparr>\<rparr>))"
| take: "c < length (h_heap (s_hub s)) \<Longrightarrow> c_queue (h_heap (s_hub s) ! c) \<noteq> [] \<Longrightarrow>
    hub_step s (s\<lparr>s_hub := receive c (s_hub s)\<rparr>)"

definition init_sys :: "nat \<Rightarrow> 'm sys" where
  "init_sys n = \<lparr>s_hub = NewHub, s_threads = replicate n Idle\<rparr>"

text \<open>The clients a publisher has still to serve, and those a thread is about to close.\<close>

fun pending :: "'m thread \<Rightarrow> nat list" where
  "pending (Publishing _ _ cs) = cs"
| "pending (Checking _ _ c cs) = c # cs"
| "pending (Sending _ _ c cs) = c # cs"
| "pending _ = []"

fun closing :: "'m thread \<Rightarrow> nat option" where
  "closing (Closing c) = Some c"
| "closing _ = None"

definition sys_inv :: "'m sys \<Rightarrow> bool" where
  "sys_inv s \<longleftrightarrow> hub_inv (s_hub s)
     \<and> (\<forall>t \<in> set (s_threads s). t \<noteq> Panicked \<and> set (pending t) \<subseteq> set (h_clients (s_hub s))
          \<and> (\<forall>c. closing t = Some c \<longrightarrow> c \<notin> set (h_clients (s_hub s)) \<and> c < length (h_heap (s_hub s))))"

lemma pending_lock: "\<not> holds_read_lock t \<Longrightarrow> pending t = []"
  by (cases t) simp_all

lemma nobody_pending: "write_lock_free s \<Longrightarrow> \<forall>t \<in> set (s_threads s). pending t = []"
  by (simp add: write_lock_free_def list_all_iff pending_lock)

lemma sys_inv_init: "sys_inv (init_sys n)"
  by (simp add: sys_inv_def init_sys_def hub_inv_new)

lemma threads_goto:
  "t' \<in> set (s_threads (goto i t s)) \<Longrightarrow> t' = t \<or> t' \<in> set (s_threads s)"
  unfolding goto_def using set_update_subset_insert [of "s_threads s" i t] by auto

lemma hub_goto [simp]: "s_hub (goto i t s) = s_hub s"
  by (simp add: goto_def)

lemma at_thread_mem: "at_thread s i t \<Longrightarrow> t \<in> set (s_threads s)"
  by (auto simp: at_thread_def)

text \<open>A step that only moves a thread, or changes heap cells, keeps the invariant under these conditions.\<close>

lemma sys_inv_move:
  assumes "sys_inv s" and "t \<noteq> Panicked" and "set (pending t) \<subseteq> set (h_clients (s_hub s))"
    and "\<And>c. closing t = Some c \<Longrightarrow> c \<notin> set (h_clients (s_hub s)) \<and> c < length (h_heap (s_hub s))"
  shows "sys_inv (goto i t s)"
  using assms unfolding sys_inv_def by (auto dest!: threads_goto)

lemma sys_inv_heap:
  assumes "sys_inv s" and "hub_inv ((s_hub s)\<lparr>h_heap := heap\<rparr>)" and "length heap = length (h_heap (s_hub s))"
  shows "sys_inv (s\<lparr>s_hub := (s_hub s)\<lparr>h_heap := heap\<rparr>\<rparr>)"
  using assms by (simp add: sys_inv_def)

lemma hub_inv_cell:
  assumes "hub_inv h" and "length (c_queue y) \<le> send_capacity"
    and "c \<in> set (h_clients h) \<Longrightarrow> \<not> c_closed y"
  shows "hub_inv (h\<lparr>h_heap := (h_heap h)[c := y]\<rparr>)"
proof (cases "c < length (h_heap h)")
  case True
  with assms queue_bound_update [of "h_heap h" send_capacity y c] show ?thesis
    by (auto simp: hub_inv_def nth_list_update)
next
  case False
  with assms(1) show ?thesis by (simp add: list_update_beyond)
qed

lemma hub_cell_queue:
  "hub_inv h \<Longrightarrow> c < length (h_heap h) \<Longrightarrow> length (c_queue (h_heap h ! c)) \<le> send_capacity"
  by (simp add: hub_inv_def)

lemma list_update_outside: "\<not> c < length xs \<Longrightarrow> xs[c := y] = xs"
  by (simp add: list_update_beyond)

lemma hub_step_inv: "hub_step s s' \<Longrightarrow> sys_inv s \<Longrightarrow> sys_inv s'"
proof (induction rule: hub_step.induct)
  case (register s i)
  note nobody_pending [OF register(2)]
  moreover have "closing t = Some c \<Longrightarrow> t \<in> set (s_threads s) \<Longrightarrow> c \<noteq> length (h_heap (s_hub s))" for t c
    using register(3) by (auto simp: sys_inv_def)
  ultimately show ?case
    using register(3) Register_inv [of "s_hub s"] by (fastforce simp: sys_inv_def Register_def)
next
  case (unregister_known s i c)
  let ?h = "(s_hub s)\<lparr>h_clients := filter (\<lambda>x. x \<noteq> c) (h_clients (s_hub s))\<rparr>"
  note none = nobody_pending [OF unregister_known(2)]
  have c: "c < length (h_heap (s_hub s))"
    using unregister_known(3,4) by (auto simp: sys_inv_def hub_inv_def)
  have "hub_inv ?h" using unregister_known(4) by (auto simp: sys_inv_def hub_inv_def)
  then have "sys_inv (s\<lparr>s_hub := ?h\<rparr>)"
    using unregister_known(4) none by (auto simp: sys_inv_def)
  then show ?case by (rule sys_inv_move) (use c in auto)
next
  case (close s i c)
  have cl: "c \<notin> set (h_clients (s_hub s))" "c < length (h_heap (s_hub s))"
    using close at_thread_mem [OF close(1)] by (fastforce simp: sys_inv_def)+
  have "hub_inv ((s_hub s)\<lparr>h_heap := (h_heap (s_hub s))[c := shut (h_heap (s_hub s) ! c)]\<rparr>)"
    using close(2) cl by (intro hub_inv_cell) (simp_all add: sys_inv_def shut_def hub_cell_queue)
  then have "sys_inv (s\<lparr>s_hub := (s_hub s)\<lparr>h_heap := (h_heap (s_hub s))[c := shut (h_heap (s_hub s) ! c)]\<rparr>\<rparr>)"
    using close(2) by (intro sys_inv_heap) simp_all
  then show ?case by (rule sys_inv_move) simp_all
next
  case (publish s i d topic)
  then show ?case by (intro sys_inv_move) simp_all
next
  case (check s i d topic c cs)
  with at_thread_mem [OF check(1)] show ?case
    by (intro sys_inv_move) (fastforce simp: sys_inv_def)+
next
  case (skip s i d topic c cs)
  with at_thread_mem [OF skip(1)] show ?case
    by (intro sys_inv_move) (fastforce simp: sys_inv_def)+
next
  case (wanted s i d topic c cs)
  with at_thread_mem [OF wanted(1)] show ?case
    by (intro sys_inv_move) (fastforce simp: sys_inv_def)+
next
  case (send s i d topic c cs x)
  have mem: "set (c # cs) \<subseteq> set (h_clients (s_hub s))"
    using send(3) at_thread_mem [OF send(1)] by (fastforce simp: sys_inv_def)
  with send(3) have c: "c < length (h_heap (s_hub s))" "\<not> c_closed (h_heap (s_hub s) ! c)"
    by (auto simp: sys_inv_def hub_inv_def)
  then have x: "x = offered d (h_heap (s_hub s) ! c)"
    using send(2) by (simp add: offer_open offered_def)
  have "hub_inv ((s_hub s)\<lparr>h_heap := (h_heap (s_hub s))[c := x]\<rparr>)"
    using send(3) c unfolding x by (intro hub_inv_cell) (simp_all add: sys_inv_def hub_cell_queue)
  then have "sys_inv (s\<lparr>s_hub := (s_hub s)\<lparr>h_heap := (h_heap (s_hub s))[c := x]\<rparr>\<rparr>)"
    using send(3) by (intro sys_inv_heap) simp_all
  then show ?case by (rule sys_inv_move) (use mem in auto)
next
  case (send_panic s i d topic c cs)
  have "c \<in> set (h_clients (s_hub s))"
    using send_panic(3) at_thread_mem [OF send_panic(1)] by (fastforce simp: sys_inv_def)
  with send_panic(3) have "\<not> c_closed (h_heap (s_hub s) ! c)" by (auto simp: sys_inv_def hub_inv_def)
  with send_panic(2) show ?case by (simp add: offer_open)
next
  case (unlock s i d topic)
  then show ?case by (intro sys_inv_move) simp_all
next
  case (subscribe s i c topics)
  then show ?case by (intro sys_inv_move) simp_all
next
  case (write_topics s i c topics)
  let ?y = "Subscribe topics (h_heap (s_hub s) ! c)"
  have "hub_inv ((s_hub s)\<lparr>h_heap := (h_heap (s_hub s))[c := ?y]\<rparr>)"
  proof (cases "c < length (h_heap (s_hub s))")
    case True
    with write_topics(2) show ?thesis
      by (intro hub_inv_cell) (auto simp: sys_inv_def Subscribe_def hub_cell_queue, auto simp: hub_inv_def)
  next
    case False
    with write_topics(2) show ?thesis by (simp add: sys_inv_def list_update_outside)
  qed
  then have "sys_inv (s\<lparr>s_hub := (s_hub s)\<lparr>h_heap := (h_heap (s_hub s))[c := ?y]\<rparr>\<rparr>)"
    using write_topics(2) by (intro sys_inv_heap) simp_all
  then show ?case by (rule sys_inv_move) simp_all
next
  case (take c s)
  let ?x = "h_heap (s_hub s) ! c"
  have "hub_inv ((s_hub s)\<lparr>h_heap := (h_heap (s_hub s))[c := ?x\<lparr>c_queue := tl (c_queue ?x)\<rparr>]\<rparr>)"
  proof (rule hub_inv_cell)
    show "hub_inv (s_hub s)" using take(3) by (simp add: sys_inv_def)
    from hub_cell_queue [OF this take(1)] show "length (c_queue (?x\<lparr>c_queue := tl (c_queue ?x)\<rparr>)) \<le> send_capacity"
      by simp
    show "c \<in> set (h_clients (s_hub s)) \<Longrightarrow> \<not> c_closed (?x\<lparr>c_queue := tl (c_queue ?x)\<rparr>)"
      using take(3) by (simp add: sys_inv_def hub_inv_def)
  qed
  with take(3) show ?case unfolding receive_def by (intro sys_inv_heap) simp_all
qed

abbreviation reaches :: "'m sys \<Rightarrow> 'm sys \<Rightarrow> bool" where
  "reaches \<equiv> hub_step\<^sup>*\<^sup>*"

interpretation hub_steps: step_invariant hub_step sys_inv
  by unfold_locales (rule hub_step_inv)

lemma reachable_inv: "reaches s s' \<Longrightarrow> sys_inv s \<Longrightarrow> sys_inv s'"
  by (rule hub_steps.run_keeps)

text \<open>
  C8: however registering, unregistering, publishing, subscribing and receiving interleave, no thread
  ever sends on a closed channel, every registered client's channel is open and no send queue
  exceeds its capacity of 256.
\<close>

theorem hub_never_panics:
  assumes "reaches (init_sys n) s"
  shows "Panicked \<notin> set (s_threads s)
    \<and> (\<forall>c \<in> set (h_clients (s_hub s)). \<not> c_closed (h_heap (s_hub s) ! c))
    \<and> (\<forall>x \<in> set (h_heap (s_hub s)). length (c_queue x) \<le> 256)"
  using reachable_inv [OF assms sys_inv_init]
  by (auto simp: sys_inv_def hub_inv_def send_capacity_def)

text \<open>A run for the witness: a client registers, a message is sent to it, it unregisters and closes.\<close>

definition registered_sys :: "nat sys" where
  "registered_sys = \<lparr>s_hub = \<lparr>h_clients = [0], h_heap = [new_client]\<rparr>, s_threads = [Idle, Idle]\<rparr>"

lemma run_register: "reaches (init_sys 2) registered_sys"
proof -
  have "at_thread (init_sys 2) 0 (Idle :: nat thread)" and "write_lock_free (init_sys 2 :: nat sys)"
    by (simp_all add: at_thread_def init_sys_def write_lock_free_def numeral_2_eq_2)
  from hub_step.register [OF this] show ?thesis
    by (simp add: init_sys_def registered_sys_def Register_def NewHub_def numeral_2_eq_2)
qed

theorem hub_never_panics_witness:
  "reaches (init_sys 2) registered_sys \<and> Panicked \<notin> set (s_threads registered_sys)"
  using hub_never_panics [OF run_register] run_register by blast

text \<open>
  Two threads race when one writes the topics of a client while the other reads them: Go's runtime
  stops the program when a map is read and written at once.
\<close>

definition topic_race :: "'m sys \<Rightarrow> bool" where
  "topic_race s \<longleftrightarrow> (\<exists>i j c ts d topic cs. i \<noteq> j
     \<and> at_thread s i (Subscribing c ts) \<and> at_thread s j (Checking d topic c cs))"

text \<open>
  the topics of a client are not protected by the hub's lock: a subscription that
  follows the registration of a client can run while a publisher reads the client's topics.
\<close>

theorem topic_race_reachable: "\<exists>s :: nat sys. reaches (init_sys 2) s \<and> topic_race s"
proof -
  let ?s1 = "goto 0 (Subscribing 0 [TopicBudgetWarning]) registered_sys"
  let ?s2 = "goto 1 (Publishing (7::nat) TopicBudgetWarning [0]) ?s1"
  let ?s3 = "goto 1 (Checking (7::nat) TopicBudgetWarning 0 []) ?s2"
  have "hub_step registered_sys ?s1"
    by (rule hub_step.subscribe) (simp_all add: at_thread_def registered_sys_def)
  moreover have "hub_step ?s1 ?s2"
    using hub_step.publish [of ?s1 1 7 TopicBudgetWarning]
    by (simp add: at_thread_def goto_def registered_sys_def)
  moreover have "hub_step ?s2 ?s3"
    by (rule hub_step.check) (simp add: at_thread_def goto_def registered_sys_def)
  ultimately have "reaches (init_sys 2) ?s3"
    using run_register by (meson rtranclp.rtrancl_into_rtrancl)
  moreover have "at_thread ?s3 0 (Subscribing 0 [TopicBudgetWarning])"
    "at_thread ?s3 1 (Checking 7 TopicBudgetWarning 0 [])"
    by (simp_all add: at_thread_def goto_def registered_sys_def)
  then have "topic_race ?s3" unfolding topic_race_def by (metis zero_neq_one)
  ultimately show ?thesis by blast
qed

section \<open>The relation refines the functions\<close>

lemma goto_goto [simp]: "goto i t (goto i t' s) = goto i t s"
  by (simp add: goto_def)

lemma goto_hub: "goto i t (s\<lparr>s_hub := h\<rparr>) = (goto i t s)\<lparr>s_hub := h\<rparr>"
  by (simp add: goto_def)

lemma at_goto: "i < length (s_threads s) \<Longrightarrow> at_thread (goto i t s) i t"
  by (simp add: at_thread_def goto_def)

lemma length_goto [simp]: "length (s_threads (goto i t s)) = length (s_threads s)"
  by (simp add: goto_def)

lemma deliver_steps:
  assumes "i < length (s_threads s)" and "deliver (subscribedTo topic) d cs (h_heap (s_hub s)) = Some heap"
  shows "reaches (goto i (Publishing d topic cs) s)
    (goto i (Publishing d topic []) (s\<lparr>s_hub := (s_hub s)\<lparr>h_heap := heap\<rparr>\<rparr>))"
  using assms
proof (induction cs arbitrary: s)
  case Nil
  then have "s\<lparr>s_hub := (s_hub s)\<lparr>h_heap := heap\<rparr>\<rparr> = s" by auto
  then show ?case by simp
next
  case (Cons c cs)
  let ?p = "goto i (Publishing d topic (c # cs)) s" and ?k = "goto i (Checking d topic c cs) s"
  let ?q = "goto i (Publishing d topic cs) s" and ?w = "goto i (Sending d topic c cs) s"
  have check: "hub_step ?p ?k"
    using hub_step.check [OF at_goto [OF Cons.prems(1)]] by simp
  show ?case
  proof (cases "subscribedTo topic (h_heap (s_hub s) ! c)")
    case False
    then have "hub_step ?k ?q"
      using hub_step.skip [OF at_goto [OF Cons.prems(1)]] by simp
    moreover have "reaches ?q (goto i (Publishing d topic []) (s\<lparr>s_hub := (s_hub s)\<lparr>h_heap := heap\<rparr>\<rparr>))"
      using Cons False by simp
    ultimately show ?thesis using check by (meson converse_rtranclp_into_rtranclp)
  next
    case True
    obtain x where x: "offer d (h_heap (s_hub s) ! c) = Some x"
      and rest: "deliver (subscribedTo topic) d cs ((h_heap (s_hub s))[c := x]) = Some heap"
      using Cons.prems(2) True by (auto split: option.splits)
    let ?s' = "s\<lparr>s_hub := (s_hub s)\<lparr>h_heap := (h_heap (s_hub s))[c := x]\<rparr>\<rparr>"
    have "hub_step ?k ?w"
      using hub_step.wanted [OF at_goto [OF Cons.prems(1)]] True by simp
    moreover have "hub_step ?w (goto i (Publishing d topic cs) ?s')"
      using hub_step.send [OF at_goto [OF Cons.prems(1)], where x = x and d = d and c = c] x by (simp add: goto_hub)
    moreover have "reaches (goto i (Publishing d topic cs) ?s')
        (goto i (Publishing d topic []) (s\<lparr>s_hub := (s_hub s)\<lparr>h_heap := heap\<rparr>\<rparr>))"
      using Cons.IH [of ?s'] Cons.prems(1) rest by simp
    ultimately show ?thesis using check by (meson converse_rtranclp_into_rtranclp)
  qed
qed

text \<open>
  C15: the interleaved model runs the code of \<open>Publish\<close>: an idle thread that publishes undisturbed ends
  idle in exactly the hub that the function \<open>Publish\<close> computes.
\<close>

theorem publish_refined:
  assumes "at_thread s i Idle" and "marshal e = Some d" and "Publish marshal e (s_hub s) = Some h'"
  shows "reaches s (s\<lparr>s_hub := h'\<rparr>)"
proof -
  obtain heap where heap: "deliver (subscribedTo (ev_topic e)) d (h_clients (s_hub s)) (h_heap (s_hub s)) = Some heap"
    and h': "h' = (s_hub s)\<lparr>h_heap := heap\<rparr>"
    using assms(2,3) by (auto simp: Publish_def)
  have i: "i < length (s_threads s)" "(s_threads s)[i := Idle] = s_threads s"
    using assms(1) list_update_id [of "s_threads s" i] by (simp_all add: at_thread_def)
  then have same: "goto i Idle s = s" by (simp add: goto_def)
  have "hub_step s (goto i (Publishing d (ev_topic e) (h_clients (s_hub s))) s)"
    by (rule hub_step.publish [OF assms(1)])
  moreover note deliver_steps [OF i(1) heap]
  moreover have "hub_step (goto i (Publishing d (ev_topic e) []) (s\<lparr>s_hub := h'\<rparr>)) (s\<lparr>s_hub := h'\<rparr>)"
    using hub_step.unlock [OF at_goto, of i "s\<lparr>s_hub := h'\<rparr>" d "ev_topic e"] i same by (simp add: goto_hub)
  ultimately show ?thesis
    unfolding h' by (meson converse_rtranclp_into_rtranclp rtranclp.rtrancl_into_rtrancl)
qed

theorem publish_refined_witness:
  "\<exists>h'. reaches registered_sys (registered_sys\<lparr>s_hub := h'\<rparr>) \<and> c_queue (h_heap h' ! 0) = [7]"
proof -
  have a: "at_thread registered_sys 0 Idle" by (simp add: at_thread_def registered_sys_def)
  have p: "Publish (\<lambda>_. Some 7) sample_event (s_hub registered_sys)
      = Some \<lparr>h_clients = [0], h_heap = [new_client\<lparr>c_queue := [7]\<rparr>]\<rparr>"
    by (simp add: Publish_def registered_sys_def subscribedTo_def new_client_def offer_def send_capacity_def)
  show ?thesis
    using publish_refined [OF a refl p] by force
qed

end
