(* ===== verification/Scheduler.thy ===== *)
theory Scheduler
  imports Hub Store_Laws
begin

text \<open>
  The collector registry (\<open>internal/collector/collector.go\<close>) and the collection scheduler
  (\<open>internal/collector/scheduler.go\<close>): which sources a pass visits, the time window handed to a
  collector, what is stored of the result, and the events published.

  A collector's \<open>Collect\<close> may answer differently each time; it is a function of the source, the window
  and the number of clock readings so far. The clock is the one of the store's \<open>env\<close>. The state
  of a pass is the store's world and the hub (\<open>None\<close> for the nil hub); \<open>None\<close> as a result is a
  panic.
\<close>

section \<open>The registry\<close>

record time_window =
  tw_start :: time
  tw_end :: time

record collector =
  co_type :: string
  co_collect :: "cost_source \<Rightarrow> time_window \<Rightarrow> nat \<Rightarrow> string + cost_record list"
  co_validate :: "json option \<Rightarrow> string option"

type_synonym registry = "cost_source_type \<Rightarrow> collector option"

definition NewRegistry :: registry where
  "NewRegistry = (\<lambda>_. None)"

definition RegisterCollector :: "cost_source_type \<Rightarrow> collector \<Rightarrow> registry \<Rightarrow> registry" where
  "RegisterCollector sourceType c r = r(sourceType \<mapsto> c)"

definition GetCollector :: "cost_source_type \<Rightarrow> registry \<Rightarrow> collector option" where
  "GetCollector sourceType r = r sourceType"

definition Types :: "registry \<Rightarrow> cost_source_type set" where
  "Types r = dom r"

section \<open>The scheduler\<close>

record scheduler_config =
  CSPInterval :: time
  KubernetesInterval :: time

definition DefaultSchedulerConfig :: scheduler_config where
  "DefaultSchedulerConfig = \<lparr>CSPInterval = 1 * hour, KubernetesInterval = 5 * minute\<rparr>"

record 'm pass =
  ps_world :: world
  ps_hub :: "'m hub option"

definition read_clock :: "env \<Rightarrow> 'm pass \<Rightarrow> time \<times> 'm pass" where
  "read_clock e s = (let (t, w) = now e (ps_world s) in (t, s\<lparr>ps_world := w\<rparr>))"

definition publishEvent ::
  "env \<Rightarrow> (event \<Rightarrow> 'm option) \<Rightarrow> string \<Rightarrow> string \<Rightarrow> json \<Rightarrow> 'm pass \<Rightarrow> 'm pass option" where
  "publishEvent e marshal eventType sourceName payload s =
     (case ps_hub s of
        None \<Rightarrow> Some s
      | Some h \<Rightarrow>
          let (t, s) = read_clock e s in
          (case NewEvent t eventType ''cost.collection'' sourceName (Some payload) of
             None \<Rightarrow> Some s
           | Some ev \<Rightarrow> map_option (\<lambda>h. s\<lparr>ps_hub := Some h\<rparr>) (Publish marshal ev h)))"

definition source_window :: "cost_source \<Rightarrow> time \<Rightarrow> time \<Rightarrow> time_window" where
  "source_window source t1 t2 =
     (let window = \<lparr>tw_start = t1 - 24 * hour, tw_end = t2\<rparr> in
      case cs_collected source of
        None \<Rightarrow> window
      | Some t \<Rightarrow> window\<lparr>tw_start := t\<rparr>)"

text \<open>What follows a successful \<open>Collect\<close>.\<close>

definition store_collected ::
  "env \<Rightarrow> (event \<Rightarrow> 'm option) \<Rightarrow> cost_source \<Rightarrow> cost_record list \<Rightarrow> 'm pass \<Rightarrow> 'm pass option" where
  "store_collected e marshal source records s =
     (let (r, w) = (if length records > 0 then InsertCostRecords e records (ps_world s)
                    else (Inr (), ps_world s));
          s = s\<lparr>ps_world := w\<rparr>
      in case r of
           Inl err \<Rightarrow> Some s
         | Inr _ \<Rightarrow>
             let (t3, s) = read_clock e s;
                 (r, w) = UpdateCostSourceCollectedAt e (cs_id source) t3 (ps_world s);
                 s = s\<lparr>ps_world := w\<rparr>
             in publishEvent e marshal ''collection.complete'' (cs_name source)
                  (JObj [(''records'', JStr (Itoa (length records))), (''sourceId'', JStr (cs_id source))]) s)"

definition collectSource ::
  "registry \<Rightarrow> env \<Rightarrow> (event \<Rightarrow> 'm option) \<Rightarrow> cost_source \<Rightarrow> 'm pass \<Rightarrow> 'm pass option" where
  "collectSource reg e marshal source s =
     (case GetCollector (cs_type source) reg of
        None \<Rightarrow> Some s
      | Some c \<Rightarrow>
          let (t1, s) = read_clock e s;
              (t2, s) = read_clock e s
          in case co_collect c source (source_window source t1 t2) (w_ticks (ps_world s)) of
               Inl err \<Rightarrow> publishEvent e marshal ''collection.failed'' (cs_name source)
                   (JObj [(''error'', JStr err), (''sourceId'', JStr (cs_id source))]) s
             | Inr records \<Rightarrow> store_collected e marshal source records s)"

fun collect_sources ::
  "(cost_source \<Rightarrow> bool) \<Rightarrow> registry \<Rightarrow> env \<Rightarrow> (event \<Rightarrow> 'm option) \<Rightarrow> cost_source list \<Rightarrow> 'm pass \<Rightarrow> 'm pass option"
where
  "collect_sources wanted reg e marshal [] s = Some s"
| "collect_sources wanted reg e marshal (src # srcs) s =
     (if \<not> wanted src then collect_sources wanted reg e marshal srcs s
      else Option.bind (collectSource reg e marshal src s) (collect_sources wanted reg e marshal srcs))"

definition collectForProject ::
  "(cost_source \<Rightarrow> bool) \<Rightarrow> registry \<Rightarrow> env \<Rightarrow> (event \<Rightarrow> 'm option) \<Rightarrow> string \<Rightarrow> 'm pass \<Rightarrow> 'm pass option"
where
  "collectForProject wanted reg e marshal projectID s =
     (let (r, w) = ListCostSources e projectID (ps_world s);
          s = s\<lparr>ps_world := w\<rparr>
      in case r of
           Inl err \<Rightarrow> Some s
         | Inr sources \<Rightarrow> collect_sources wanted reg e marshal sources s)"

fun collect_projects ::
  "(cost_source \<Rightarrow> bool) \<Rightarrow> registry \<Rightarrow> env \<Rightarrow> (event \<Rightarrow> 'm option) \<Rightarrow> project list \<Rightarrow> 'm pass \<Rightarrow> 'm pass option"
where
  "collect_projects wanted reg e marshal [] s = Some s"
| "collect_projects wanted reg e marshal (p # ps) s =
     Option.bind (collectForProject wanted reg e marshal (p_id p) s) (collect_projects wanted reg e marshal ps)"

definition collect_pass ::
  "(cost_source \<Rightarrow> bool) \<Rightarrow> registry \<Rightarrow> env \<Rightarrow> (event \<Rightarrow> 'm option) \<Rightarrow> 'm pass \<Rightarrow> 'm pass option" where
  "collect_pass wanted reg e marshal s =
     (let (r, w) = ListProjects e (ps_world s);
          s = s\<lparr>ps_world := w\<rparr>
      in case r of
           Inl err \<Rightarrow> Some s
         | Inr projects \<Rightarrow> collect_projects wanted reg e marshal projects s)"

text \<open>\<open>collectAll\<close> visits every enabled source, \<open>collectByTypes\<close> the enabled ones of some types.\<close>

definition collectAll :: "registry \<Rightarrow> env \<Rightarrow> (event \<Rightarrow> 'm option) \<Rightarrow> 'm pass \<Rightarrow> 'm pass option" where
  "collectAll = collect_pass cs_enabled"

definition collectByTypes ::
  "cost_source_type list \<Rightarrow> registry \<Rightarrow> env \<Rightarrow> (event \<Rightarrow> 'm option) \<Rightarrow> 'm pass \<Rightarrow> 'm pass option" where
  "collectByTypes types = collect_pass (\<lambda>s. cs_enabled s \<and> cs_type s \<in> set types)"

text \<open>\<open>Start\<close>: the first caller runs the loop; the flag is never reset.\<close>

definition start_scheduler :: "bool \<Rightarrow> bool \<times> bool" where
  "start_scheduler running = (if running then (False, running) else (True, True))"

datatype tick = InitialRun | CSPTick | KubernetesTick

fun run_tick :: "registry \<Rightarrow> env \<Rightarrow> (event \<Rightarrow> 'm option) \<Rightarrow> tick \<Rightarrow> 'm pass \<Rightarrow> 'm pass option" where
  "run_tick reg e marshal InitialRun s = collectAll reg e marshal s"
| "run_tick reg e marshal CSPTick s =
     collectByTypes [CostSourceAWS, CostSourceAzure, CostSourceGCP] reg e marshal s"
| "run_tick reg e marshal KubernetesTick s = collectByTypes [CostSourceKubernetes] reg e marshal s"

fun run_ticks :: "registry \<Rightarrow> env \<Rightarrow> (event \<Rightarrow> 'm option) \<Rightarrow> tick list \<Rightarrow> 'm pass \<Rightarrow> 'm pass option" where
  "run_ticks reg e marshal [] s = Some s"
| "run_ticks reg e marshal (t # ts) s =
     Option.bind (run_tick reg e marshal t s) (run_ticks reg e marshal ts)"

section \<open>The contract of a pass\<close>

text \<open>
  Every operation of the scheduler is a \<open>'m pass \<Rightarrow> 'm pass option\<close>; the contract is that, from a good
  state, it does not panic and ends in a good state related to the one it started from. The
  relation is reflexive and transitive, so sequences of such operations have it too.
\<close>

definition meets :: "('s \<Rightarrow> bool) \<Rightarrow> ('s \<Rightarrow> 's \<Rightarrow> bool) \<Rightarrow> ('s \<Rightarrow> 's option) \<Rightarrow> bool" where
  "meets good rel f \<longleftrightarrow> (\<forall>s. good s \<longrightarrow> (\<exists>t. f s = Some t \<and> good t \<and> rel s t))"

locale pass_contract =
  fixes good :: "'s \<Rightarrow> bool" and rel :: "'s \<Rightarrow> 's \<Rightarrow> bool"
  assumes rel_refl: "rel s s" and rel_trans: "rel s t \<Longrightarrow> rel t u \<Longrightarrow> rel s u"
begin

lemma meetsI: "(\<And>s. good s \<Longrightarrow> \<exists>t. f s = Some t \<and> good t \<and> rel s t) \<Longrightarrow> meets good rel f"
  by (simp add: meets_def)

lemma meetsD: "meets good rel f \<Longrightarrow> good s \<Longrightarrow> \<exists>t. f s = Some t \<and> good t \<and> rel s t"
  by (simp add: meets_def)

lemma meets_Some: "meets good rel Some"
  using rel_refl by (intro meetsI) blast

lemma meets_bind:
  assumes "meets good rel f" and "meets good rel g"
  shows "meets good rel (\<lambda>s. Option.bind (f s) g)"
proof (rule meetsI)
  fix s assume "good s"
  with assms(1) obtain t where t: "f s = Some t" "good t" "rel s t" by (blast dest: meetsD)
  with assms(2) obtain u where "g t = Some u" "good u" "rel t u" by (blast dest: meetsD)
  with t rel_trans show "\<exists>u. Option.bind (f s) g = Some u \<and> good u \<and> rel s u" by auto
qed

text \<open>A step that keeps goodness and the relation, before an operation.\<close>

lemma meets_after:
  assumes "\<And>s. good s \<Longrightarrow> good (h s) \<and> rel s (h s)" and "meets good rel f"
  shows "meets good rel (\<lambda>s. f (h s))"
proof (rule meetsI)
  fix s assume "good s"
  with assms(1) have h: "good (h s)" "rel s (h s)" by auto
  with assms(2) obtain t where "f (h s) = Some t" "good t" "rel (h s) t" by (blast dest: meetsD)
  with h rel_trans show "\<exists>t. f (h s) = Some t \<and> good t \<and> rel s t" by blast
qed

end

end
