(* ===== verification/Calendar.thy ===== *)
theory Calendar
  imports Models
begin

text \<open>
  The calendar of Go's package \<open>time\<close>, as far as the plugins and collectors use it: the date of an
  instant (\<open>Time.Date\<close>, \<open>Time.Day\<close>), the instant of a date with Go's normalisation of months
  and days out of range (\<open>time.Date\<close>), and the layouts \<open>2006-01-02\<close> and \<open>RFC3339\<close>. A location
  is its offset from UTC in nanoseconds, the same at all times. The central fact is that the two directions
  are inverse to each other.
\<close>

section \<open>Years and months\<close>

definition day :: int where "day = 24 * hour"

definition leap :: "int \<Rightarrow> bool" where
  "leap y \<longleftrightarrow> y mod 4 = 0 \<and> (y mod 100 \<noteq> 0 \<or> y mod 400 = 0)"

definition month_lengths :: "int \<Rightarrow> int list" where
  "month_lengths y = [31, if leap y then 29 else 28, 31, 30, 31, 30, 31, 31, 30, 31, 30, 31]"

definition month_length :: "int \<Rightarrow> int \<Rightarrow> int" where
  "month_length y m = month_lengths y ! nat (m - 1)"

text \<open>Days from 1 January of year 1 to 1 January of year \<open>y\<close>, and from there to the month's first.\<close>

definition days_before_year :: "int \<Rightarrow> int" where
  "days_before_year y = 365 * (y - 1) + (y - 1) div 4 - (y - 1) div 100 + (y - 1) div 400"

definition days_before_month :: "int \<Rightarrow> int \<Rightarrow> int" where
  "days_before_month y m = sum_list (take (nat (m - 1)) (month_lengths y))"

definition days_of_date :: "int \<Rightarrow> int \<Rightarrow> int \<Rightarrow> int" where
  "days_of_date y m d =
     (let y' = y + (m - 1) div 12; m' = (m - 1) mod 12 + 1
      in days_before_year y' + days_before_month y' m' + (d - 1))"

text \<open>From a number of days to the date, through cycles of 400, 100, 4 and 1 years.\<close>

definition year_of_days :: "int \<Rightarrow> int" where
  "year_of_days n =
     (let q = n div 146097; r = n mod 146097;
          c = min 3 (r div 36524); r = r - 36524 * c;
          f = r div 1461; r = r mod 1461;
          a = min 3 (r div 365)
      in 400 * q + 100 * c + 4 * f + a + 1)"

fun month_walk :: "int \<Rightarrow> int list \<Rightarrow> int \<Rightarrow> int \<times> int" where
  "month_walk m [] yday = (m, yday + 1)"
| "month_walk m (l # ls) yday = (if yday < l then (m, yday + 1) else month_walk (m + 1) ls (yday - l))"

definition date_of_days :: "int \<Rightarrow> int \<times> int \<times> int" where
  "date_of_days n =
     (let y = year_of_days n; (m, d) = month_walk 1 (month_lengths y) (n - days_before_year y)
      in (y, m, d))"

section \<open>Instants\<close>

definition date_of :: "int \<Rightarrow> time \<Rightarrow> int \<times> int \<times> int" where
  "date_of offset t = date_of_days ((t + offset) div day)"

definition Day :: "int \<Rightarrow> time \<Rightarrow> int" where
  "Day offset t = snd (snd (date_of offset t))"

text \<open>Midnight of a date.\<close>

definition Date :: "int \<Rightarrow> int \<Rightarrow> int \<Rightarrow> int \<Rightarrow> time" where
  "Date offset y m d = days_of_date y m d * day - offset"

section \<open>Layouts\<close>

definition pad :: "nat \<Rightarrow> int \<Rightarrow> string" where
  "pad k n = (let s = Itoa (nat (abs n)); s = replicate (k - length s) CHR ''0'' @ s
              in if n < 0 then CHR ''-'' # s else s)"

definition format_date :: "time \<Rightarrow> string" where
  "format_date t = (let (y, m, d) = date_of 0 t in pad 4 y @ ''-'' @ pad 2 m @ ''-'' @ pad 2 d)"

definition format_rfc3339 :: "time \<Rightarrow> string" where
  "format_rfc3339 t =
     format_date t @ ''T'' @ pad 2 (t mod day div hour) @ '':'' @ pad 2 (t mod hour div minute)
       @ '':'' @ pad 2 (t mod minute div second) @ ''Z''"

section \<open>The year\<close>

lemma div_pred:
  fixes k y :: int
  assumes "0 < k"
  shows "y div k - (y - 1) div k = (if y mod k = 0 then 1 else 0)"
proof (cases "y mod k = 0")
  case True
  then obtain q where q: "y = k * q" by (auto simp: mod_eq_0_iff_dvd)
  have "(k * q - 1) div k = q - 1"
    using assms by (intro int_div_pos_eq [of _ _ _ "k - 1"]) (simp_all add: algebra_simps)
  with q assms show ?thesis by simp
next
  case False
  have "y - 1 = k * (y div k) + (y mod k - 1)" by (simp add: algebra_simps)
  moreover have "0 < y mod k" "y mod k < k"
    using False pos_mod_sign [OF assms, of y] pos_mod_bound [OF assms, of y] by linarith+
  ultimately have "(y - 1) div k = y div k" by (intro int_div_pos_eq [of _ _ _ "y mod k - 1"]) simp_all
  with False show ?thesis by simp
qed

lemma leap_year_length: "days_before_year (y + 1) = days_before_year y + (if leap y then 366 else 365)"
proof -
  have dvd: "y mod 400 = 0 \<Longrightarrow> y mod 100 = 0" "y mod 100 = 0 \<Longrightarrow> y mod 4 = 0"
    by (simp_all add: mod_eq_0_iff_dvd) (rule dvd_trans, simp_all)+
  have "days_before_year (y + 1) - days_before_year y
      = 365 + (y div 4 - (y - 1) div 4) - (y div 100 - (y - 1) div 100) + (y div 400 - (y - 1) div 400)"
    by (simp only: days_before_year_def add_diff_cancel_right') (simp only: algebra_simps)
  also have "\<dots> = 365 + (if y mod 4 = 0 then 1 else 0) - (if y mod 100 = 0 then 1 else 0)
      + (if y mod 400 = 0 then 1 else 0)"
    by (simp only: div_pred)
  also have "\<dots> = (if leap y then 366 else 365)"
    using dvd unfolding leap_def by (cases "y mod 4 = 0"; cases "y mod 100 = 0"; cases "y mod 400 = 0") simp_all
  finally show ?thesis by linarith
qed

lemma days_before_year_cycles:
  assumes "0 \<le> c" "c \<le> 3" "0 \<le> f" "f \<le> 24" "0 \<le> a" "a \<le> 3"
  shows "days_before_year (400 * q + 100 * c + 4 * f + a + 1) = 146097 * q + 36524 * c + 1461 * f + 365 * a"
proof -
  have "(400 * q + 100 * c + 4 * f + a) div 4 = 100 * q + 25 * c + f"
    by (rule int_div_pos_eq [of _ _ _ a]) (use assms in simp_all)
  moreover have "(400 * q + 100 * c + 4 * f + a) div 100 = 4 * q + c"
    by (rule int_div_pos_eq [of _ _ _ "4 * f + a"]) (use assms in simp_all)
  moreover have "(400 * q + 100 * c + 4 * f + a) div 400 = q"
    by (rule int_div_pos_eq [of _ _ _ "100 * c + 4 * f + a"]) (use assms in simp_all)
  ultimately show ?thesis by (simp add: days_before_year_def)
qed

lemma leap_last_year:
  assumes "0 \<le> c" "c \<le> 3" "0 \<le> f" "f \<le> 24" "f = 24 \<longrightarrow> c = 3"
  shows "leap (400 * q + 100 * c + 4 * f + 4)"
proof -
  have "4 dvd 400 * q + 100 * c + 4 * f + 4" by simp
  then have "(400 * q + 100 * c + 4 * f + 4) mod 4 = 0" by (simp only: mod_eq_0_iff_dvd)
  moreover have "(400 * q + 100 * c + 4 * f + 4) mod 100 \<noteq> 0" if "f < 24"
    using int_mod_pos_eq [of "400 * q + 100 * c + 4 * f + 4" 100 "4 * q + c" "4 * f + 4"] assms that by simp
  moreover have "(400 * q + 100 * c + 4 * f + 4) mod 400 = 0" if "f = 24"
    using assms that by (simp add: mod_eq_0_iff_dvd)
  ultimately show ?thesis using assms unfolding leap_def by linarith
qed

lemma year_of_days:
  "days_before_year (year_of_days n) \<le> n" "n < days_before_year (year_of_days n + 1)"
proof -
  define q r where "q = n div 146097" and "r = n mod 146097"
  define c where "c = min 3 (r div 36524)"
  define r1 where "r1 = r - 36524 * c"
  define f where "f = r1 div 1461"
  define r2 where "r2 = r1 mod 1461"
  define a where "a = min 3 (r2 div 365)"
  have n: "n = 146097 * q + r" "0 \<le> r" "r < 146097" by (simp_all add: q_def r_def)
  have c: "0 \<le> c" "c \<le> 3" "0 \<le> r1" "r1 < 36525" "c < 3 \<longrightarrow> r1 < 36524"
    using n(2,3) unfolding c_def r1_def by (auto simp: min_def)
  have r12: "r1 = 1461 * f + r2" "0 \<le> r2" "r2 < 1461" by (simp_all add: f_def r2_def)
  have f: "0 \<le> f" "f \<le> 24" "0 \<le> r2" "r2 < 1461" "r1 = 1461 * f + r2" "f = 24 \<and> c < 3 \<longrightarrow> r2 < 1460"
    using c r12 by linarith+
  have a: "0 \<le> a" "a \<le> 3" "365 * a \<le> r2" "r2 < 365 * a + 366" "a < 3 \<longrightarrow> r2 < 365 * a + 365"
    using f(3,4) unfolding a_def by (auto simp: min_def)
  have y: "year_of_days n = 400 * q + 100 * c + 4 * f + a + 1"
    unfolding year_of_days_def Let_def q_def r_def c_def r1_def f_def r2_def a_def by simp
  have b: "days_before_year (year_of_days n) = 146097 * q + 36524 * c + 1461 * f + 365 * a"
    unfolding y by (rule days_before_year_cycles) (use c f a in simp_all)
  show "days_before_year (year_of_days n) \<le> n" using b n f a r1_def by simp
  have "leap (year_of_days n)" if "r2 = 365 * a + 365"
  proof -
    have a3: "a = 3" using that a by linarith
    moreover have "f = 24 \<longrightarrow> c = 3" using that a3 c f by linarith
    ultimately have "leap (400 * q + 100 * c + 4 * f + 4)" using c f by (intro leap_last_year)
    moreover have "400 * q + 100 * c + 4 * f + a + 1 = 400 * q + 100 * c + 4 * f + 4" using a3 by simp
    ultimately show ?thesis unfolding y by (simp only:)
  qed
  then show "n < days_before_year (year_of_days n + 1)"
    using b n f a r1_def by (simp add: leap_year_length) linarith
qed

lemma days_before_year_mono: "a \<le> b \<Longrightarrow> days_before_year a \<le> days_before_year b"
proof (induction rule: int_ge_induct)
  case (step b)
  then show ?case by (simp add: leap_year_length)
qed simp

lemma year_unique:
  assumes "days_before_year y \<le> n" and "n < days_before_year (y + 1)"
  shows "year_of_days n = y"
proof -
  from year_of_days [of n] assms have "\<not> year_of_days n + 1 \<le> y" "\<not> y + 1 \<le> year_of_days n"
    using days_before_year_mono [of "year_of_days n + 1" y] days_before_year_mono [of "y + 1" "year_of_days n"]
    by linarith+
  then show ?thesis by linarith
qed

section \<open>The month\<close>

lemma month_walk_spec:
  "0 \<le> yday \<Longrightarrow> yday < sum_list ls \<Longrightarrow> month_walk m ls yday = (m', d) \<Longrightarrow>
   \<exists>k < length ls. m' = m + int k \<and> 1 \<le> d \<and> d \<le> ls ! k \<and> sum_list (take k ls) + (d - 1) = yday"
proof (induction m ls yday rule: month_walk.induct)
  case (2 m l ls yday)
  show ?case
  proof (cases "yday < l")
    case True
    with 2 show ?thesis by (intro exI [where x = 0]) auto
  next
    case False
    with 2 obtain k where "k < length ls" "m' = m + 1 + int k" "1 \<le> d" "d \<le> ls ! k"
      "sum_list (take k ls) + (d - 1) = yday - l" by auto
    then show ?thesis by (intro exI [where x = "Suc k"]) auto
  qed
qed simp

lemma month_walk_inverse:
  "k < length ls \<Longrightarrow> \<forall>l \<in> set ls. 0 \<le> l \<Longrightarrow> 1 \<le> d \<Longrightarrow> d \<le> ls ! k \<Longrightarrow>
   month_walk m ls (sum_list (take k ls) + (d - 1)) = (m + int k, d)"
proof (induction ls arbitrary: m k)
  case (Cons l ls)
  show ?case
  proof (cases k)
    case 0
    with Cons.prems show ?thesis by simp
  next
    case (Suc j)
    have "0 \<le> sum_list (take j ls)"
      using Cons.prems(2) by (intro sum_list_nonneg) (auto dest: in_set_takeD)
    with Suc Cons.prems Cons.IH [of j "m + 1"] show ?thesis by (simp add: algebra_simps)
  qed
qed simp

lemma month_lengths_facts:
  "length (month_lengths y) = 12" "\<forall>l \<in> set (month_lengths y). 28 \<le> l \<and> l \<le> 31"
  "sum_list (month_lengths y) = (if leap y then 366 else 365)"
  by (simp_all add: month_lengths_def)

lemma month_length_bounds:
  assumes "1 \<le> m" and "m \<le> 12"
  shows "28 \<le> month_length y m" and "month_length y m \<le> 31"
proof -
  have "month_length y m \<in> set (month_lengths y)"
    unfolding month_length_def by (rule nth_mem) (use assms in \<open>simp add: month_lengths_facts\<close>)
  then show "28 \<le> month_length y m" "month_length y m \<le> 31"
    using month_lengths_facts(2) by blast+
qed

section \<open>Dates and days\<close>

definition valid_date :: "int \<Rightarrow> int \<Rightarrow> int \<Rightarrow> bool" where
  "valid_date y m d \<longleftrightarrow> 1 \<le> m \<and> m \<le> 12 \<and> 1 \<le> d \<and> d \<le> month_length y m"

lemma days_of_valid:
  "1 \<le> m \<Longrightarrow> m \<le> 12 \<Longrightarrow> days_of_date y m d = days_before_year y + days_before_month y m + (d - 1)"
  by (simp add: days_of_date_def)

lemma date_of_days_spec:
  assumes "date_of_days n = (y, m, d)"
  shows "valid_date y m d" and "days_of_date y m d = n"
proof -
  from assms have y: "y = year_of_days n" and w: "month_walk 1 (month_lengths y) (n - days_before_year y) = (m, d)"
    by (auto simp: date_of_days_def Let_def split: prod.splits)
  have "0 \<le> n - days_before_year y" "n - days_before_year y < sum_list (month_lengths y)"
    using year_of_days [of n] by (simp_all add: y month_lengths_facts leap_year_length)
  from month_walk_spec [OF this w] obtain k where k: "k < 12" "m = 1 + int k" "1 \<le> d" "d \<le> month_lengths y ! k"
    "sum_list (take k (month_lengths y)) + (d - 1) = n - days_before_year y"
    unfolding month_lengths_facts by blast
  then show "valid_date y m d" by (simp add: valid_date_def month_length_def)
  from k show "days_of_date y m d = n" by (simp add: days_of_valid days_before_month_def)
qed

lemma date_of_days_of_date:
  assumes "valid_date y m d"
  shows "date_of_days (days_of_date y m d) = (y, m, d)"
proof -
  let ?ls = "month_lengths y" and ?k = "nat (m - 1)"
  have m: "1 \<le> m" "m \<le> 12" and d: "1 \<le> d" "d \<le> ?ls ! ?k"
    using assms by (simp_all add: valid_date_def month_length_def)
  have pos: "\<forall>l \<in> set ?ls. 0 \<le> l" using month_lengths_facts(2) by fastforce
  have n: "days_of_date y m d = days_before_year y + (sum_list (take ?k ?ls) + (d - 1))"
    using m by (simp add: days_of_valid days_before_month_def)
  have k: "?k < length ?ls" using m by (simp add: month_lengths_facts)
  have walk: "month_walk 1 ?ls (sum_list (take ?k ?ls) + (d - 1)) = (m, d)"
    using month_walk_inverse [OF k pos d, of 1] m by simp
  have "sum_list ?ls = sum_list (take ?k ?ls) + (?ls ! ?k + sum_list (drop (Suc ?k) ?ls))"
    by (subst id_take_nth_drop [OF k]) simp
  moreover have "0 \<le> sum_list (drop (Suc ?k) ?ls)" "0 \<le> sum_list (take ?k ?ls)"
    using pos by (auto intro!: sum_list_nonneg dest: in_set_dropD in_set_takeD)
  ultimately have "year_of_days (days_of_date y m d) = y"
    using d by (intro year_unique) (simp_all add: n leap_year_length month_lengths_facts(3) [symmetric])
  with walk n show ?thesis by (simp add: date_of_days_def)
qed

text \<open>Day 0 of the next month is the last day of the month.\<close>

lemma days_of_last:
  assumes "1 \<le> m" and "m \<le> 12"
  shows "days_of_date y (m + 1) 0 = days_of_date y m (month_length y m)"
proof (cases "m = 12")
  case True
  then show ?thesis
    by (simp add: days_of_date_def leap_year_length days_before_month_def month_length_def month_lengths_def)
next
  case False
  with assms have m: "1 \<le> m + 1" "m + 1 \<le> 12" and k: "nat m = Suc (nat (m - 1))" "nat (m - 1) < 12" by simp_all
  have "days_before_month y (m + 1) = days_before_month y m + month_length y m"
    using k(2) by (simp add: days_before_month_def month_length_def k(1) take_Suc_conv_app_nth month_lengths_facts)
  with m assms show ?thesis by (simp add: days_of_valid)
qed

section \<open>Dates of instants\<close>

lemma date_of_valid: "date_of z t = (y, m, d) \<Longrightarrow> valid_date y m d"
  by (simp add: date_of_def date_of_days_spec)

lemma date_of_Date [simp]: "date_of z (Date z y m d) = date_of_days (days_of_date y m d)"
  by (simp add: date_of_def Date_def day_def hour_def minute_def second_def)

lemma date_of_Date_valid: "valid_date y m d \<Longrightarrow> date_of z (Date z y m d) = (y, m, d)"
  by (simp add: date_of_days_of_date)

end
