(* ===== verification/Http.thy ===== *)
theory Http
  imports Store
begin

text \<open>
  Requests, responses and handlers of package \<open>net/http\<close> and the router, as far as the program uses
  them. A request carries its path, the URL parameters of the matched route, the query values,
  cookies, decoded JSON body and the session the authentication middleware stored in its context;
  a response its status, JSON body, redirect target and cookies. A handler acts on the \<open>world\<close>
  of the store. \<open>SessionData\<close> is here because it is what the request context carries.
\<close>

record session_data =
  sd_user :: string
  sd_email :: string
  sd_display :: string
  sd_groups :: "string list"
  sd_expires :: time

record request =
  rq_params :: "(string \<times> string) list"
  rq_query :: "(string \<times> string) list"
  rq_cookies :: "(string \<times> string) list"
  rq_body :: "json option"
  rq_session :: "session_data option"

record cookie =
  ck_name :: string
  ck_value :: string
  ck_max_age :: int

record response =
  rs_status :: nat
  rs_body :: json
  rs_location :: "string option"
  rs_cookies :: "cookie list"

type_synonym handler = "request \<Rightarrow> world \<Rightarrow> response \<times> world"

definition StatusOK :: nat where "StatusOK = 200"
definition StatusCreated :: nat where "StatusCreated = 201"
definition StatusNoContent :: nat where "StatusNoContent = 204"
definition StatusFound :: nat where "StatusFound = 302"
definition StatusBadRequest :: nat where "StatusBadRequest = 400"
definition StatusUnauthorized :: nat where "StatusUnauthorized = 401"
definition StatusForbidden :: nat where "StatusForbidden = 403"
definition StatusNotFound :: nat where "StatusNotFound = 404"
definition StatusInternalServerError :: nat where "StatusInternalServerError = 500"
definition StatusServiceUnavailable :: nat where "StatusServiceUnavailable = 503"

lemmas status_defs =
  StatusOK_def StatusCreated_def StatusNoContent_def StatusFound_def StatusBadRequest_def
  StatusUnauthorized_def StatusForbidden_def StatusNotFound_def StatusInternalServerError_def
  StatusServiceUnavailable_def

definition writeJSON :: "nat \<Rightarrow> json \<Rightarrow> response" where
  "writeJSON code v = \<lparr>rs_status = code, rs_body = v, rs_location = None, rs_cookies = []\<rparr>"

definition error_body :: "string \<Rightarrow> json" where
  "error_body msg = JObj [(''error'', JStr msg)]"

definition Redirect :: "string \<Rightarrow> response" where
  "Redirect url = \<lparr>rs_status = StatusFound, rs_body = JNull, rs_location = Some url, rs_cookies = []\<rparr>"

text \<open>\<open>http.SetCookie\<close> before the response is written adds a header to it.\<close>

definition SetCookie :: "cookie \<Rightarrow> response \<Rightarrow> response" where
  "SetCookie c rs = rs\<lparr>rs_cookies := c # rs_cookies rs\<rparr>"

definition Cookie :: "string \<Rightarrow> request \<Rightarrow> string option" where
  "Cookie name rq = map_of (rq_cookies rq) name"

definition QueryGet :: "string \<Rightarrow> request \<Rightarrow> string" where
  "QueryGet key rq = (case map_of (rq_query rq) key of None \<Rightarrow> '''' | Some v \<Rightarrow> v)"

definition URLParam :: "string \<Rightarrow> request \<Rightarrow> string" where
  "URLParam key rq = (case map_of (rq_params rq) key of None \<Rightarrow> '''' | Some v \<Rightarrow> v)"

definition UserFromContext :: "request \<Rightarrow> session_data option" where
  "UserFromContext rq = rq_session rq"

section \<open>Decoding JSON into Go values\<close>

text \<open>
  \<open>encoding/json\<close> on the fields of a struct: a key names a field up to letter case, later keys are
  decoded over earlier ones, and null leaves a plain value as it is and makes a pointer nil. A
  value of another kind is an error (\<open>None\<close>) of the whole decoding.
\<close>

definition lower :: "char \<Rightarrow> char" where
  "lower c = (let n = of_char c :: nat in if 65 \<le> n \<and> n \<le> 90 then char_of (n + 32) else c)"

definition same_key :: "string \<Rightarrow> string \<Rightarrow> bool" where
  "same_key a b \<longleftrightarrow> map lower a = map lower b"

fun decode_field :: "(json \<Rightarrow> 'a \<Rightarrow> 'a option) \<Rightarrow> string \<Rightarrow> (string \<times> json) list \<Rightarrow> 'a \<Rightarrow> 'a option" where
  "decode_field dec key [] x = Some x"
| "decode_field dec key ((k, v) # kvs) x =
     (if same_key k key then Option.bind (dec v x) (decode_field dec key kvs)
      else decode_field dec key kvs x)"

fun text_value :: "json \<Rightarrow> string \<Rightarrow> string option" where
  "text_value (JStr s) x = Some s"
| "text_value JNull x = Some x"
| "text_value _ x = None"

fun text_pointer :: "json \<Rightarrow> string option \<Rightarrow> string option option" where
  "text_pointer (JStr s) x = Some (Some s)"
| "text_pointer JNull x = Some None"
| "text_pointer _ x = None"

fun bool_pointer :: "json \<Rightarrow> bool option \<Rightarrow> bool option option" where
  "bool_pointer (JBool b) x = Some (Some b)"
| "bool_pointer JNull x = Some None"
| "bool_pointer _ x = None"

definition raw_value :: "json \<Rightarrow> json option \<Rightarrow> json option option" where
  "raw_value v x = Some (Some v)"

fun text_elements :: "json list \<Rightarrow> string list option" where
  "text_elements [] = Some []"
| "text_elements (j # js) =
     (case (text_value j '''', text_elements js) of
        (Some s, Some ss) \<Rightarrow> Some (s # ss)
      | _ \<Rightarrow> None)"

fun texts_value :: "json \<Rightarrow> string list \<Rightarrow> string list option" where
  "texts_value (JArr js) x = text_elements js"
| "texts_value JNull x = Some []"
| "texts_value _ x = None"

text \<open>The top-level value decoded into a struct: an object, or null, which sets nothing.\<close>

definition object_fields :: "json option \<Rightarrow> (string \<times> json) list option" where
  "object_fields body = (case body of
     Some (JObj kvs) \<Rightarrow> Some kvs
   | Some JNull \<Rightarrow> Some []
   | _ \<Rightarrow> None)"

section \<open>Numbers in bodies\<close>

text \<open>Infinities and NaN have no JSON form: \<open>json.Marshal\<close> fails on them.\<close>

fun float_json :: "float64 \<Rightarrow> json option" where
  "float_json (Fin r) = Some (JNum r)"
| "float_json _ = None"

fun all_some :: "'a option list \<Rightarrow> 'a list option" where
  "all_some [] = Some []"
| "all_some (x # xs) = Option.bind x (\<lambda>y. map_option (Cons y) (all_some xs))"

section \<open>Guards\<close>

text \<open>
  The contract of a guarding middleware: it decides, without changing the tables, whether the
  request goes on, and with which request; otherwise it answers itself. A chain of guards in
  front of a handler never lets the handler run when one of them refuses.
\<close>

type_synonym guard = "request \<Rightarrow> world \<Rightarrow> (response + request) \<times> world"

definition guarded :: "guard \<Rightarrow> handler \<Rightarrow> handler" where
  "guarded g nxt rq w =
     (case g rq w of
        (Inl rs, w) \<Rightarrow> (rs, w)
      | (Inr rq, w) \<Rightarrow> nxt rq w)"

locale guarding =
  fixes g :: guard
  assumes keeps_tables: "g rq w = (r, w') \<Longrightarrow> w_db w' = w_db w"
    and refusal_status: "g rq w = (Inl rs, w') \<Longrightarrow> rs_status rs \<in> {StatusUnauthorized, StatusForbidden}"
begin

lemma refused:
  assumes "g rq w = (Inl rs, w1)"
  shows "guarded g nxt rq w = (rs, w1)" and "w_db w1 = w_db w"
    and "rs_status rs \<in> {StatusUnauthorized, StatusForbidden}"
  using assms keeps_tables refusal_status by (auto simp: guarded_def)

lemma passed:
  assumes "g rq w = (Inr rq', w1)"
  shows "guarded g nxt rq w = nxt rq' w1" and "w_db w1 = w_db w"
  using assms keeps_tables by (auto simp: guarded_def)

text \<open>A change of the tables behind the guard is the handler's, on a request that passed.\<close>

lemma change_passed:
  assumes "w_db (snd (guarded g nxt rq w)) \<noteq> w_db w"
  obtains rq' w1 where "g rq w = (Inr rq', w1)" and "guarded g nxt rq w = nxt rq' w1"
    and "w_db w1 = w_db w"
proof (cases "g rq w")
  case (Pair r w1)
  show thesis
  proof (cases r)
    case (Inl rs)
    with Pair assms refused(1,2) show thesis by (metis snd_conv)
  next
    case (Inr rq')
    with Pair passed that show thesis by metis
  qed
qed

lemma preserves:
  assumes "\<And>rq w. P (w_db w) \<Longrightarrow> P (w_db (snd (nxt rq w)))" and "P (w_db w)"
  shows "P (w_db (snd (guarded g nxt rq w)))"
proof (cases "g rq w")
  case (Pair r w1)
  with assms keeps_tables [OF Pair] show ?thesis
    by (cases r) (simp_all add: guarded_def)
qed

end

end
