(* ===== verification/Floats.thy ===== *)
theory Floats
  imports Models "HOL-Library.Log_Nat"
begin

text \<open>
  The arithmetic of Go's \<open>float64\<close>, IEEE 754 binary64 with rounding to nearest, ties to
  even: \<open>rnd\<close> is the float nearest to a rational, the operations are the exact ones followed
  by \<open>rnd\<close>. Lemmas: rounding is monotone and leaves floats as they are, and the comparisons of a
  rounded quotient with a float can be read off the exact quotient.
\<close>

section \<open>Rounding\<close>

definition pow2 :: "int \<Rightarrow> rat" where
  "pow2 e = 2 powi e"

definition round_even :: "rat \<Rightarrow> int" where
  "round_even x =
     (let k = \<lfloor>x\<rfloor>; d = x - of_int k in
      if d < 1/2 then k else if d > 1/2 then k + 1 else if even k then k else k + 1)"

text \<open>\<open>\<lfloor>log2 x\<rfloor>\<close> of a positive rational.\<close>

definition floor_log2 :: "rat \<Rightarrow> int" where
  "floor_log2 x =
     (let (n, d) = quotient_of x; e = bitlen n - bitlen d
      in if x < pow2 e then e - 1 else e)"

definition ulp_exp :: "rat \<Rightarrow> int" where
  "ulp_exp x = max (- 1074) (floor_log2 x - 52)"

definition rnd_pos :: "rat \<Rightarrow> rat" where
  "rnd_pos x = of_int (round_even (x / pow2 (ulp_exp x))) * pow2 (ulp_exp x)"

definition fits :: "rat \<Rightarrow> float64" where
  "fits r = (if r \<ge> pow2 1024 then PosInf else if r \<le> - pow2 1024 then NegInf else Fin r)"

definition rnd_rat :: "rat \<Rightarrow> rat" where
  "rnd_rat x = (if x = 0 then 0 else if x < 0 then - rnd_pos (- x) else rnd_pos x)"

definition rnd :: "rat \<Rightarrow> float64" where
  "rnd x = fits (rnd_rat x)"

section \<open>Operations\<close>

text \<open>A zero is \<open>+0\<close>: the sign of zero is not kept.\<close>

fun fneg :: "float64 \<Rightarrow> float64" where
  "fneg (Fin a) = Fin (- a)"
| "fneg PosInf = NegInf"
| "fneg NegInf = PosInf"
| "fneg NaN = NaN"

fun fadd :: "float64 \<Rightarrow> float64 \<Rightarrow> float64" where
  "fadd (Fin a) (Fin b) = rnd (a + b)"
| "fadd NaN y = NaN"
| "fadd x NaN = NaN"
| "fadd PosInf NegInf = NaN"
| "fadd NegInf PosInf = NaN"
| "fadd PosInf y = PosInf"
| "fadd x PosInf = PosInf"
| "fadd NegInf y = NegInf"
| "fadd x NegInf = NegInf"

definition fsub :: "float64 \<Rightarrow> float64 \<Rightarrow> float64" where
  "fsub x y = fadd x (fneg y)"

definition inf_of :: "rat \<Rightarrow> float64" where
  "inf_of r = (if r = 0 then NaN else if r > 0 then PosInf else NegInf)"

fun fmul :: "float64 \<Rightarrow> float64 \<Rightarrow> float64" where
  "fmul (Fin a) (Fin b) = rnd (a * b)"
| "fmul NaN y = NaN"
| "fmul x NaN = NaN"
| "fmul PosInf (Fin b) = inf_of b"
| "fmul (Fin a) PosInf = inf_of a"
| "fmul NegInf (Fin b) = inf_of (- b)"
| "fmul (Fin a) NegInf = inf_of (- a)"
| "fmul PosInf PosInf = PosInf"
| "fmul NegInf NegInf = PosInf"
| "fmul PosInf NegInf = NegInf"
| "fmul NegInf PosInf = NegInf"

fun fdiv :: "float64 \<Rightarrow> float64 \<Rightarrow> float64" where
  "fdiv (Fin a) (Fin b) = (if b = 0 then inf_of a else rnd (a / b))"
| "fdiv NaN y = NaN"
| "fdiv x NaN = NaN"
| "fdiv PosInf (Fin b) = (if b < 0 then NegInf else PosInf)"
| "fdiv NegInf (Fin b) = (if b < 0 then PosInf else NegInf)"
| "fdiv (Fin a) PosInf = Fin 0"
| "fdiv (Fin a) NegInf = Fin 0"
| "fdiv x y = NaN"

fun fless :: "float64 \<Rightarrow> float64 \<Rightarrow> bool" where
  "fless (Fin a) (Fin b) = (a < b)"
| "fless NaN y = False"
| "fless x NaN = False"
| "fless NegInf y = (y \<noteq> NegInf)"
| "fless x PosInf = (x \<noteq> PosInf)"
| "fless x y = False"

definition fle :: "float64 \<Rightarrow> float64 \<Rightarrow> bool" where
  "fle x y = (fless x y \<or> x = y \<and> x \<noteq> NaN)"

section \<open>Powers of two and the exponent\<close>

lemma pow2_pos [simp]: "0 < pow2 e"
  by (simp add: pow2_def)

lemma pow2_nonzero [simp]: "pow2 e \<noteq> 0"
  by (simp add: pow2_def)

lemma pow2_add: "pow2 (a + b) = pow2 a * pow2 b"
  by (simp add: pow2_def power_int_add)

lemma pow2_nat: "0 \<le> e \<Longrightarrow> pow2 e = of_int (2 ^ nat e)"
  by (simp add: pow2_def power_int_def)

lemma pow2_0 [simp]: "pow2 0 = 1"
  by (simp add: pow2_def)

lemma pow2_mono: "a \<le> b \<Longrightarrow> pow2 a \<le> pow2 b"
  by (simp add: pow2_def power_int_increasing)

lemma pow2_le_iff: "pow2 a \<le> pow2 b \<longleftrightarrow> a \<le> b"
  using power_int_strict_increasing [of b a "2::rat"] pow2_mono [of a b]
  by (fastforce simp: pow2_def)

lemma pow2_less_iff: "pow2 a < pow2 b \<longleftrightarrow> a < b"
  using pow2_le_iff [of b a] by linarith

lemma floor_log2_bounds:
  assumes "0 < x"
  shows "pow2 (floor_log2 x) \<le> x" and "x < pow2 (floor_log2 x + 1)"
proof -
  obtain n d where q: "quotient_of x = (n, d)" by (cases "quotient_of x")
  have d: "0 < d" using q by (rule quotient_of_denom_pos)
  have x: "x = of_int n / of_int d" using q by (rule quotient_of_div)
  have n: "0 < n" using assms d x by (simp add: zero_less_divide_iff)
  let ?bn = "bitlen n" and ?bd = "bitlen d"
  have b1: "1 \<le> ?bn" "1 \<le> ?bd" using n d by (simp_all add: bitlen_ge_iff_power)
  have nb: "pow2 (?bn - 1) \<le> of_int n" "of_int n < pow2 ?bn"
    using bitlen_bounds [OF n] b1 by (simp_all only: pow2_nat of_int_le_iff of_int_less_iff)
  have db: "pow2 (?bd - 1) \<le> of_int d" "of_int d < pow2 ?bd"
    using bitlen_bounds [OF d] b1 by (simp_all only: pow2_nat of_int_le_iff of_int_less_iff)
  let ?e = "?bn - ?bd"
  have "pow2 (?e - 1) * of_int d < pow2 (?e - 1) * pow2 ?bd" using db(2) by simp
  also have "\<dots> = pow2 (?bn - 1)" by (simp add: pow2_add [symmetric])
  also have "\<dots> \<le> of_int n" by (rule nb(1))
  finally have lo: "pow2 (?e - 1) < x" using d by (simp add: x pos_less_divide_eq)
  have "of_int n < pow2 ?bn" by (rule nb(2))
  also have "\<dots> = pow2 (?e + 1) * pow2 (?bd - 1)" by (simp add: pow2_add [symmetric])
  also have "\<dots> \<le> pow2 (?e + 1) * of_int d" using db(1) by simp
  finally have hi: "x < pow2 (?e + 1)" using d by (simp add: x pos_divide_less_eq)
  have f: "floor_log2 x = (if x < pow2 ?e then ?e - 1 else ?e)" by (simp add: floor_log2_def q)
  show "pow2 (floor_log2 x) \<le> x" "x < pow2 (floor_log2 x + 1)" using lo hi f by auto
qed

lemma floor_log2_less: "0 < x \<Longrightarrow> x < pow2 e \<Longrightarrow> floor_log2 x < e"
  using floor_log2_bounds(1) [of x] pow2_less_iff [of "floor_log2 x" e] by linarith

lemma floor_log2_mono: "0 < x \<Longrightarrow> x \<le> y \<Longrightarrow> floor_log2 x \<le> floor_log2 y"
  using floor_log2_less [of x "floor_log2 y + 1"] floor_log2_bounds(2) [of y] by linarith

lemma ulp_exp_mono: "0 < x \<Longrightarrow> x \<le> y \<Longrightarrow> ulp_exp x \<le> ulp_exp y"
  using floor_log2_mono [of x y] by (simp add: ulp_exp_def)

lemma below_ulp_range: "0 < x \<Longrightarrow> x < pow2 (ulp_exp x + 53)"
proof -
  assume "0 < x"
  then have "x < pow2 (floor_log2 x + 1)" by (rule floor_log2_bounds)
  also have "\<dots> \<le> pow2 (ulp_exp x + 53)" by (rule pow2_mono) (simp add: ulp_exp_def)
  finally show ?thesis .
qed

section \<open>Rounding is monotone and exact on floats\<close>

lemma round_even_of_int [simp]: "round_even (of_int k) = k"
  by (simp add: round_even_def)

lemma round_even_mono: "x \<le> y \<Longrightarrow> round_even x \<le> round_even y"
proof -
  assume le: "x \<le> y"
  then have f: "\<lfloor>x\<rfloor> \<le> \<lfloor>y\<rfloor>" by (rule floor_mono)
  have up: "round_even x \<le> \<lfloor>x\<rfloor> + 1" and lo: "\<lfloor>y\<rfloor> \<le> round_even y"
    by (simp_all add: round_even_def Let_def)
  show ?thesis
  proof (cases "\<lfloor>x\<rfloor> = \<lfloor>y\<rfloor>")
    case True
    with le show ?thesis by (simp add: round_even_def Let_def)
  next
    case False
    with f up lo show ?thesis by linarith
  qed
qed

lemma round_even_le: "x \<le> of_int k \<Longrightarrow> round_even x \<le> k"
  using round_even_mono [of x "of_int k"] by simp

lemma round_even_ge: "of_int k \<le> x \<Longrightarrow> k \<le> round_even x"
  using round_even_mono [of "of_int k" x] by simp

lemma rnd_pos_exact:
  assumes "0 < m" and "m \<le> 2 ^ 53" and "- 1074 \<le> e"
  shows "rnd_pos (of_int m * pow2 e) = of_int m * pow2 e"
proof -
  let ?x = "of_int m * pow2 e"
  have pos: "0 < ?x" using assms(1) by simp
  have "?x / pow2 (ulp_exp ?x) = of_int m * pow2 (e - ulp_exp ?x)"
    using pow2_add [of "e - ulp_exp ?x" "ulp_exp ?x"] by (simp add: field_simps)
  moreover have "\<exists>k. of_int m * pow2 (e - ulp_exp ?x) = (of_int k :: rat)"
  proof (cases "ulp_exp ?x \<le> e")
    case True
    then show ?thesis by (intro exI [where x = "m * 2 ^ nat (e - ulp_exp ?x)"]) (simp add: pow2_nat)
  next
    case False
    then have f: "e + 53 \<le> floor_log2 ?x" using assms(3) by (simp add: ulp_exp_def)
    then have "pow2 (e + 53) \<le> ?x" using floor_log2_bounds(1) [OF pos] pow2_mono order_trans by blast
    then have "pow2 53 \<le> of_int m" by (simp add: pow2_add)
    then have "of_int (2 ^ 53) \<le> (of_int m :: rat)" by (simp add: pow2_nat)
    then have m: "m = 2 ^ 53" using assms(2) by (simp only: of_int_le_iff)
    have "?x = pow2 (e + 53)" by (simp add: m pow2_add pow2_nat)
    then have "floor_log2 ?x < e + 54" using floor_log2_less [OF pos, of "e + 54"] by (simp add: pow2_less_iff)
    with f assms(3) have "ulp_exp ?x = e + 1" by (simp add: ulp_exp_def max_def)
    then have "of_int m * pow2 (e - ulp_exp ?x) = (of_int (2 ^ 52) :: rat)"
      by (simp add: m pow2_def power_int_minus)
    then show ?thesis by blast
  qed
  ultimately obtain k where "?x / pow2 (ulp_exp ?x) = of_int k" by auto
  then have "rnd_pos ?x = of_int k * pow2 (ulp_exp ?x)" and "of_int k * pow2 (ulp_exp ?x) = ?x"
    by (simp_all add: rnd_pos_def) (simp add: field_simps)
  then show ?thesis by simp
qed

lemma rnd_pos_mono:
  assumes "0 < x" and "x \<le> y"
  shows "rnd_pos x \<le> rnd_pos y"
proof (cases "ulp_exp x = ulp_exp y")
  case True
  have "round_even (x / pow2 (ulp_exp y)) \<le> round_even (y / pow2 (ulp_exp y))"
    using assms(2) by (intro round_even_mono divide_right_mono) (simp_all add: less_imp_le)
  then show ?thesis by (simp add: rnd_pos_def True)
next
  case False
  with ulp_exp_mono [OF assms] have less: "ulp_exp x + 1 \<le> ulp_exp y" by simp
  have "x < of_int (2 ^ 53) * pow2 (ulp_exp x)"
    using below_ulp_range [OF assms(1)] by (simp add: pow2_add pow2_nat)
  then have "x / pow2 (ulp_exp x) \<le> of_int (2 ^ 53)" by (simp add: pos_divide_le_eq)
  then have "rnd_pos x \<le> of_int (2 ^ 53) * pow2 (ulp_exp x)"
    unfolding rnd_pos_def by (intro mult_right_mono) (simp_all only: round_even_le of_int_le_iff less_imp_le pow2_pos)
  also have "\<dots> = of_int (2 ^ 52) * pow2 (ulp_exp x + 1)" by (simp add: pow2_add pow2_nat)
  also have "\<dots> \<le> of_int (2 ^ 52) * pow2 (ulp_exp y)" using less by (simp add: pow2_mono)
  also have "\<dots> \<le> rnd_pos y"
  proof -
    have e: "ulp_exp y = floor_log2 y - 52" using less by (simp add: ulp_exp_def)
    have "pow2 (ulp_exp y + 52) \<le> y"
      using floor_log2_bounds(1) [of y] assms by (simp add: e)
    then have "of_int (2 ^ 52) \<le> y / pow2 (ulp_exp y)"
      by (simp add: pos_le_divide_eq pow2_add pow2_nat mult.commute)
    then show ?thesis unfolding rnd_pos_def
      by (intro mult_right_mono) (simp_all only: round_even_ge of_int_le_iff less_imp_le pow2_pos)
  qed
  finally show ?thesis .
qed

lemma rnd_pos_nonneg: "0 < x \<Longrightarrow> 0 \<le> rnd_pos x"
  unfolding rnd_pos_def by (intro mult_nonneg_nonneg) (simp_all add: round_even_ge less_imp_le)

lemma rnd_rat_pos: "0 < x \<Longrightarrow> rnd_rat x = rnd_pos x"
  by (simp add: rnd_rat_def)

lemma rnd_rat_mono: "x \<le> y \<Longrightarrow> rnd_rat x \<le> rnd_rat y"
  using rnd_pos_mono [of x y] rnd_pos_mono [of "- y" "- x"] rnd_pos_nonneg [of y] rnd_pos_nonneg [of "- x"]
  by (auto simp: rnd_rat_def)

lemma rnd_rat_0 [simp]: "rnd_rat 0 = 0"
  by (simp add: rnd_rat_def)

lemma rnd_rat_minus: "rnd_rat (- x) = - rnd_rat x"
  by (simp add: rnd_rat_def)

lemma rnd_rat_nonneg: "0 \<le> x \<Longrightarrow> 0 \<le> rnd_rat x"
  using rnd_rat_mono [of 0 x] by simp

text \<open>The rounded values are the multiples of a power of two by at most 53 bits.\<close>

lemma rnd_rat_form:
  assumes "0 < x"
  obtains m where "rnd_rat x = of_int m * pow2 (ulp_exp x)" and "0 \<le> m" and "m \<le> 2 ^ 53"
proof
  show "rnd_rat x = of_int (round_even (x / pow2 (ulp_exp x))) * pow2 (ulp_exp x)"
    using assms by (simp add: rnd_rat_def rnd_pos_def)
  show "0 \<le> round_even (x / pow2 (ulp_exp x))"
    by (rule round_even_ge) (simp add: assms less_imp_le)
  have "x < of_int (2 ^ 53) * pow2 (ulp_exp x)"
    using below_ulp_range [OF assms] by (simp add: pow2_add pow2_nat)
  then show "round_even (x / pow2 (ulp_exp x)) \<le> 2 ^ 53"
    by (intro round_even_le) (simp add: pos_divide_le_eq)
qed

lemma ulp_exp_ge: "- 1074 \<le> ulp_exp x"
  by (simp add: ulp_exp_def)

lemma rnd_rat_exact:
  assumes "\<bar>m\<bar> \<le> 2 ^ 53" and "- 1074 \<le> e"
  shows "rnd_rat (of_int m * pow2 e) = of_int m * pow2 e"
proof -
  have pos: "rnd_rat (of_int k * pow2 e) = of_int k * pow2 e" if "0 < k" "k \<le> 2 ^ 53" for k
  proof -
    have "0 < of_int k * pow2 e" using that(1) by simp
    then show ?thesis using rnd_pos_exact [OF that assms(2)] by (simp only: rnd_rat_pos)
  qed
  consider "m = 0" | "0 < m" | "0 < - m" by linarith
  then show ?thesis
  proof cases
    case 3
    have "- rnd_rat (of_int m * pow2 e) = rnd_rat (of_int (- m) * pow2 e)"
      by (simp add: rnd_rat_minus [symmetric])
    with pos [OF 3] assms(1) show ?thesis by simp
  qed (use pos [of m] assms(1) in simp_all)
qed

lemma rnd_rat_idem [simp]: "rnd_rat (rnd_rat x) = rnd_rat x"
proof -
  have pos: "rnd_rat (rnd_rat y) = rnd_rat y" if "0 < y" for y
  proof -
    from that obtain m where "rnd_rat y = of_int m * pow2 (ulp_exp y)" "0 \<le> m" "m \<le> 2 ^ 53"
      by (rule rnd_rat_form)
    then show ?thesis using rnd_rat_exact [OF _ ulp_exp_ge, of m y] by simp
  qed
  consider "x = 0" | "0 < x" | "0 < - x" by linarith
  then show ?thesis
  proof cases
    case 3
    from pos [OF 3] show ?thesis by (simp add: rnd_rat_minus)
  qed (use pos [of x] in simp_all)
qed

section \<open>Floats\<close>

text \<open>A rational that is the value of a \<open>float64\<close>, up to the range.\<close>

definition is_float :: "rat \<Rightarrow> bool" where
  "is_float r \<longleftrightarrow> rnd_rat r = r"

lemma is_float_rnd [simp]: "is_float (rnd_rat x)"
  by (simp add: is_float_def)

lemma is_float_multiple: "\<bar>m\<bar> \<le> 2 ^ 53 \<Longrightarrow> - 1074 \<le> e \<Longrightarrow> is_float (of_int m * pow2 e)"
  by (simp add: is_float_def rnd_rat_exact)

lemma is_float_int: "\<bar>m\<bar> \<le> 2 ^ 53 \<Longrightarrow> is_float (of_int m)"
  using is_float_multiple [of m 0] by simp

lemma is_float_0 [simp]: "is_float 0" and is_float_1 [simp]: "is_float 1"
  using is_float_int [of 0] is_float_int [of 1] by simp_all

lemma rnd_Fin: "rnd x = Fin r \<Longrightarrow> r = rnd_rat x \<and> is_float r"
  by (auto simp: rnd_def fits_def split: if_splits)

lemma rnd_Fin_range: "rnd x = Fin r \<Longrightarrow> r < pow2 1024"
  by (auto simp: rnd_def fits_def split: if_splits)

lemma rnd_cases: "rnd x = Fin (rnd_rat x) \<or> rnd x = PosInf \<and> pow2 1024 \<le> rnd_rat x
    \<or> rnd x = NegInf \<and> rnd_rat x \<le> - pow2 1024"
  by (simp add: rnd_def fits_def)

lemma rnd_not_NaN [simp]: "rnd x \<noteq> NaN"
  by (simp add: rnd_def fits_def)

lemma rnd_rat_le: "x \<le> r \<Longrightarrow> is_float r \<Longrightarrow> rnd_rat x \<le> r"
  using rnd_rat_mono [of x r] by (simp add: is_float_def)

lemma rnd_rat_ge: "r \<le> x \<Longrightarrow> is_float r \<Longrightarrow> r \<le> rnd_rat x"
  using rnd_rat_mono [of r x] by (simp add: is_float_def)

lemma rnd_float: "is_float r \<Longrightarrow> \<bar>r\<bar> \<le> pow2 64 \<Longrightarrow> rnd r = Fin r"
proof -
  assume r: "is_float r" "\<bar>r\<bar> \<le> pow2 64"
  have "pow2 64 < pow2 1024" by (simp only: pow2_less_iff)
  with r show ?thesis by (auto simp: rnd_def fits_def is_float_def abs_le_iff)
qed

lemma rnd_int: "\<bar>m\<bar> \<le> 2 ^ 53 \<Longrightarrow> rnd (of_int m) = Fin (of_int m)"
proof -
  assume m: "\<bar>m\<bar> \<le> 2 ^ 53"
  have "\<bar>of_int m\<bar> \<le> (of_int (2 ^ 53) :: rat)" using m by (simp only: of_int_abs [symmetric] of_int_le_iff)
  also have "\<dots> = pow2 53" by (simp add: pow2_nat)
  also have "\<dots> \<le> pow2 64" by (simp only: pow2_le_iff)
  finally show ?thesis using m by (intro rnd_float is_float_int)
qed

text \<open>A float of at least another is a multiple of the smaller one's unit.\<close>

lemma float_multiple:
  assumes "0 < a" and "a \<le> b" and "is_float b"
  obtains n where "b = of_int n * pow2 (ulp_exp a)"
proof -
  have b: "0 < b" using assms by simp
  then obtain m where m: "rnd_rat b = of_int m * pow2 (ulp_exp b)" by (rule rnd_rat_form)
  have le: "0 \<le> ulp_exp b - ulp_exp a" using ulp_exp_mono [OF assms(1,2)] by simp
  have "pow2 (ulp_exp b) = of_int (2 ^ nat (ulp_exp b - ulp_exp a)) * pow2 (ulp_exp a)"
    unfolding pow2_nat [OF le, symmetric] by (simp add: pow2_add [symmetric])
  with m assms(3) have "b = of_int (m * 2 ^ nat (ulp_exp b - ulp_exp a)) * pow2 (ulp_exp a)"
    by (simp add: is_float_def)
  then show thesis by (rule that)
qed

lemma almost_one: "is_float (1 - inverse (2 ^ 53))"
proof -
  have "of_int (2 ^ 53 - 1) * pow2 (- 53) = (1 - inverse (2 ^ 53) :: rat)"
    by (simp add: pow2_def power_int_minus field_simps)
  from is_float_multiple [of "2 ^ 53 - 1" "- 53", unfolded this] show ?thesis by simp
qed

text \<open>The rounded quotient of two different floats stays on its side of 1.\<close>

lemma quotient_below_one:
  assumes "0 \<le> a" and "a < b" and "is_float a" and "is_float b"
  shows "rnd_rat (a / b) < 1"
proof (cases "a = 0")
  case False
  with assms(1) have pos: "0 < a" "0 < b" using assms(2) by simp_all
  define u where "u = pow2 (ulp_exp a)"
  have u: "0 < u" by (simp add: u_def)
  obtain m where m: "a = of_int m * u" using float_multiple [OF pos(1) order_refl assms(3)] unfolding u_def .
  obtain n where n: "b = of_int n * u"
    using float_multiple [OF pos(1) less_imp_le [OF assms(2)] assms(4)] unfolding u_def .
  have "a < of_int (2 ^ 53) * u"
    using below_ulp_range [OF pos(1)] by (simp add: u_def pow2_add pow2_nat)
  then have "m < 2 ^ 53" unfolding m using u by (simp only: mult_less_cancel_right_pos of_int_less_iff)
  then have m53: "m + 1 \<le> 2 ^ 53" by simp
  have "m < n" using assms(2) unfolding m n using u by (simp only: mult_less_cancel_right_pos of_int_less_iff)
  then have mn: "m + 1 \<le> n" by simp
  have m0: "0 < m" using pos(1) u unfolding m by (simp add: zero_less_mult_iff)
  have "a / b = of_int m / of_int n" using u unfolding m n by simp
  also have "\<dots> \<le> of_int m / of_int (m + 1)" using mn m0 by (intro divide_left_mono) simp_all
  also have "\<dots> = 1 - inverse (of_int (m + 1))" using m0 by (simp add: field_simps)
  also have "\<dots> \<le> 1 - inverse (of_int (2 ^ 53))"
  proof -
    have "(of_int (m + 1) :: rat) \<le> of_int (2 ^ 53)" using m53 by (simp only: of_int_le_iff)
    then have "inverse (of_int (2 ^ 53)) \<le> inverse (of_int (m + 1) :: rat)"
      using m0 by (intro le_imp_inverse_le) simp_all
    then show ?thesis by simp
  qed
  finally have "a / b \<le> 1 - inverse (2 ^ 53)" by simp
  from rnd_rat_le [OF this almost_one] show ?thesis
    by (rule le_less_trans) simp
qed simp

lemma quotient_at_least_one:
  assumes "0 < b" and "b \<le> a"
  shows "1 \<le> rnd_rat (a / b)"
  by (rule rnd_rat_ge) (use assms in simp_all)

text \<open>So a rounded quotient reaches 1 exactly when the dividend reaches the divisor.\<close>

lemma fdiv_reaches_one:
  assumes "0 < b" and "is_float a" and "is_float b"
  shows "fle (Fin 1) (fdiv (Fin a) (Fin b)) \<longleftrightarrow> b \<le> a"
proof -
  have iff: "1 \<le> rnd_rat (a / b) \<longleftrightarrow> b \<le> a"
  proof (cases "0 \<le> a")
    case True
    with assms quotient_below_one [of a b] quotient_at_least_one [of b a] show ?thesis by force
  next
    case False
    then have "rnd_rat (a / b) \<le> 0" using assms(1) by (intro rnd_rat_le) (simp_all add: divide_le_0_iff)
    with False assms(1) show ?thesis by linarith
  qed
  have "(1::rat) < pow2 1024" using pow2_less_iff [of 0 1024] by simp
  with iff assms(1) rnd_cases [of "a / b"] show ?thesis
    by (elim disjE conjE) (auto simp: fle_def less_le)
qed

end
