(* ===== verification/Plugin_Api.thy ===== *)
theory Plugin_Api
  imports Http Floats
begin

text \<open>
  The plugin interface of \<open>pkg/plugin/plugin.go\<close>, the event channel of a plugin, and what both shipped
  plugins do with OpenCost's allocation answer: the request, and the decoding of its body into windows of
  named allocations.

  Bytes are a type variable: \<open>pe_unmarshal\<close> reads them as JSON and \<open>pe_marshal\<close> writes JSON. The HTTP
  client is the function \<open>pe_get\<close> of the address and of the number of requests so far; Go's
  iteration order over a map is \<open>pe_range\<close>.
\<close>

section \<open>The interface\<close>

record route =
  rt_method :: string
  rt_path :: string
  rt_description :: string

record metadata =
  md_name :: string
  md_version :: string
  md_description :: string
  md_type :: string
  md_topics :: "string list"
  md_routes :: "route list"

record 'b init_request =
  ir_config :: "'b option"
  ir_url :: string

record execute_request =
  xr_action :: string
  xr_params :: "(string \<times> string) list"

record 'b execute_response =
  xp_data :: "'b option"
  xp_content_type :: string
  xp_status :: nat
  xp_error :: string

text \<open>
  The error of \<open>json.Marshal\<close> names the first number without a JSON form, as \<open>strconv.FormatFloat\<close> writes it.
\<close>

fun float_name :: "float64 \<Rightarrow> string" where
  "float_name PosInf = ''+Inf''"
| "float_name NegInf = ''-Inf''"
| "float_name NaN = ''NaN''"
| "float_name (Fin r) = ''''"

definition marshal_error :: "float64 list \<Rightarrow> string" where
  "marshal_error xs = ''json: unsupported value: '' @ concat (map float_name (take 1 (filter (\<lambda>x. float_json x = None) xs)))"

text \<open>An event of a plugin; a nil payload is \<open>None\<close>.\<close>

record plugin_event =
  pv_type :: string
  pv_topic :: string
  pv_time :: time
  pv_source :: string
  pv_payload :: "json option"

section \<open>Channels\<close>

text \<open>
  A buffered channel. \<open>try_send\<close> is a \<open>select\<close> with a send and a default branch: a full buffer drops
  the value, a closed channel is a panic (\<open>None\<close>). Closing twice is a panic.
\<close>

record 'a channel =
  ch_queue :: "'a list"
  ch_closed :: bool

definition make_channel :: "'a channel" where
  "make_channel = \<lparr>ch_queue = [], ch_closed = False\<rparr>"

definition try_send :: "nat \<Rightarrow> 'a \<Rightarrow> 'a channel \<Rightarrow> 'a channel option" where
  "try_send capacity x c =
     (if ch_closed c then None
      else if length (ch_queue c) < capacity then Some (c\<lparr>ch_queue := ch_queue c @ [x]\<rparr>)
      else Some c)"

definition close_channel :: "'a channel \<Rightarrow> 'a channel option" where
  "close_channel c = (if ch_closed c then None else Some (c\<lparr>ch_closed := True\<rparr>))"

text \<open>A sequence of such sends.\<close>

fun try_send_all :: "nat \<Rightarrow> 'a list \<Rightarrow> 'a channel \<Rightarrow> 'a channel option" where
  "try_send_all capacity [] c = Some c"
| "try_send_all capacity (x # xs) c = Option.bind (try_send capacity x c) (try_send_all capacity xs)"

lemma try_send_all_open:
  assumes "\<not> ch_closed c"
  shows "try_send_all n xs c = Some (c\<lparr>ch_queue := ch_queue c @ take (n - length (ch_queue c)) xs\<rparr>)"
  using assms
proof (induction xs arbitrary: c)
  case (Cons x xs)
  show ?case
  proof (cases "length (ch_queue c) < n")
    case True
    then have "n - length (ch_queue c) = Suc (n - Suc (length (ch_queue c)))" by simp
    with Cons True show ?thesis by (simp add: try_send_def)
  next
    case False
    with Cons show ?thesis by (simp add: try_send_def)
  qed
qed simp

section \<open>Allocations\<close>

type_synonym alloc = "(string \<times> json) list"
type_synonym window = "(string \<times> alloc) list"

text \<open>A request to OpenCost: it may not be built, not be answered, or its body not be read.\<close>

datatype 'b http_result =
    NoRequest string
  | NoAnswer string
  | NoBody string
  | Answer nat 'b

record 'b plugin_env =
  pe_get :: "string \<Rightarrow> nat \<Rightarrow> 'b http_result"
  pe_unmarshal :: "'b \<Rightarrow> json option"
  pe_marshal :: "json \<Rightarrow> 'b"
  pe_clock :: "nat \<Rightarrow> time"
  pe_zone :: int
  pe_range :: "window \<Rightarrow> window"

text \<open>A JSON number as a \<open>float64\<close>; out of range is an error of \<open>Unmarshal\<close>.\<close>

definition number_value :: "rat \<Rightarrow> float64 option" where
  "number_value r = (case rnd r of Fin x \<Rightarrow> Some (Fin x) | _ \<Rightarrow> None)"

text \<open>Decoding into \<open>any\<close> fails only for such a number.\<close>

fun any_ok :: "json \<Rightarrow> bool" where
  "any_ok (JNum r) = (number_value r \<noteq> None)"
| "any_ok (JArr js) = list_all any_ok js"
| "any_ok (JObj kvs) = list_all (\<lambda>kv. any_ok (snd kv)) kvs"
| "any_ok j = True"

text \<open>\<open>map[string]any\<close>: \<open>null\<close> is the nil map; a repeated key keeps its last value.\<close>

fun alloc_value :: "json \<Rightarrow> alloc option" where
  "alloc_value JNull = Some []"
| "alloc_value (JObj kvs) =
     (if list_all (\<lambda>kv. any_ok (snd kv)) kvs then Some (fold (\<lambda>(k, v). AList.update k v) kvs []) else None)"
| "alloc_value j = None"

text \<open>
  A slice of maps from strings, with the decoder of their values: a map is decoded into the one that is there
  already, if any; a slice element into the one at its place.
\<close>

fun map_fields :: "(json \<Rightarrow> 'v option) \<Rightarrow> (string \<times> json) list \<Rightarrow> (string \<times> 'v) list \<Rightarrow> (string \<times> 'v) list option" where
  "map_fields dec [] w = Some w"
| "map_fields dec ((k, v) # kvs) w =
     (case dec v of None \<Rightarrow> None | Some a \<Rightarrow> map_fields dec kvs (AList.update k a w))"

fun map_value :: "(json \<Rightarrow> 'v option) \<Rightarrow> json \<Rightarrow> (string \<times> 'v) list \<Rightarrow> (string \<times> 'v) list option" where
  "map_value dec JNull w = Some []"
| "map_value dec (JObj kvs) w = map_fields dec kvs w"
| "map_value dec j w = None"

fun map_elements :: "(json \<Rightarrow> 'v option) \<Rightarrow> json list \<Rightarrow> (string \<times> 'v) list list \<Rightarrow> (string \<times> 'v) list list option" where
  "map_elements dec [] ws = Some []"
| "map_elements dec (j # js) ws =
     (case map_value dec j (case ws of [] \<Rightarrow> [] | w # _ \<Rightarrow> w) of
        None \<Rightarrow> None
      | Some w \<Rightarrow> map_option (Cons w) (map_elements dec js (tl ws)))"

fun maps_value :: "(json \<Rightarrow> 'v option) \<Rightarrow> json \<Rightarrow> (string \<times> 'v) list list \<Rightarrow> (string \<times> 'v) list list option" where
  "maps_value dec JNull ws = Some []"
| "maps_value dec (JArr js) ws = map_elements dec js ws"
| "maps_value dec j ws = None"

fun int_value :: "json \<Rightarrow> int \<Rightarrow> int option" where
  "int_value JNull n = Some n"
| "int_value (JNum r) n =
     (if r = of_int \<lfloor>r\<rfloor> \<and> - (2 ^ 63) \<le> \<lfloor>r\<rfloor> \<and> \<lfloor>r\<rfloor> < 2 ^ 63 then Some \<lfloor>r\<rfloor> else None)"
| "int_value j n = None"

fun float_value :: "json \<Rightarrow> float64 \<Rightarrow> float64 option" where
  "float_value JNull x = Some x"
| "float_value (JNum r) x = number_value r"
| "float_value j x = None"

text \<open>A struct \<open>{Code int; Data []map[string]T}\<close>, with the decoder of \<open>T\<close>.\<close>

definition response_data :: "(json \<Rightarrow> 'v option) \<Rightarrow> json \<Rightarrow> (string \<times> 'v) list list option" where
  "response_data dec j =
     Option.bind (object_fields (Some j)) (\<lambda>kvs.
     Option.bind (decode_field int_value ''code'' kvs 0) (\<lambda>code.
       decode_field (maps_value dec) ''data'' kvs []))"

definition allocation_data :: "json \<Rightarrow> window list option" where
  "allocation_data = response_data alloc_value"

definition fetch_windows :: "'b plugin_env \<Rightarrow> string \<Rightarrow> nat \<Rightarrow> window list option" where
  "fetch_windows e url n =
     (case pe_get e url n of
        Answer status body \<Rightarrow> Option.bind (pe_unmarshal e body) allocation_data
      | _ \<Rightarrow> None)"

text \<open>\<open>alloc[key].(float64)\<close>.\<close>

definition float_at :: "string \<Rightarrow> alloc \<Rightarrow> float64 option" where
  "float_at key a = (case map_of a key of Some (JNum r) \<Rightarrow> number_value r | _ \<Rightarrow> None)"

lemma number_value_Some: "number_value r = Some x \<Longrightarrow> \<exists>q. x = Fin q \<and> is_float q"
  by (cases "rnd r") (auto simp: number_value_def dest: rnd_Fin)

lemma float_at_Some: "float_at key a = Some x \<Longrightarrow> \<exists>q. x = Fin q \<and> is_float q"
  by (auto simp: float_at_def dest: number_value_Some split: option.splits json.splits)

end
