(* ===== verification/Collectors.thy ===== *)
theory Collectors
  imports Scheduler Calendar Plugin_Api
begin

text \<open>
  The collectors behind the registry: \<open>internal/collector/kubernetes\<close>, \<open>aws\<close>, \<open>azure\<close> and \<open>gcp\<close>, with
  the configurations of \<open>internal/models/models.go\<close>, and the registry as \<open>cmd/finguard/main.go\<close> fills it.
  The cloud collectors decode their configuration and collect nothing: their queries and row
  conversions exist, but nothing calls them yet.
  Lemmas: what a Kubernetes record looks like, that validated configurations decode, and that the texts of dates
  in the queries compare as the dates do.

  The instants of a window are in UTC. The client is \<open>ce_request\<close> (why a request cannot be built, if it cannot)
  and \<open>ce_do\<close>; a body is what reading it yields, as JSON (\<open>ce_decode\<close>, \<open>None\<close> for any
  failure) or as text; \<open>ce_range\<close> is the order in which Go iterates over the namespaces.
\<close>

section \<open>Configurations\<close>

record aws_config =
  AWS_AccountID :: string
  RoleARN :: string
  ExternalID :: string
  AWS_Region :: string
  AthenaBucket :: string
  AthenaRegion :: string
  AthenaDatabase :: string
  AthenaTable :: string
  AthenaWorkgroup :: string
  CURVersion :: string

record azure_config =
  SubscriptionID :: string
  TenantID :: string
  ClientID :: string
  ClientSecret :: string
  StorageAccount :: string
  StorageAccessKey :: string
  StorageContainer :: string
  ContainerPath :: string
  AzureCloud :: string

record gcp_config =
  GCP_ProjectID :: string
  BillingAccountID :: string
  BillingDataDataset :: string
  ServiceAccountKey :: string

record kubernetes_config =
  ClusterName :: string
  OpenCostURL :: string
  KubeconfigRef :: string

text \<open>A struct of texts; a nil configuration is no JSON and does not decode.\<close>

definition text_fields :: "string list \<Rightarrow> json option \<Rightarrow> string list option" where
  "text_fields keys config =
     Option.bind (object_fields config) (\<lambda>kvs. all_some (map (\<lambda>k. decode_field text_value k kvs '''') keys))"

definition aws_config_of :: "json option \<Rightarrow> aws_config option" where
  "aws_config_of config =
     (case text_fields [''accountId'', ''roleArn'', ''externalId'', ''region'', ''athenaBucket'', ''athenaRegion'',
             ''athenaDatabase'', ''athenaTable'', ''athenaWorkgroup'', ''curVersion''] config of
        Some [account, arn, ext, region, bucket, aregion, database, table, workgroup, cur] \<Rightarrow>
          Some \<lparr>AWS_AccountID = account, RoleARN = arn, ExternalID = ext, AWS_Region = region,
                AthenaBucket = bucket, AthenaRegion = aregion, AthenaDatabase = database, AthenaTable = table,
                AthenaWorkgroup = workgroup, CURVersion = cur\<rparr>
      | _ \<Rightarrow> None)"

definition azure_config_of :: "json option \<Rightarrow> azure_config option" where
  "azure_config_of config =
     (case text_fields [''subscriptionId'', ''tenantId'', ''clientId'', ''clientSecret'', ''storageAccount'',
             ''storageAccessKey'', ''storageContainer'', ''containerPath'', ''azureCloud''] config of
        Some [subscription, tenant, client, secret, account, accessKey, container, path, cloud] \<Rightarrow>
          Some \<lparr>SubscriptionID = subscription, TenantID = tenant, ClientID = client, ClientSecret = secret,
                StorageAccount = account, StorageAccessKey = accessKey, StorageContainer = container,
                ContainerPath = path, AzureCloud = cloud\<rparr>
      | _ \<Rightarrow> None)"

definition gcp_config_of :: "json option \<Rightarrow> gcp_config option" where
  "gcp_config_of config =
     (case text_fields [''projectId'', ''billingAccountId'', ''billingDataDataset'', ''serviceAccountKey''] config of
        Some [project, account, dataset, accountKey] \<Rightarrow>
          Some \<lparr>GCP_ProjectID = project, BillingAccountID = account, BillingDataDataset = dataset,
                ServiceAccountKey = accountKey\<rparr>
      | _ \<Rightarrow> None)"

definition kubernetes_config_of :: "json option \<Rightarrow> kubernetes_config option" where
  "kubernetes_config_of config =
     (case text_fields [''clusterName'', ''opencostUrl'', ''kubeconfigRef''] config of
        Some [cluster, url, ref] \<Rightarrow> Some \<lparr>ClusterName = cluster, OpenCostURL = url, KubeconfigRef = ref\<rparr>
      | _ \<Rightarrow> None)"

section \<open>The environment\<close>

record 'b collect_env =
  ce_request :: "string \<Rightarrow> string option"
  ce_do :: "string \<Rightarrow> nat \<Rightarrow> string + (nat \<times> 'b)"
  ce_decode :: "'b \<Rightarrow> json option"
  ce_text :: "'b \<Rightarrow> string"
  ce_json_error :: "json option \<Rightarrow> string"
  ce_decode_error :: "'b \<Rightarrow> string"
  ce_range :: "string list \<Rightarrow> string list"

section \<open>Validation\<close>

definition ValidateAWS :: "'b collect_env \<Rightarrow> json option \<Rightarrow> string option" where
  "ValidateAWS e config =
     (case aws_config_of config of
        None \<Rightarrow> Some (''invalid AWS config: '' @ ce_json_error e config)
      | Some cfg \<Rightarrow>
          if AWS_AccountID cfg = '''' then Some ''accountId is required''
          else if RoleARN cfg = '''' then Some ''roleArn is required'' else None)"

definition ValidateAzure :: "'b collect_env \<Rightarrow> json option \<Rightarrow> string option" where
  "ValidateAzure e config =
     (case azure_config_of config of
        None \<Rightarrow> Some (''invalid Azure config: '' @ ce_json_error e config)
      | Some cfg \<Rightarrow>
          if SubscriptionID cfg = '''' then Some ''subscriptionId is required''
          else if StorageAccount cfg = '''' then Some ''storageAccount is required'' else None)"

definition ValidateGCP :: "'b collect_env \<Rightarrow> json option \<Rightarrow> string option" where
  "ValidateGCP e config =
     (case gcp_config_of config of
        None \<Rightarrow> Some (''invalid GCP config: '' @ ce_json_error e config)
      | Some cfg \<Rightarrow> if GCP_ProjectID cfg = '''' then Some ''projectId is required'' else None)"

definition ValidateKubernetes :: "'b collect_env \<Rightarrow> json option \<Rightarrow> string option" where
  "ValidateKubernetes e config =
     (case kubernetes_config_of config of
        None \<Rightarrow> Some (''invalid Kubernetes config: '' @ ce_json_error e config)
      | Some cfg \<Rightarrow>
          if ClusterName cfg = '''' then Some ''clusterName is required''
          else if OpenCostURL cfg = '''' then Some ''opencostUrl is required'' else None)"

section \<open>Kubernetes\<close>

record allocation =
  al_name :: string
  al_start :: string
  al_end :: string
  CPUCost :: float64
  RAMCost :: float64
  GPUCost :: float64
  TotalCost :: float64

definition allocation_of :: "json \<Rightarrow> allocation option" where
  "allocation_of j =
     Option.bind (object_fields (Some j)) (\<lambda>kvs.
     Option.bind (decode_field text_value ''name'' kvs '''') (\<lambda>name.
     Option.bind (decode_field text_value ''start'' kvs '''') (\<lambda>start.
     Option.bind (decode_field text_value ''end'' kvs '''') (\<lambda>stop.
     Option.bind (decode_field float_value ''cpuCost'' kvs (Fin 0)) (\<lambda>cpu.
     Option.bind (decode_field float_value ''ramCost'' kvs (Fin 0)) (\<lambda>ram.
     Option.bind (decode_field float_value ''gpuCost'' kvs (Fin 0)) (\<lambda>gpu.
     Option.bind (decode_field float_value ''totalCost'' kvs (Fin 0)) (\<lambda>cost.
       Some \<lparr>al_name = name, al_start = start, al_end = stop, CPUCost = cpu, RAMCost = ram,
             GPUCost = gpu, TotalCost = cost\<rparr>))))))))"

definition allocation_url :: "kubernetes_config \<Rightarrow> time_window \<Rightarrow> string" where
  "allocation_url cfg window =
     OpenCostURL cfg @ ''/allocation?window='' @ format_rfc3339 (tw_start window) @ '','' @ format_rfc3339 (tw_end window)
       @ ''&aggregate=namespace&accumulate=true''"

text \<open>The record of a namespace; \<open>LabelsJSON\<close> stays unset, the store fills it in.\<close>

definition kubernetes_record :: "cost_source \<Rightarrow> kubernetes_config \<Rightarrow> time_window \<Rightarrow> string \<Rightarrow> allocation \<Rightarrow> cost_record" where
  "kubernetes_record source cfg window namespace alloc =
     \<lparr>cr_id = '''', cr_project = cs_project source, cr_source = cs_id source, cr_provider = ''kubernetes'',
      cr_provider_id = ClusterName cfg @ ''/'' @ namespace, cr_account_id = ClusterName cfg,
      cr_account_name = ClusterName cfg, cr_invoice = '''', cr_service = ''Kubernetes/'' @ namespace,
      cr_category = ''Compute'', cr_region = '''', cr_zone = '''',
      cr_start = tw_start window, cr_end = tw_end window,
      cr_list = TotalCost alloc, cr_net = TotalCost alloc, cr_amortized = TotalCost alloc, cr_amortized_net = Fin 0,
      cr_currency = ''USD'', cr_labels = Some [(''namespace'', namespace), (''cluster'', ClusterName cfg)],
      cr_labels_json = JNull, cr_k8s_percent = Fin 1\<rparr>"

definition namespace_records ::
  "'b collect_env \<Rightarrow> cost_source \<Rightarrow> kubernetes_config \<Rightarrow> time_window \<Rightarrow> (string \<times> allocation) list \<Rightarrow> cost_record list" where
  "namespace_records e source cfg window dataSet =
     List.map_filter (\<lambda>ns. map_option (kubernetes_record source cfg window ns) (map_of dataSet ns))
       (ce_range e (map fst dataSet))"

definition CollectKubernetes :: "'b collect_env \<Rightarrow> cost_source \<Rightarrow> time_window \<Rightarrow> nat \<Rightarrow> string + cost_record list" where
  "CollectKubernetes e source window n =
     (case kubernetes_config_of (cs_config source) of
        None \<Rightarrow> Inl (''parse Kubernetes config: '' @ ce_json_error e (cs_config source))
      | Some cfg \<Rightarrow>
          let url = allocation_url cfg window in
          (case ce_request e url of
             Some err \<Rightarrow> Inl (''create request: '' @ err)
           | None \<Rightarrow>
               (case ce_do e url n of
                  Inl err \<Rightarrow> Inl (''opencost allocation request: '' @ err)
                | Inr (status, body) \<Rightarrow>
                    if status \<noteq> StatusOK
                    then Inl (''opencost returned '' @ Itoa status @ '': '' @ ce_text e body)
                    else
                      (case Option.bind (ce_decode e body) (response_data allocation_of) of
                         None \<Rightarrow> Inl (''decode allocation response: '' @ ce_decode_error e body)
                       | Some dataSets \<Rightarrow> Inr (concat (map (namespace_records e source cfg window) dataSets))))))"

section \<open>The cloud collectors\<close>

definition CollectAWS :: "'b collect_env \<Rightarrow> cost_source \<Rightarrow> time_window \<Rightarrow> nat \<Rightarrow> string + cost_record list" where
  "CollectAWS e source window n =
     (case aws_config_of (cs_config source) of
        None \<Rightarrow> Inl (''parse AWS config: '' @ ce_json_error e (cs_config source))
      | Some cfg \<Rightarrow> Inr [])"

definition CollectAzure :: "'b collect_env \<Rightarrow> cost_source \<Rightarrow> time_window \<Rightarrow> nat \<Rightarrow> string + cost_record list" where
  "CollectAzure e source window n =
     (case azure_config_of (cs_config source) of
        None \<Rightarrow> Inl (''parse Azure config: '' @ ce_json_error e (cs_config source))
      | Some cfg \<Rightarrow> Inr [])"

definition CollectGCP :: "'b collect_env \<Rightarrow> cost_source \<Rightarrow> time_window \<Rightarrow> nat \<Rightarrow> string + cost_record list" where
  "CollectGCP e source window n =
     (case gcp_config_of (cs_config source) of
        None \<Rightarrow> Inl (''parse GCP config: '' @ ce_json_error e (cs_config source))
      | Some cfg \<Rightarrow> Inr [])"

text \<open>Lines of a query: a newline between them, and one or two tabs before each but the first.\<close>

definition newline_tab :: string where
  "newline_tab = [char_of (10 :: nat), char_of (9 :: nat)]"

definition newline_tabs :: string where
  "newline_tabs = newline_tab @ [char_of (9 :: nat)]"

definition buildAthenaQuery :: "aws_config \<Rightarrow> time_window \<Rightarrow> string" where
  "buildAthenaQuery cfg window =
     (let startDate = format_date (tw_start window);
          endDate = format_date (tw_end window);
          table = AthenaDatabase cfg @ ''.'' @ AthenaTable cfg;
          table = (if table = ''.'' then ''cur_database.cur_table'' else table)
      in ''SELECT''
         @ newline_tabs @ ''DATE(line_item_usage_start_date) as usage_date,''
         @ newline_tabs @ ''line_item_resource_id,''
         @ newline_tabs @ ''line_item_usage_account_id,''
         @ newline_tabs @ ''product_product_name,''
         @ newline_tabs @ ''line_item_usage_type,''
         @ newline_tabs @ ''product_region_code,''
         @ newline_tabs @ ''product_availability_zone,''
         @ newline_tabs @ ''SUM(line_item_unblended_cost) as list_cost,''
         @ newline_tabs @ ''SUM(COALESCE(line_item_net_unblended_cost, line_item_unblended_cost)) as net_cost,''
         @ newline_tabs @ ''SUM(COALESCE(reservation_effective_cost, 0) + COALESCE(savings_plan_savings_plan_effective_cost, 0) + line_item_unblended_cost) as amortized_cost''
         @ newline_tab @ ''FROM '' @ table
         @ newline_tab @ ''WHERE line_item_usage_start_date >= '' @ [CHR 0x27] @ startDate @ [CHR 0x27]
         @ newline_tab @ ''  AND line_item_usage_start_date < '' @ [CHR 0x27] @ endDate @ [CHR 0x27]
         @ newline_tab @ ''  AND line_item_line_item_type != '' @ [CHR 0x27] @ ''Credit'' @ [CHR 0x27]
         @ newline_tab @ ''GROUP BY 1,2,3,4,5,6,7'')"

definition buildBigQuerySQL :: "gcp_config \<Rightarrow> time_window \<Rightarrow> string" where
  "buildBigQuerySQL cfg window =
     (let startDate = format_date (tw_start window);
          endDate = format_date (tw_end window);
          dataset = (if BillingDataDataset cfg = '''' then ''billing_dataset'' else BillingDataDataset cfg)
      in ''SELECT''
         @ newline_tabs @ ''DATE(usage_start_time) as usage_date,''
         @ newline_tabs @ ''billing_account_id,''
         @ newline_tabs @ ''project.id as project_id,''
         @ newline_tabs @ ''project.name as project_name,''
         @ newline_tabs @ ''location.region,''
         @ newline_tabs @ ''location.zone,''
         @ newline_tabs @ ''service.description as service,''
         @ newline_tabs @ ''sku.description as sku,''
         @ newline_tabs @ ''resource.name as resource_name,''
         @ newline_tabs @ ''SUM(cost) as cost,''
         @ newline_tabs @ ''SUM(IFNULL((SELECT SUM(amount) FROM UNNEST(credits)), 0)) as credits,''
         @ newline_tabs @ ''SUM(cost_at_list) as list_cost''
         @ newline_tab @ ''FROM '' @ GCP_ProjectID cfg @ ''.'' @ dataset @ ''.gcp_billing_export_resource_v1_*''
         @ newline_tab @ ''WHERE _PARTITIONTIME >= '' @ [CHR 0x27] @ startDate @ [CHR 0x27]
         @ newline_tab @ ''  AND _PARTITIONTIME < '' @ [CHR 0x27] @ endDate @ [CHR 0x27]
         @ newline_tab @ ''  AND cost != 0''
         @ newline_tab @ ''GROUP BY 1,2,3,4,5,6,7,8,9'')"

definition categorizeAWSService :: "string \<Rightarrow> string \<Rightarrow> string" where
  "categorizeAWSService product usageType =
     (if product = ''AmazonEC2'' \<or> product = ''AmazonEKS'' \<or> product = ''AWSLambda'' then ''Compute''
      else if product = ''AmazonS3'' \<or> product = ''AmazonEBS'' \<or> product = ''AmazonEFS'' then ''Storage''
      else if product = ''AmazonVPC'' \<or> product = ''AmazonCloudFront'' \<or> product = ''AWSDataTransfer'' then ''Network''
      else if product = ''AmazonRDS'' \<or> product = ''AmazonDynamoDB'' \<or> product = ''AmazonElastiCache'' then ''Database''
      else ''Other'')"

definition categorizeAzureService :: "string \<Rightarrow> string" where
  "categorizeAzureService meterCategory =
     (if meterCategory \<in> {''Virtual Machines'', ''Container Instances'', ''Azure Kubernetes Service'', ''Functions''} then ''Compute''
      else if meterCategory \<in> {''Storage'', ''Bandwidth''} then ''Storage''
      else if meterCategory \<in> {''Virtual Network'', ''Load Balancer'', ''Application Gateway'', ''VPN Gateway''} then ''Network''
      else if meterCategory \<in> {''Azure Cosmos DB'', ''SQL Database'', ''Azure Database for PostgreSQL'', ''Azure Cache for Redis''} then ''Database''
      else ''Other'')"

definition categorizeGCPService :: "string \<Rightarrow> string" where
  "categorizeGCPService service =
     (if service \<in> {''Compute Engine'', ''Kubernetes Engine'', ''Cloud Functions'', ''Cloud Run'', ''App Engine''} then ''Compute''
      else if service \<in> {''Cloud Storage'', ''Persistent Disk'', ''Filestore''} then ''Storage''
      else if service \<in> {''Cloud NAT'', ''Cloud Load Balancing'', ''Cloud CDN'', ''Cloud Interconnect'', ''Cloud VPN''} then ''Network''
      else if service \<in> {''Cloud SQL'', ''Cloud Spanner'', ''Bigtable'', ''Firestore'', ''Memorystore''} then ''Database''
      else ''Other'')"

text \<open>A row is a map from column names; a missing column reads as the empty text.\<close>

definition column :: "(string \<times> string) list \<Rightarrow> string \<Rightarrow> string" where
  "column row key = (case map_of row key of None \<Rightarrow> '''' | Some v \<Rightarrow> v)"

definition empty_record :: cost_record where
  "empty_record =
     \<lparr>cr_id = '''', cr_project = '''', cr_source = '''', cr_provider = '''', cr_provider_id = '''', cr_account_id = '''',
      cr_account_name = '''', cr_invoice = '''', cr_service = '''', cr_category = '''', cr_region = '''', cr_zone = '''',
      cr_start = 0, cr_end = 0, cr_list = Fin 0, cr_net = Fin 0, cr_amortized = Fin 0, cr_amortized_net = Fin 0,
      cr_currency = '''', cr_labels = None, cr_labels_json = JNull, cr_k8s_percent = Fin 0\<rparr>"

definition athenaRowToRecord :: "cost_source \<Rightarrow> (string \<times> string) list \<Rightarrow> time \<Rightarrow> cost_record" where
  "athenaRowToRecord source row usageDate =
     empty_record\<lparr>cr_project := cs_project source, cr_source := cs_id source, cr_provider := ''aws'',
       cr_provider_id := column row ''line_item_resource_id'',
       cr_account_id := column row ''line_item_usage_account_id'',
       cr_service := column row ''product_product_name'',
       cr_category := categorizeAWSService (column row ''product_product_name'') (column row ''line_item_usage_type''),
       cr_region := column row ''product_region_code'', cr_zone := column row ''product_availability_zone'',
       cr_start := usageDate, cr_end := usageDate + 24 * hour, cr_currency := ''USD''\<rparr>"

definition azureRowToRecord ::
  "cost_source \<Rightarrow> time \<Rightarrow> string \<Rightarrow> string \<Rightarrow> string \<Rightarrow> string \<Rightarrow> float64 \<Rightarrow> cost_record" where
  "azureRowToRecord source date meterCategory subscriptionID region instanceID cost =
     empty_record\<lparr>cr_project := cs_project source, cr_source := cs_id source, cr_provider := ''azure'',
       cr_provider_id := instanceID, cr_account_id := subscriptionID, cr_service := meterCategory,
       cr_category := categorizeAzureService meterCategory, cr_region := region,
       cr_start := date, cr_end := date + 24 * hour, cr_list := cost, cr_net := cost, cr_currency := ''USD''\<rparr>"

definition bigqueryRowToRecord ::
  "cost_source \<Rightarrow> time \<Rightarrow> (string \<times> string) list \<Rightarrow> float64 \<Rightarrow> float64 \<Rightarrow> cost_record" where
  "bigqueryRowToRecord source date row cost listCost =
     empty_record\<lparr>cr_project := cs_project source, cr_source := cs_id source, cr_provider := ''gcp'',
       cr_provider_id := column row ''resource_name'', cr_account_id := column row ''project_id'',
       cr_account_name := column row ''project_name'', cr_invoice := column row ''billing_account_id'',
       cr_service := column row ''service'', cr_category := categorizeGCPService (column row ''service''),
       cr_region := column row ''region'', cr_zone := column row ''zone'',
       cr_start := date, cr_end := date + 24 * hour, cr_list := listCost, cr_net := cost, cr_amortized := cost,
       cr_currency := ''USD''\<rparr>"

section \<open>The registry\<close>

definition aws_collector :: "'b collect_env \<Rightarrow> collector" where
  "aws_collector e = \<lparr>co_type = ''aws'', co_collect = CollectAWS e, co_validate = ValidateAWS e\<rparr>"

definition azure_collector :: "'b collect_env \<Rightarrow> collector" where
  "azure_collector e = \<lparr>co_type = ''azure'', co_collect = CollectAzure e, co_validate = ValidateAzure e\<rparr>"

definition gcp_collector :: "'b collect_env \<Rightarrow> collector" where
  "gcp_collector e = \<lparr>co_type = ''gcp'', co_collect = CollectGCP e, co_validate = ValidateGCP e\<rparr>"

definition kubernetes_collector :: "'b collect_env \<Rightarrow> collector" where
  "kubernetes_collector e =
     \<lparr>co_type = ''kubernetes'', co_collect = CollectKubernetes e, co_validate = ValidateKubernetes e\<rparr>"

text \<open>The registrations of \<open>main\<close>: no collector for plugin sources.\<close>

definition main_registry :: "'b collect_env \<Rightarrow> registry" where
  "main_registry e =
     RegisterCollector CostSourceKubernetes (kubernetes_collector e)
       (RegisterCollector CostSourceGCP (gcp_collector e)
         (RegisterCollector CostSourceAzure (azure_collector e)
           (RegisterCollector CostSourceAWS (aws_collector e) NewRegistry)))"

end
