(* ===== verification/Query_Dates.thy ===== *)
theory Query_Dates
  imports Collectors "HOL-Library.List_Lexorder" "HOL-Library.Char_ord"
begin

text \<open>
  The cloud queries compare dates as texts (\<open>'2024-01-31'\<close>). Up to the year 9999 that is the
  order of the days: digits padded to one width compare as their numbers, and the components of a date compare as
  the day numbers of \<open>Calendar\<close>.
\<close>

section \<open>Digits of one width\<close>

fun fixed :: "nat \<Rightarrow> nat \<Rightarrow> string" where
  "fixed 0 n = []"
| "fixed (Suc k) n = fixed k (n div 10) @ [digit (n mod 10)]"

lemma length_fixed [simp]: "length (fixed k n) = k"
  by (induction k arbitrary: n) simp_all

lemma digit_0: "digit 0 = CHR ''0''"
  by code_simp

lemma fixed_0: "fixed k 0 = replicate k CHR ''0''"
  by (induction k) (simp_all add: digit_0 replicate_append_same)

lemma pad_fixed: "n < 10 ^ Suc k \<Longrightarrow> pad (Suc k) (int n) = fixed (Suc k) n"
proof (induction k arbitrary: n)
  case 0
  then show ?case by (simp add: pad_def Itoa.simps [of n])
next
  case (Suc k)
  show ?case
  proof (cases "n < 10")
    case True
    then show ?thesis by (simp add: pad_def Itoa.simps [of n] fixed_0 digit_0 replicate_append_same Let_def)
  next
    case False
    from Suc.prems have "n div 10 < 10 ^ Suc k" by (simp add: less_mult_imp_div_less mult.commute)
    from Suc.IH [OF this] have "fixed (Suc k) (n div 10) = pad (Suc k) (int (n div 10))" by simp
    with False show ?thesis by (simp add: pad_def Itoa.simps [of n] Let_def)
  qed
qed

lemma less_append:
  "length xs = length ys \<Longrightarrow> xs @ us < ys @ vs \<longleftrightarrow> xs < ys \<or> xs = ys \<and> us < (vs :: 'a :: linorder list)"
  by (induction xs ys rule: list_induct2) auto

lemma digit_less: "m < 10 \<Longrightarrow> n < 10 \<Longrightarrow> digit m < digit n \<longleftrightarrow> m < n"
  by (simp add: less_char_def of_char_digit)

lemma digit_eq: "m < 10 \<Longrightarrow> n < 10 \<Longrightarrow> digit m = digit n \<longleftrightarrow> m = n"
  by (metis digit_val_digit)

lemma less_by_digit: "(m :: nat) < n \<longleftrightarrow> m div 10 < n div 10 \<or> m div 10 = n div 10 \<and> m mod 10 < n mod 10"
proof -
  have m: "m = m div 10 * 10 + m mod 10" "m mod 10 < 10" and n: "n = n div 10 * 10 + n mod 10" "n mod 10 < 10"
    by simp_all
  consider "m div 10 < n div 10" | "m div 10 = n div 10" | "n div 10 < m div 10" by linarith
  then show ?thesis by cases (use m n in linarith)+
qed

lemma eq_by_digit: "(m :: nat) = n \<longleftrightarrow> m div 10 = n div 10 \<and> m mod 10 = n mod 10"
  by (metis div_mult_mod_eq)

lemma fixed_eq: "m < 10 ^ k \<Longrightarrow> n < 10 ^ k \<Longrightarrow> fixed k m = fixed k n \<longleftrightarrow> m = n"
proof (induction k arbitrary: m n)
  case (Suc k)
  then have d: "m div 10 < 10 ^ k" "n div 10 < 10 ^ k" by (simp_all add: less_mult_imp_div_less mult.commute)
  show ?case unfolding eq_by_digit [of m n] using Suc.IH [OF d] by (simp add: digit_eq)
qed simp

lemma fixed_less: "m < 10 ^ k \<Longrightarrow> n < 10 ^ k \<Longrightarrow> fixed k m < fixed k n \<longleftrightarrow> m < n"
proof (induction k arbitrary: m n)
  case (Suc k)
  then have d: "m div 10 < 10 ^ k" "n div 10 < 10 ^ k" by (simp_all add: less_mult_imp_div_less mult.commute)
  show ?case
    unfolding less_by_digit [of m n] using Suc.IH [OF d] fixed_eq [OF d] by (simp add: less_append digit_less)
qed simp

section \<open>Dates\<close>

lemma year_of_valid: "valid_date y m d \<Longrightarrow> year_of_days (days_of_date y m d) = y"
  using date_of_days_of_date [of y m d] by (auto simp: date_of_days_def Let_def split: prod.splits)

lemma month_before:
  assumes "1 \<le> m" and "m < m'" and "m' \<le> 12"
  shows "days_before_month y m + month_length y m \<le> days_before_month y m'"
proof -
  let ?ls = "month_lengths y" and ?k = "nat (m - 1)" and ?k' = "nat (m' - 1)"
  have k: "?k < length ?ls" "Suc ?k \<le> ?k'" using assms by (simp_all add: month_lengths_facts)
  then obtain j where "?k' = Suc ?k + j" by (auto dest: le_Suc_ex)
  then have "sum_list (take ?k' ?ls) = sum_list (take (Suc ?k) ?ls) + sum_list (take j (drop (Suc ?k) ?ls))"
    by (simp only: take_add sum_list_append)
  moreover have "0 \<le> sum_list (take j (drop (Suc ?k) ?ls))"
    using month_lengths_facts(2) [of y] by (intro sum_list_nonneg) (force dest: in_set_takeD in_set_dropD)
  ultimately show ?thesis
    using k by (simp add: days_before_month_def month_length_def take_Suc_conv_app_nth)
qed

lemma days_less:
  assumes "valid_date y m d" and "valid_date y' m' d'"
    and "y < y' \<or> y = y' \<and> (m < m' \<or> m = m' \<and> d < d')"
  shows "days_of_date y m d < days_of_date y' m' d'"
proof -
  let ?n = "days_of_date y m d" and ?n' = "days_of_date y' m' d'"
  have year: "?n < days_before_year (y + 1)" "days_before_year y' \<le> ?n'"
    using year_of_days [of ?n] year_of_days [of ?n'] assms(1,2) by (simp_all add: year_of_valid)
  consider "y + 1 \<le> y'" | "y = y'" "m < m'" | "y = y'" "m = m'" "d < d'" using assms(3) by linarith
  then show ?thesis
  proof cases
    case 1
    with year days_before_year_mono [of "y + 1" y'] show ?thesis by linarith
  next
    case 2
    with assms month_before [of m m' y] show ?thesis by (simp add: valid_date_def days_of_valid)
  next
    case 3
    with assms show ?thesis by (simp add: valid_date_def days_of_valid)
  qed
qed

text \<open>The order of dates is the order of their days.\<close>

lemma date_order:
  assumes "date_of_days n = (y, m, d)" and "date_of_days n' = (y', m', d')"
  shows "n < n' \<longleftrightarrow> y < y' \<or> y = y' \<and> (m < m' \<or> m = m' \<and> d < d')"
proof -
  note a = date_of_days_spec [OF assms(1)] and b = date_of_days_spec [OF assms(2)]
  from days_less [OF a(1) b(1)] days_less [OF b(1) a(1)] a(2) b(2) assms show ?thesis
    by (metis less_asym linorder_neqE_linordered_idom prod.inject)
qed

text \<open>The instants of the years 0 to 9999.\<close>

definition four_digit_year :: "time \<Rightarrow> bool" where
  "four_digit_year t \<longleftrightarrow> Date 0 0 1 1 \<le> t \<and> t < Date 0 10000 1 1"

lemma div_below:
  fixes t b n :: int
  assumes "t < b * n" and "0 < n"
  shows "t div n < b"
proof (rule ccontr)
  assume "\<not> t div n < b"
  then have "b * n \<le> t div n * n" using assms(2) by (intro mult_right_mono) simp_all
  moreover have "t div n * n \<le> t" using assms(2) pos_mod_sign [of n t] div_mult_mod_eq [of t n] by linarith
  ultimately show False using assms(1) by linarith
qed

lemma format_date_fixed:
  assumes "four_digit_year t"
  obtains y m d where "date_of_days (t div day) = (int y, int m, int d)" and "y < 10 ^ 4" and "m < 10 ^ 2" and "d < 10 ^ 2"
    and "format_date t = fixed 4 y @ ''-'' @ fixed 2 m @ ''-'' @ fixed 2 d"
proof -
  obtain y m d where ymd: "date_of_days (t div day) = (y, m, d)" using prod_cases3 by blast
  note spec = date_of_days_spec [OF this]
  have day: "0 < day" by (simp add: day_def hour_def minute_def second_def)
  have "days_of_date 0 1 1 * day \<le> t" "t < days_of_date 10000 1 1 * day"
    using assms by (simp_all add: four_digit_year_def Date_def)
  then have "days_of_date 0 1 1 \<le> t div day" "t div day < days_of_date 10000 1 1"
    using day zdiv_mono1 [of "days_of_date 0 1 1 * day" t day] div_below [of t _ day] by simp_all
  moreover have "days_of_date z 1 1 = days_before_year z" for z
    by (simp add: days_of_valid days_before_month_def)
  moreover have "y = year_of_days (t div day)" using ymd by (auto simp: date_of_days_def Let_def split: prod.splits)
  ultimately have "days_before_year 0 < days_before_year (y + 1)" "days_before_year y < days_before_year 10000"
    using year_of_days [of "t div day"] by simp_all
  then have "0 \<le> y" "y < 10000"
    using days_before_year_mono [of "y + 1" 0] days_before_year_mono [of 10000 y] by linarith+
  moreover have md: "1 \<le> m" "m \<le> 12" "1 \<le> d" "d \<le> 31"
    using spec(1) month_length_bounds(2) [of m y] by (auto simp: valid_date_def)
  ultimately have nat: "int (nat y) = y" "int (nat m) = m" "int (nat d) = d"
    "nat y < 10 ^ Suc 3" "nat m < 10 ^ Suc 1" "nat d < 10 ^ Suc 1" by simp_all
  have width: "Suc 3 = 4" "Suc 1 = 2" by simp_all
  have "format_date t = pad 4 (int (nat y)) @ ''-'' @ pad 2 (int (nat m)) @ ''-'' @ pad 2 (int (nat d))"
    by (simp only: format_date_def date_of_def nat(1-3) add_0_right ymd) simp
  also have "\<dots> = fixed 4 (nat y) @ ''-'' @ fixed 2 (nat m) @ ''-'' @ fixed 2 (nat d)"
    using pad_fixed [OF nat(4)] pad_fixed [OF nat(5)] pad_fixed [OF nat(6)]
    by (simp only: width)
  finally show thesis
    by (intro that [of "nat y" "nat m" "nat d"]) (simp_all only: nat(1-3) ymd nat(4-6) [unfolded width])
qed

lemma format_date_less:
  assumes "four_digit_year s" and "four_digit_year t"
  shows "format_date s < format_date t \<longleftrightarrow> s div day < t div day"
proof -
  obtain y m d where a: "date_of_days (s div day) = (int y, int m, int d)" "y < 10 ^ 4" "m < 10 ^ 2" "d < 10 ^ 2"
    "format_date s = fixed 4 y @ ''-'' @ fixed 2 m @ ''-'' @ fixed 2 d" using assms(1) by (rule format_date_fixed)
  obtain y' m' d' where b: "date_of_days (t div day) = (int y', int m', int d')" "y' < 10 ^ 4" "m' < 10 ^ 2" "d' < 10 ^ 2"
    "format_date t = fixed 4 y' @ ''-'' @ fixed 2 m' @ ''-'' @ fixed 2 d'" using assms(2) by (rule format_date_fixed)
  have "format_date s < format_date t \<longleftrightarrow> y < y' \<or> y = y' \<and> (m < m' \<or> m = m' \<and> d < d')"
    unfolding a(5) b(5) using a(2-4) b(2-4) by (simp add: less_append fixed_less fixed_eq)
  also have "\<dots> \<longleftrightarrow> s div day < t div day" unfolding date_order [OF a(1) b(1)] by simp
  finally show ?thesis .
qed

text \<open>
  The date range of the cloud queries: for windows and usage dates in the years 0 to 9999, the text of a day is
  at least the text of the window's start and before the text of its end exactly when the day is on or after the
  day of the start and before the day of the end.
\<close>

theorem query_dates_ordered:
  assumes "four_digit_year (tw_start window)" and "four_digit_year (tw_end window)" and "four_digit_year x"
  shows "format_date (tw_start window) \<le> format_date x \<and> format_date x < format_date (tw_end window)
    \<longleftrightarrow> tw_start window div day \<le> x div day \<and> x div day < tw_end window div day"
  using format_date_less [OF assms(3,1)] format_date_less [OF assms(3,2)] by (simp add: not_less [symmetric])

theorem query_dates_ordered_witness:
  "format_date (Date 0 2024 9 30) < format_date (Date 0 2024 10 1)
   \<and> \<not> format_date (Date 0 2024 10 1) < format_date (Date 0 2024 9 30)"
proof -
  have year: "four_digit_year (Date 0 2024 9 30)" "four_digit_year (Date 0 2024 10 1)"
    by (simp_all add: four_digit_year_def Date_def days_of_date_def days_before_year_def days_before_month_def
        month_lengths_def leap_def day_def hour_def minute_def second_def)
  let ?w = "\<lparr>tw_start = Date 0 2024 9 30, tw_end = Date 0 2024 10 1\<rparr>"
  have days: "Date 0 2024 9 30 div day < Date 0 2024 10 1 div day"
    by (simp add: Date_def days_of_date_def days_before_year_def days_before_month_def
        month_lengths_def leap_def day_def hour_def minute_def second_def)
  from query_dates_ordered [of ?w "Date 0 2024 9 30"] year days show ?thesis by (auto simp: not_less)
qed

end
