(* ===== verification/Hub_Progress.thy ===== *)
theory Hub_Progress
  imports Hub
begin

text \<open>
  The methods of the hub return. A step \<open>continues\<close> when it moves a thread that is inside a method. Every
  such step lowers the work left, so without new calls only so many steps are left; and while a
  method is in progress one of them is possible, so the hub's lock cannot deadlock.
\<close>

definition continues :: "'m sys \<Rightarrow> 'm sys \<Rightarrow> bool" where
  "continues s s' \<longleftrightarrow> hub_step s s'
     \<and> (\<exists>i < length (s_threads s). s_threads s ! i \<noteq> Idle \<and> s_threads s' ! i \<noteq> s_threads s ! i)"

fun thread_work :: "'m thread \<Rightarrow> nat" where
  "thread_work Idle = 0"
| "thread_work (Publishing _ _ cs) = 3 * length cs + 1"
| "thread_work (Checking _ _ _ cs) = 3 * length cs + 3"
| "thread_work (Sending _ _ _ cs) = 3 * length cs + 2"
| "thread_work (Closing _) = 1"
| "thread_work (Subscribing _ _) = 1"
| "thread_work Panicked = 0"

definition workload :: "'m sys \<Rightarrow> nat" where
  "workload s = sum_list (map thread_work (s_threads s))"

lemma workload_hub [simp]: "workload (s\<lparr>s_hub := h\<rparr>) = workload s"
  by (simp add: workload_def)

lemma workload_goto:
  assumes "at_thread s i t"
  shows "workload (goto i t' s) + thread_work t = workload s + thread_work t'"
proof -
  let ?ws = "map thread_work (s_threads s)"
  from assms have i: "i < length ?ws" "?ws ! i = thread_work t" by (simp_all add: at_thread_def)
  have "workload (goto i t' s) = sum_list (?ws[i := thread_work t'])"
    by (simp add: workload_def goto_def map_update)
  with sum_list_update [OF i(1), of "thread_work t'"] elem_le_sum_list [OF i(1)] i(2)
  show ?thesis by (simp add: workload_def)
qed

lemma idle_moved:
  assumes "at_thread s i Idle" and "j < length (s_threads s)" and "s_threads s ! j \<noteq> Idle"
  shows "s_threads (goto i t s) ! j = s_threads s ! j"
proof -
  from assms have "i \<noteq> j" by (auto simp: at_thread_def)
  then show ?thesis by (simp add: goto_def)
qed

text \<open>A step is the start of a method by an idle thread, the taking of a message, or it lowers the work.\<close>

lemma step_cases:
  assumes "hub_step s s'"
  shows "workload s' < workload s
    \<or> (\<forall>j < length (s_threads s). s_threads s ! j \<noteq> Idle \<longrightarrow> s_threads s' ! j = s_threads s ! j)"
  using assms
proof (induction rule: hub_step.induct)
  case (unregister_known s i c)
  then show ?case by (simp add: goto_hub idle_moved)
next
  case (close s i c)
  with workload_goto [OF close, of Idle] show ?case by (simp add: goto_hub)
next
  case (send s i d topic c cs x)
  with workload_goto [OF send(1), of "Publishing d topic cs"] show ?case by (simp add: goto_hub)
next
  case (write_topics s i c topics)
  with workload_goto [OF write_topics, of Idle] show ?case by (simp add: goto_hub)
next
  case (check s i d topic c cs)
  from workload_goto [OF check, of "Checking d topic c cs"] show ?case by simp
next
  case (skip s i d topic c cs)
  from workload_goto [OF skip(1), of "Publishing d topic cs"] show ?case by simp
next
  case (wanted s i d topic c cs)
  from workload_goto [OF wanted(1), of "Sending d topic c cs"] show ?case by simp
next
  case (send_panic s i d topic c cs)
  from workload_goto [OF send_panic(1), of Panicked] show ?case by simp
next
  case (unlock s i d topic)
  from workload_goto [OF unlock, of Idle] show ?case by simp
qed (simp_all add: idle_moved)

lemma continues_less: "continues s s' \<Longrightarrow> workload s' < workload s"
  using step_cases unfolding continues_def by blast

lemma continues_bound: "(continues ^^ k) s s' \<Longrightarrow> k + workload s' \<le> workload s"
proof (induction k arbitrary: s')
  case (Suc k)
  then obtain t where "(continues ^^ k) s t" "continues t s'" by auto
  with Suc.IH [of t] continues_less [of t s'] show ?case by simp
qed simp

definition all_idle :: "'m sys \<Rightarrow> bool" where
  "all_idle s \<longleftrightarrow> list_all (\<lambda>t. t = Idle) (s_threads s)"

text \<open>The step a thread inside a method takes next.\<close>

lemma thread_step:
  assumes "at_thread s i t" and "t \<noteq> Idle" and "t \<noteq> Panicked"
  shows "\<exists>s'. continues s s'"
proof -
  have i: "i < length (s_threads s)" "s_threads s ! i = t" using assms(1) by (simp_all add: at_thread_def)
  have moved: "continues s s'" if "hub_step s s'" "s_threads s' = (s_threads s)[i := t']" "t' \<noteq> t" for s' t'
    using that i assms(2) unfolding continues_def by (intro conjI exI [where x = i]) auto
  show ?thesis
  proof (cases t)
    case (Publishing d topic cs)
    with assms(1) show ?thesis
      by (cases cs) (auto intro!: exI moved [OF hub_step.unlock] moved [OF hub_step.check] simp: goto_def)
  next
    case (Checking d topic c cs)
    with assms(1) show ?thesis
      by (cases "subscribedTo topic (h_heap (s_hub s) ! c)")
        (auto intro!: exI moved [OF hub_step.wanted] moved [OF hub_step.skip] simp: goto_def)
  next
    case (Sending d topic c cs)
    with assms(1) show ?thesis
      by (cases "offer d (h_heap (s_hub s) ! c)")
        (auto intro!: exI moved [OF hub_step.send_panic] moved [OF hub_step.send] simp: goto_def)
  next
    case (Closing c)
    with assms(1) show ?thesis by (auto intro!: exI moved [OF hub_step.close] simp: goto_def)
  next
    case (Subscribing c topics)
    with assms(1) show ?thesis by (auto intro!: exI moved [OF hub_step.write_topics] simp: goto_def)
  qed (use assms in auto)
qed

lemma continues_inv: "continues s s' \<Longrightarrow> sys_inv s \<Longrightarrow> sys_inv s'"
  unfolding continues_def using hub_step_inv by blast

lemma finish: "sys_inv s \<Longrightarrow> \<exists>k s'. (continues ^^ k) s s' \<and> all_idle s'"
proof (induction "workload s" arbitrary: s rule: less_induct)
  case less
  show ?case
  proof (cases "all_idle s")
    case True
    then show ?thesis by (intro exI [where x = 0]) auto
  next
    case False
    then obtain i where i: "i < length (s_threads s)" "s_threads s ! i \<noteq> Idle"
      by (auto simp: all_idle_def list_all_length)
    moreover from this have "s_threads s ! i \<noteq> Panicked" using less.prems by (auto simp: sys_inv_def)
    ultimately obtain t where t: "continues s t" using thread_step [of s i] by (auto simp: at_thread_def)
    from less.hyps [OF continues_less [OF t] continues_inv [OF t less.prems]] obtain k s' where
      "(continues ^^ k) t s'" "all_idle s'" by blast
    with t show ?thesis by (intro exI [where x = "Suc k"] exI [where x = s']) (metis relpowp_Suc_I2)
  qed
qed

text \<open>
  C18: From every reachable state, the methods in progress can be run for at most \<open>workload\<close> steps (three for
  each client a publisher has left, and one to return), in whatever order the threads are
  scheduled; and they can be run until all of them have returned: the hub's lock never deadlocks.
\<close>

theorem hub_methods_return:
  assumes "reaches (init_sys n) s"
  shows "(\<forall>k s'. (continues ^^ k) s s' \<longrightarrow> k \<le> workload s)
    \<and> (\<exists>k s'. (continues ^^ k) s s' \<and> all_idle s' \<and> reaches s s')"
proof -
  have "sys_inv s" by (rule reachable_inv [OF assms sys_inv_init])
  from finish [OF this] obtain k s' where s': "(continues ^^ k) s s'" "all_idle s'" by blast
  have "continues\<^sup>*\<^sup>* s s'" using s'(1) by (rule relpowp_imp_rtranclp)
  then have "reaches s s'"
    by (rule rtranclp_mono [THEN predicate2D, rotated]) (auto simp: continues_def)
  with s' continues_bound show ?thesis by (meson add_leD1)
qed

definition publishing_sys :: "nat sys" where
  "publishing_sys = goto 0 (Publishing 7 TopicBudgetWarning [0]) registered_sys"

theorem hub_methods_return_witness:
  "workload publishing_sys = 4 \<and> (\<exists>k s'. (continues ^^ k) publishing_sys s' \<and> k \<le> 4 \<and> all_idle s')"
proof -
  have "hub_step registered_sys publishing_sys"
    unfolding publishing_sys_def
    using hub_step.publish [of registered_sys 0 7 TopicBudgetWarning] by (simp add: at_thread_def registered_sys_def)
  with run_register have r: "reaches (init_sys 2) publishing_sys" by (rule rtranclp.rtrancl_into_rtrancl)
  have "workload publishing_sys = 4" by (simp add: workload_def publishing_sys_def goto_def registered_sys_def)
  with hub_methods_return [OF r] show ?thesis by auto
qed

end
