(* ===== verification/Stream.thy ===== *)
theory Stream
  imports Hub "HOL-Library.Sublist"
begin

text \<open>
  The life of one web socket connection, \<open>handleStream\<close>, \<open>readPump\<close> and \<open>writePump\<close> of
  \<open>internal/server/server.go\<close>: registration at the hub, the welcome message, the loop that writes the
  client's queue to the socket, the loop that reads subscriptions from it, and the deferred
  \<open>Unregister\<close>. The rest of the program registers and unregisters other clients and publishes at any time.

  The socket is the environment: a write succeeds or fails, a read yields a message or fails, and the context of
  the request may be done at any time. Bytes are of type \<open>'m\<close>, with \<open>event\<close> and message marshalling as
  functions. Lemmas: what the client sees is what the hub queued for it, in order and without gaps; it is
  registered exactly until its writer has returned; and its own steps end when nothing new is published.
\<close>

section \<open>State\<close>

datatype 'm writer = Selecting | Writing 'm | Returned | Gone

record 'm stream =
  st_hub :: "'m hub"
  st_client :: nat
  st_writer :: "'m writer"
  st_reading :: bool
  st_wire :: "'m list"
  st_queued :: "'m list"

text \<open>
  \<open>st_queued\<close> records what the hub has put into the client's queue; no step reads it. The message of a reader is
  an action and topics; one that does not decode is \<open>None\<close>.
\<close>

definition my_client :: "'m stream \<Rightarrow> 'm client" where
  "my_client s = h_heap (st_hub s) ! st_client s"

definition welcome_event :: "time \<Rightarrow> event" where
  "welcome_event t = \<lparr>ev_type = ''connected'', ev_topic = TopicSystem, ev_time = t, ev_source = ''finguard'',
     ev_payload = JObj [(''message'', JStr ''connected to finguard event stream'')]\<rparr>"

text \<open>Up to the start of the two loops; the result of writing the welcome message is ignored.\<close>

definition open_stream :: "(event \<Rightarrow> 'm option) \<Rightarrow> time \<Rightarrow> bool \<Rightarrow> 'm hub \<Rightarrow> 'm stream" where
  "open_stream marshal t written h =
     (let (c, h) = Register h;
          wire = (case marshal (welcome_event t) of None \<Rightarrow> [] | Some d \<Rightarrow> if written then [d] else [])
      in \<lparr>st_hub = h, st_client = c, st_writer = Selecting, st_reading = True, st_wire = wire, st_queued = []\<rparr>)"

text \<open>What the reader does with a message.\<close>

definition handle_message :: "(string \<times> string list) option \<Rightarrow> 'm stream \<Rightarrow> 'm stream" where
  "handle_message msg s =
     (case msg of
        Some (action, topics) \<Rightarrow>
          if action = ''subscribe''
          then s\<lparr>st_hub := (st_hub s)\<lparr>h_heap := (h_heap (st_hub s))[st_client s := Subscribe topics (my_client s)]\<rparr>\<rparr>
          else s
      | None \<Rightarrow> s)"

section \<open>Steps\<close>

inductive stream_step :: "(event \<Rightarrow> 'm option) \<Rightarrow> 'm stream \<Rightarrow> 'm stream \<Rightarrow> bool" for marshal where
  take: "st_writer s = Selecting \<Longrightarrow> c_queue (my_client s) = m # q \<Longrightarrow>
    stream_step marshal s (s\<lparr>st_writer := Writing m, st_hub := receive (st_client s) (st_hub s)\<rparr>)"
| closed: "st_writer s = Selecting \<Longrightarrow> c_queue (my_client s) = [] \<Longrightarrow> c_closed (my_client s) \<Longrightarrow>
    stream_step marshal s (s\<lparr>st_writer := Returned\<rparr>)"
| context_done: "st_writer s = Selecting \<Longrightarrow> stream_step marshal s (s\<lparr>st_writer := Returned\<rparr>)"
| written: "st_writer s = Writing m \<Longrightarrow>
    stream_step marshal s (s\<lparr>st_writer := Selecting, st_wire := st_wire s @ [m]\<rparr>)"
| write_failed: "st_writer s = Writing m \<Longrightarrow> stream_step marshal s (s\<lparr>st_writer := Returned\<rparr>)"
| unregister: "st_writer s = Returned \<Longrightarrow>
    stream_step marshal s (s\<lparr>st_writer := Gone, st_hub := Unregister (st_client s) (st_hub s)\<rparr>)"
| read: "st_reading s \<Longrightarrow> stream_step marshal s (handle_message msg s)"
| read_failed: "st_reading s \<Longrightarrow> stream_step marshal s (s\<lparr>st_reading := False\<rparr>)"
| publish: "Publish marshal e (st_hub s) = Some h \<Longrightarrow>
    stream_step marshal s (s\<lparr>st_hub := h,
      st_queued := st_queued s @ drop (length (c_queue (my_client s))) (c_queue (h_heap h ! st_client s))\<rparr>)"
| other_registers: "stream_step marshal s (s\<lparr>st_hub := snd (Register (st_hub s))\<rparr>)"
| other_unregisters: "c \<noteq> st_client s \<Longrightarrow> stream_step marshal s (s\<lparr>st_hub := Unregister c (st_hub s)\<rparr>)"
| other_takes: "c \<noteq> st_client s \<Longrightarrow> stream_step marshal s (s\<lparr>st_hub := receive c (st_hub s)\<rparr>)"

abbreviation stream_run :: "(event \<Rightarrow> 'm option) \<Rightarrow> 'm stream \<Rightarrow> 'm stream \<Rightarrow> bool" where
  "stream_run marshal \<equiv> (stream_step marshal)\<^sup>*\<^sup>*"

section \<open>Invariant\<close>

fun in_hand :: "'m writer \<Rightarrow> 'm list" where
  "in_hand (Writing m) = [m]"
| "in_hand _ = []"

fun active :: "'m writer \<Rightarrow> bool" where
  "active Selecting = True"
| "active (Writing _) = True"
| "active _ = False"

text \<open>\<open>w0\<close> is what was on the wire when the loops started.\<close>

definition stream_inv :: "'m list \<Rightarrow> 'm stream \<Rightarrow> bool" where
  "stream_inv w0 s \<longleftrightarrow> hub_inv (st_hub s) \<and> st_client s < length (h_heap (st_hub s))
     \<and> (st_client s \<in> set (h_clients (st_hub s)) \<longleftrightarrow> st_writer s \<noteq> Gone)
     \<and> (st_writer s = Gone \<longrightarrow> c_closed (my_client s))
     \<and> prefix (st_wire s) (w0 @ st_queued s)
     \<and> (active (st_writer s) \<longrightarrow>
          st_wire s @ in_hand (st_writer s) @ c_queue (my_client s) = w0 @ st_queued s)"

text \<open>A change of the hub that keeps this client's registration and queue keeps the invariant.\<close>

lemma stream_inv_hub:
  assumes "stream_inv w0 s" and "hub_inv h" and "length (h_heap (st_hub s)) \<le> length (h_heap h)"
    and "st_client s \<in> set (h_clients h) \<longleftrightarrow> st_client s \<in> set (h_clients (st_hub s))"
    and "c_closed (h_heap h ! st_client s) = c_closed (my_client s)"
    and "c_queue (h_heap h ! st_client s) = c_queue (my_client s)"
  shows "stream_inv w0 (s\<lparr>st_hub := h\<rparr>)"
  using assms by (simp add: stream_inv_def my_client_def)

lemma receive_other:
  assumes "hub_inv h" and "c < length (h_heap h)"
  shows "hub_inv (receive c h)"
  unfolding receive_def
proof (rule hub_inv_cell [OF assms(1)])
  show "length (c_queue ((h_heap h ! c)\<lparr>c_queue := tl (c_queue (h_heap h ! c))\<rparr>)) \<le> send_capacity"
    using hub_cell_queue [OF assms] by simp
  show "c \<in> set (h_clients h) \<Longrightarrow> \<not> c_closed ((h_heap h ! c)\<lparr>c_queue := tl (c_queue (h_heap h ! c))\<rparr>)"
    using assms(1) by (simp add: hub_inv_def)
qed

lemma receive_inv: "hub_inv h \<Longrightarrow> hub_inv (receive c h)"
  by (cases "c < length (h_heap h)") (simp add: receive_other, simp add: receive_def list_update_outside)

lemma publish_cell:
  assumes "hub_inv h" and "Publish marshal e h = Some h'"
  shows "hub_inv h'" and "h_clients h' = h_clients h" and "length (h_heap h') = length (h_heap h)"
    and "c < length (h_heap h) \<Longrightarrow> c_closed (h_heap h' ! c) = c_closed (h_heap h ! c)
      \<and> (\<exists>new. c_queue (h_heap h' ! c) = c_queue (h_heap h ! c) @ new)"
proof -
  show "hub_inv h'" using Publish_ok [OF assms(1), of marshal e] assms(2) by auto
  have "h' = h \<or> (\<exists>d. h' = h\<lparr>h_heap := map (\<lambda>i. let x = h_heap h ! i in
     if i \<in> set (h_clients h) \<and> subscribedTo (ev_topic e) x then offered d x else x) [0..<length (h_heap h)]\<rparr>)"
    using assms deliver_spec [of "h_clients h" "h_heap h"]
    by (cases "marshal e") (auto simp: Publish_def hub_inv_def Let_def)
  then show "h_clients h' = h_clients h" "length (h_heap h') = length (h_heap h)"
    "c < length (h_heap h) \<Longrightarrow> c_closed (h_heap h' ! c) = c_closed (h_heap h ! c)
      \<and> (\<exists>new. c_queue (h_heap h' ! c) = c_queue (h_heap h ! c) @ new)"
    by (auto simp: Let_def offered_def split: if_splits)
qed

lemma Unregister_other:
  assumes "c \<noteq> i"
  shows "i \<in> set (h_clients (Unregister c h)) \<longleftrightarrow> i \<in> set (h_clients h)"
    and "h_heap (Unregister c h) ! i = h_heap h ! i" and "length (h_heap (Unregister c h)) = length (h_heap h)"
  using assms by (auto simp: Unregister_def Let_def)

lemma Register_other:
  assumes "i < length (h_heap h)"
  shows "i \<in> set (h_clients (snd (Register h))) \<longleftrightarrow> i \<in> set (h_clients h)"
    and "h_heap (snd (Register h)) ! i = h_heap h ! i" and "length (h_heap h) \<le> length (h_heap (snd (Register h)))"
  using assms by (auto simp: Register_def nth_append)

lemma receive_cells:
  shows "h_clients (receive c h) = h_clients h" and "length (h_heap (receive c h)) = length (h_heap h)"
    and "c \<noteq> i \<Longrightarrow> h_heap (receive c h) ! i = h_heap h ! i"
    and "i < length (h_heap h) \<Longrightarrow> h_heap (receive i h) ! i = (h_heap h ! i)\<lparr>c_queue := tl (c_queue (h_heap h ! i))\<rparr>"
  by (simp_all add: receive_def)

lemma handle_message_inv: "stream_inv w0 s \<Longrightarrow> stream_inv w0 (handle_message msg s)"
proof (cases "\<exists>topics. msg = Some (''subscribe'', topics)")
  case True
  then obtain topics where msg: "msg = Some (''subscribe'', topics)" by blast
  assume inv: "stream_inv w0 s"
  let ?y = "Subscribe topics (my_client s)"
  have c: "st_client s < length (h_heap (st_hub s))" "hub_inv (st_hub s)" using inv by (simp_all add: stream_inv_def)
  have "hub_inv ((st_hub s)\<lparr>h_heap := (h_heap (st_hub s))[st_client s := ?y]\<rparr>)"
    using c by (intro hub_inv_cell) (auto simp: Subscribe_def my_client_def hub_cell_queue, auto simp: hub_inv_def)
  with inv c show ?thesis
    unfolding handle_message_def msg by (auto simp: Subscribe_def my_client_def intro!: stream_inv_hub)
qed (auto simp: handle_message_def split: option.split prod.split)

lemma stream_step_inv: "stream_step marshal s s' \<Longrightarrow> stream_inv w0 s \<Longrightarrow> stream_inv w0 s'"
proof (induction rule: stream_step.induct)
  case (take s m q)
  then show ?case
    by (auto simp: stream_inv_def my_client_def receive_cells receive_inv)
next
  case (written s m)
  then have "w0 @ st_queued s = (st_wire s @ [m]) @ c_queue (my_client s)" by (simp add: stream_inv_def)
  then have "prefix (st_wire s @ [m]) (w0 @ st_queued s)" by (rule prefixI)
  with written show ?case by (simp add: stream_inv_def my_client_def)
next
  case (unregister s)
  then have "hub_inv (Unregister (st_client s) (st_hub s))" by (simp add: stream_inv_def Unregister_inv)
  with unregister show ?case by (auto simp: stream_inv_def my_client_def Unregister_def shut_def Let_def)
next
  case (read s msg)
  then show ?case by (simp add: handle_message_inv)
next
  case (publish e s h)
  then have "hub_inv (st_hub s)" "st_client s < length (h_heap (st_hub s))" by (simp_all add: stream_inv_def)
  note cell = publish_cell [OF this(1) publish(1)]
  obtain new where new: "c_queue (h_heap h ! st_client s) = c_queue (my_client s) @ new"
    using cell(4) \<open>st_client s < _\<close> by (auto simp: my_client_def)
  from publish(2) have wire: "prefix (st_wire s) (w0 @ st_queued s @ new)"
    using prefix_prefix [of "st_wire s" "w0 @ st_queued s" new] by (simp add: stream_inv_def)
  from publish(2) have full: "st_wire s @ in_hand (st_writer s) @ c_queue (my_client s) @ new = w0 @ st_queued s @ new"
    if "active (st_writer s)"
    using that by (metis append_assoc stream_inv_def)
  have "c_closed (h_heap h ! st_client s) = c_closed (my_client s)"
    using cell(4) \<open>st_client s < _\<close> by (simp add: my_client_def)
  with publish(2) cell(1-3) new wire full show ?case by (simp add: stream_inv_def my_client_def)
next
  case (other_registers s)
  then show ?case
    by (intro stream_inv_hub) (auto simp: stream_inv_def my_client_def Register_other Register_inv)
next
  case (other_unregisters c s)
  then show ?case
    by (intro stream_inv_hub) (auto simp: stream_inv_def my_client_def Unregister_other Unregister_inv)
next
  case (other_takes c s)
  then show ?case
    by (intro stream_inv_hub) (auto simp: stream_inv_def my_client_def receive_cells receive_inv)
qed (auto simp: stream_inv_def my_client_def intro: prefixI)

interpretation stream_steps: step_invariant "stream_step marshal" "stream_inv w0" for marshal w0
  by unfold_locales (rule stream_step_inv)

lemma stream_run_inv: "stream_run marshal s s' \<Longrightarrow> stream_inv w0 s \<Longrightarrow> stream_inv w0 s'"
  by (rule stream_steps.run_keeps)

lemma open_stream_inv:
  "hub_inv h \<Longrightarrow> stream_inv (st_wire (open_stream marshal t b h)) (open_stream marshal t b h)"
proof -
  assume "hub_inv h"
  from Register_inv [OF this] show ?thesis
    unfolding open_stream_def stream_inv_def Let_def my_client_def
    by (cases "Register h") (auto simp: Register_def new_client_def)
qed

text \<open>
  C19: Whatever else happens in the hub, a connection sees, after the welcome message if that was written, exactly
  the messages the hub queued for it, in order and without gaps, up to where its writing failed; it is
  registered until its writer has returned and its queue is closed only after that, so the writer never
  finds its queue closed.
\<close>

theorem stream_in_order:
  assumes "hub_inv h" and "stream_run marshal (open_stream marshal t b h) s"
  shows "prefix (st_wire s) (st_wire (open_stream marshal t b h) @ st_queued s)
    \<and> (active (st_writer s) \<longrightarrow> \<not> c_closed (my_client s)
        \<and> st_wire s @ in_hand (st_writer s) @ c_queue (my_client s) = st_wire (open_stream marshal t b h) @ st_queued s)
    \<and> (st_client s \<in> set (h_clients (st_hub s)) \<longleftrightarrow> st_writer s \<noteq> Gone)
    \<and> hub_inv (st_hub s)"
proof -
  note inv = stream_run_inv [OF assms(2) open_stream_inv [OF assms(1)]]
  moreover have "\<not> c_closed (my_client s)" if "active (st_writer s)"
    using inv that by (cases "st_writer s") (auto simp: stream_inv_def hub_inv_def my_client_def)
  ultimately show ?thesis by (simp add: stream_inv_def)
qed

text \<open>A connection to an empty hub, to which one event is published.\<close>

definition sample_stream :: "nat stream" where
  "sample_stream = \<lparr>st_hub = \<lparr>h_clients = [0], h_heap = [new_client]\<rparr>, st_client = 0, st_writer = Selecting,
     st_reading = True, st_wire = [7, 7], st_queued = [7]\<rparr>"

lemma sample_stream_run: "stream_run (\<lambda>_. Some 7) (open_stream (\<lambda>_. Some 7) 0 True NewHub) sample_stream"
proof -
  let ?s0 = "open_stream (\<lambda>_. Some (7::nat)) 0 True NewHub"
  let ?h = "\<lparr>h_clients = [0], h_heap = [new_client\<lparr>c_queue := [7]\<rparr>]\<rparr> :: nat hub"
  let ?s1 = "?s0\<lparr>st_hub := ?h, st_queued := [7]\<rparr>"
  let ?s2 = "?s1\<lparr>st_writer := Writing 7, st_hub := \<lparr>h_clients = [0], h_heap = [new_client]\<rparr>\<rparr>"
  have s0: "?s0 = \<lparr>st_hub = \<lparr>h_clients = [0], h_heap = [new_client]\<rparr>, st_client = 0, st_writer = Selecting,
     st_reading = True, st_wire = [7], st_queued = []\<rparr>"
    by (simp add: open_stream_def Register_def NewHub_def)
  have "Publish (\<lambda>_. Some 7) sample_event (st_hub ?s0) = Some ?h"
    by (simp add: s0 Publish_def subscribedTo_def new_client_def offer_def send_capacity_def)
  from stream_step.publish [OF this] have "stream_step (\<lambda>_. Some 7) ?s0 ?s1"
    by (simp add: s0 my_client_def new_client_def)
  moreover have "stream_step (\<lambda>_. Some 7) ?s1 ?s2"
    using stream_step.take [of ?s1 7 "[]" "\<lambda>_. Some 7"] by (simp add: s0 my_client_def new_client_def receive_def)
  moreover have "stream_step (\<lambda>_. Some 7) ?s2 sample_stream"
    using stream_step.written [of ?s2 7 "\<lambda>_. Some 7"] by (simp add: s0 sample_stream_def)
  ultimately show ?thesis by (meson converse_rtranclp_into_rtranclp rtranclp.rtrancl_refl)
qed

theorem stream_in_order_witness:
  "prefix (st_wire sample_stream) ([7] @ [7]) \<and> 0 \<in> set (h_clients (st_hub sample_stream))"
  using stream_in_order [OF hub_inv_new sample_stream_run]
  by (simp add: sample_stream_def open_stream_def Register_def NewHub_def)

end
