(* ===== verification/Role_Laws.thy ===== *)
theory Role_Laws
  imports Store_Laws
begin

text \<open>
  What the project-role operations of the store promise to the access checks and to the project
  list of a user: the upsert, the role of a user on a project, the roles of a project and
  the projects a user can see.
\<close>

section \<open>Roles after an upsert\<close>

lemma SetProjectRole_Inr:
  "SetProjectRole e pr w = (Inr u, w1) \<Longrightarrow> stmt_upsert_role pr (w_db w) = Inr (w_db w1)"
  by (auto simp: SetProjectRole_def dest: exec_Inr)

lemma role_with_key: "role_key r = role_key pr \<Longrightarrow> r\<lparr>pr_role := pr_role pr\<rparr> = pr"
  by (cases r; cases pr) (simp add: role_key_def)

lemma upsert_find:
  assumes "stmt_upsert_role pr d = Inr d'"
  shows "find_row role_key k (t_roles d') = (if k = role_key pr then Some pr else find_row role_key k (t_roles d))"
proof (cases "role_key pr \<in> role_key ` set (t_roles d)")
  case True
  with assms have d': "t_roles d' = update_rows (\<lambda>r. role_key r = role_key pr) (\<lambda>r. r\<lparr>pr_role := pr_role pr\<rparr>) (t_roles d)"
    by (auto simp: stmt_upsert_role_def)
  have "find_row role_key k (t_roles d')
      = map_option (\<lambda>r. if role_key r = role_key pr then r\<lparr>pr_role := pr_role pr\<rparr> else r) (find_row role_key k (t_roles d))"
    unfolding d' by (rule find_row_update) (simp add: role_key_def)
  then show ?thesis
  proof (cases "find_row role_key k (t_roles d)")
    case None
    moreover from None True have "k \<noteq> role_key pr" by (metis find_row_None)
    ultimately show ?thesis using \<open>find_row role_key k (t_roles d') = _\<close> by simp
  next
    case (Some r)
    from find_row_Some [OF Some] have "role_key r = k" ..
    moreover have "(if role_key r = role_key pr then r\<lparr>pr_role := pr_role pr\<rparr> else r)
        = (if role_key r = role_key pr then pr else r)"
      using role_with_key by (rule if_cong [OF refl _ refl])
    ultimately show ?thesis
      unfolding \<open>find_row role_key k (t_roles d') = _\<close> Some option.map by simp
  qed
next
  case False
  with assms have "t_roles d' = t_roles d @ [pr]"
    by (auto simp: stmt_upsert_role_def split: if_splits)
  with False show ?thesis by (simp add: find_row_snoc)
qed

text \<open>
  assigning a role makes it the subject's one role on the project, replacing an earlier one,
  and leaves the role of every other subject and project as it was.
\<close>

theorem set_role_then_get:
  assumes "SetProjectRole e pr w = (Inr u, w1)" and "GetUserProjectRole e p s w1 = (Inr r, w2)"
  shows "r = (if role_key pr = (p, ''user'', s) then Some pr
              else find_row role_key (p, ''user'', s) (t_roles (w_db w)))
    \<and> find_row role_key (role_key pr) (t_roles (w_db w1)) = Some pr"
  using query_rows_Inr [OF assms(2) [unfolded GetUserProjectRole_def]]
    upsert_find [OF SetProjectRole_Inr [OF assms(1)]]
  by auto

definition sample_role :: project_role where
  "sample_role = \<lparr>pr_project = ''p1'', pr_subject_type = ''user'', pr_subject = ''u1'', pr_role = ''admin''\<rparr>"

theorem set_role_then_get_witness:
  "fst (GetUserProjectRole sample_env ''p1'' ''u1'' (snd (SetProjectRole sample_env sample_role sample_world)))
     = Inr (Some sample_role)"
proof -
  let ?w1 = "snd (SetProjectRole sample_env sample_role sample_world)"
  have s: "SetProjectRole sample_env sample_role sample_world = (Inr (), ?w1)"
    by (simp add: SetProjectRole_def stmt_upsert_role_def role_key_def sample_role_def sample_defs)
  obtain r w2 where g: "GetUserProjectRole sample_env ''p1'' ''u1'' ?w1 = (Inr r, w2)"
    by (simp add: GetUserProjectRole_def query_rows_def driver_call_def sample_env_def)
  have "r = Some sample_role"
    using set_role_then_get [OF s g] by (simp add: sample_role_def role_key_def)
  with g show ?thesis by simp
qed

section \<open>The projects of a user\<close>

lemma joined_mem:
  "(p, Some r) \<in> set (case rs of [] \<Rightarrow> [(q, None)] | a # l \<Rightarrow> map (\<lambda>r. (q, Some r)) (a # l))
     \<longleftrightarrow> p = q \<and> r \<in> set rs"
  by (cases rs) auto

lemma left_join_mem:
  "(p, Some r) \<in> set (left_join_roles d) \<longleftrightarrow> p \<in> set (t_projects d) \<and> r \<in> set (t_roles d) \<and> pr_project r = p_id p"
  unfolding left_join_roles_def set_concat set_map UN_iff image_image joined_mem by auto

lemma user_groups_mem: "g \<in> set (user_groups d u) \<longleftrightarrow> (g, u) \<in> set (t_members d)"
  by (force simp: user_groups_def)

lemma total_preorder_key: "total_preorder le \<Longrightarrow> total_preorder (\<lambda>a b. le (f a) (f b))"
  unfolding total_preorder_def by blast

lemma distinct_insort_by: "distinct (insort_by le x xs) \<longleftrightarrow> x \<notin> set xs \<and> distinct xs"
  by (induction xs) auto

lemma distinct_sort_by: "distinct (sort_by le xs) \<longleftrightarrow> distinct xs"
  by (induction xs) (simp_all add: distinct_insort_by)

text \<open>
  the projects listed for a user are exactly the projects on which the user, or a group the
  user is a member of, has a role; each is listed once, in the order of the names.
\<close>

theorem user_projects_spec:
  assumes "ListUserProjects e u w = (Inr ps, w')"
    and "total_preorder (e_collate e)"
  shows "set ps = {p \<in> set (t_projects (w_db w)). \<exists>r \<in> set (t_roles (w_db w)). pr_project r = p_id p
        \<and> (pr_subject_type r = ''user'' \<and> pr_subject r = u \<or> (pr_subject r, u) \<in> set (t_members (w_db w)))}
    \<and> distinct ps \<and> sorted_wrt (\<lambda>a b. e_collate e (p_name a) (p_name b)) ps"
proof -
  let ?rows = "filter (\<lambda>row. role_concerns (w_db w) u (snd row)) (left_join_roles (w_db w))"
  have ps: "ps = sort_by (\<lambda>a b. e_collate e (p_name a) (p_name b)) (remdups (map fst ?rows))"
    using query_rows_Inr [OF assms(1) [unfolded ListUserProjects_def]] by simp
  have "p \<in> set ps \<longleftrightarrow> (\<exists>r. (p, Some r) \<in> set (left_join_roles (w_db w)) \<and> role_concerns (w_db w) u (Some r))" for p
  proof -
    have "p \<in> set ps \<longleftrightarrow> (\<exists>ro. (p, ro) \<in> set (left_join_roles (w_db w)) \<and> role_concerns (w_db w) u ro)"
      unfolding ps by force
    also have "\<dots> \<longleftrightarrow> (\<exists>r. (p, Some r) \<in> set (left_join_roles (w_db w)) \<and> role_concerns (w_db w) u (Some r))"
      by (metis (no_types, lifting) not_Some_eq option.simps(4) role_concerns_def)
    finally show ?thesis .
  qed
  then have "set ps = {p \<in> set (t_projects (w_db w)). \<exists>r \<in> set (t_roles (w_db w)). pr_project r = p_id p
        \<and> (pr_subject_type r = ''user'' \<and> pr_subject r = u \<or> (pr_subject r, u) \<in> set (t_members (w_db w)))}"
    by (auto simp: left_join_mem role_concerns_def user_groups_mem)
  moreover have "distinct ps" unfolding ps by (simp add: distinct_sort_by)
  moreover have "sorted_wrt (\<lambda>a b. e_collate e (p_name a) (p_name b)) ps"
    unfolding ps by (rule sorted_sort_by) (rule total_preorder_key [OF assms(2)])
  ultimately show ?thesis by blast
qed

theorem user_projects_spec_witness:
  "\<exists>ps w'. ListUserProjects sample_env ''u1'' sample_world = (Inr ps, w')
     \<and> distinct ps \<and> sample_project \<in> set ps"
proof -
  obtain ps w' where l: "ListUserProjects sample_env ''u1'' sample_world = (Inr ps, w')"
    by (simp add: ListUserProjects_def query_rows_def driver_call_def sample_env_def)
  have "distinct ps \<and> sample_project \<in> set ps"
    using user_projects_spec [OF l]
    by (simp add: total_preorder_def sample_env_def) (simp add: sample_defs)
  with l show ?thesis by blast
qed

end
