(* ===== verification/Base64.thy ===== *)
theory Base64
  imports Prelude "HOL-Library.Word"
begin

text \<open>
  The text form of random bytes that \<open>generateState\<close> of \<open>internal/auth/auth.go\<close> uses: \<open>base64.URLEncoding\<close> of the
  standard library, three bytes as four characters, the last group padded.

  Lemmas: the width of the text, that decoding gives the bytes back (so different bytes have different
  texts), and that every character of it may stand in a cookie value as it is.
\<close>

type_synonym byte = "8 word"

section \<open>Encoding\<close>

definition base64_alphabet :: string where
  "base64_alphabet = ''ABCDEFGHIJKLMNOPQRSTUVWXYZabcdefghijklmnopqrstuvwxyz0123456789-_''"

definition sextet :: "nat \<Rightarrow> char" where
  "sextet n = base64_alphabet ! (n mod 64)"

text \<open>The digits of a group, the first of the most significant six of its 24 bits.\<close>

definition group_val :: "byte \<Rightarrow> byte \<Rightarrow> byte \<Rightarrow> nat" where
  "group_val a b c = unat a * 65536 + unat b * 256 + unat c"

definition digits_of :: "nat \<Rightarrow> string" where
  "digits_of v = [sextet (v div 262144), sextet (v div 4096), sextet (v div 64), sextet v]"

fun EncodeToString :: "byte list \<Rightarrow> string" where
  "EncodeToString [] = []"
| "EncodeToString [a] = take 2 (digits_of (group_val a 0 0)) @ ''==''"
| "EncodeToString [a, b] = take 3 (digits_of (group_val a b 0)) @ ''=''"
| "EncodeToString (a # b # c # rest) = digits_of (group_val a b c) @ EncodeToString rest"

section \<open>Decoding\<close>

definition sextet_val :: "char \<Rightarrow> nat" where
  "sextet_val ch = length (takeWhile (\<lambda>x. x \<noteq> ch) base64_alphabet)"

definition group_of :: "nat \<Rightarrow> nat \<Rightarrow> nat \<Rightarrow> nat \<Rightarrow> byte list" where
  "group_of p q r s = (let v = p * 262144 + q * 4096 + r * 64 + s in
     [of_nat (v div 65536), of_nat (v div 256), of_nat v])"

fun DecodeString :: "string \<Rightarrow> byte list option" where
  "DecodeString [] = Some []"
| "DecodeString (p # q # r # s # rest) =
     (if r = CHR ''='' then Some (take 1 (group_of (sextet_val p) (sextet_val q) 0 0))
      else if s = CHR ''='' then Some (take 2 (group_of (sextet_val p) (sextet_val q) (sextet_val r) 0))
      else map_option (\<lambda>bs. group_of (sextet_val p) (sextet_val q) (sextet_val r) (sextet_val s) @ bs)
             (DecodeString rest))"
| "DecodeString _ = None"

section \<open>Characters\<close>

text \<open>What \<open>SetCookie\<close> of \<open>net/http\<close> neither drops from a value nor puts the value in quotes for.\<close>

definition cookie_char :: "char \<Rightarrow> bool" where
  "cookie_char ch = (32 \<le> (of_char ch :: nat) \<and> (of_char ch :: nat) < 127
     \<and> ch \<noteq> CHR 0x22 \<and> ch \<noteq> CHR '';'' \<and> ch \<noteq> CHR 0x5C \<and> ch \<noteq> CHR '' '' \<and> ch \<noteq> CHR '','')"

lemma alphabet_facts:
  "length base64_alphabet = 64" "distinct base64_alphabet" "CHR ''='' \<notin> set base64_alphabet"
  "list_all cookie_char (CHR ''='' # base64_alphabet)"
  by code_simp+

lemma sextet_in [simp]: "sextet n \<in> set base64_alphabet"
  by (simp add: sextet_def alphabet_facts(1))

lemma sextet_not_pad [simp]: "sextet n \<noteq> CHR ''=''"
  using sextet_in [of n] alphabet_facts(3) by metis

lemma takeWhile_nth:
  "distinct xs \<Longrightarrow> i < length xs \<Longrightarrow> length (takeWhile (\<lambda>x. x \<noteq> xs ! i) xs) = i"
proof (induction xs arbitrary: i)
  case (Cons x xs)
  then show ?case by (cases i) auto
qed simp

lemma sextet_val_sextet [simp]: "sextet_val (sextet n) = n mod 64"
  by (simp add: sextet_val_def sextet_def takeWhile_nth alphabet_facts)

section \<open>Groups\<close>

lemma digits_sum:
  fixes v :: nat
  assumes "v < 16777216"
  shows "v div 262144 mod 64 * 262144 + v div 4096 mod 64 * 4096 + v div 64 mod 64 * 64 + v mod 64 = v"
proof -
  have 1: "v mod 4096 = 64 * (v div 64 mod 64) + v mod 64"
    using mod_mult2_eq [of v 64 64] by simp
  have 2: "v mod 262144 = 4096 * (v div 4096 mod 64) + v mod 4096"
    using mod_mult2_eq [of v 4096 64] by simp
  have 3: "v mod 16777216 = 262144 * (v div 262144 mod 64) + v mod 262144"
    using mod_mult2_eq [of v 262144 64] by simp
  from 1 2 3 mod_less [OF assms] show ?thesis by linarith
qed

lemma unat_byte: "unat (a :: byte) < 256"
  using unsigned_less [of a, where 'a = nat] by simp

lemma group_val_less: "group_val a b c < 16777216"
  using unat_byte [of a] unat_byte [of b] unat_byte [of c] by (simp add: group_val_def)

lemma group_bytes:
  "of_nat (group_val a b c div 65536) = a" "of_nat (group_val a b c div 256) = b" "of_nat (group_val a b c) = c"
proof -
  have "group_val a b c div 65536 = unat a"
    using unat_byte [of b] unat_byte [of c] by (simp add: group_val_def)
  then show "of_nat (group_val a b c div 65536) = a" by simp
  have "group_val a b c div 256 = unat a * 256 + unat b"
    using unat_byte [of c] by (simp add: group_val_def)
  then have "(of_nat (group_val a b c div 256) :: byte) = of_nat (unat a) * 256 + of_nat (unat b)"
    by simp
  also have "(256 :: byte) = 0" by simp
  finally show "of_nat (group_val a b c div 256) = b" by simp
  have "(of_nat (group_val a b c) :: byte) = of_nat (unat a) * 65536 + of_nat (unat b) * 256 + of_nat (unat c)"
    by (simp only: group_val_def of_nat_add of_nat_mult of_nat_numeral)
  also have "(65536 :: byte) = 0" by simp
  also have "(256 :: byte) = 0" by simp
  finally show "of_nat (group_val a b c) = c" by simp
qed

lemma group_of_digits:
  "group_of (group_val a b c div 262144 mod 64) (group_val a b c div 4096 mod 64)
     (group_val a b c div 64 mod 64) (group_val a b c mod 64) = [a, b, c]"
  using digits_sum [OF group_val_less, of a b c] group_bytes [of a b c] by (simp only: group_of_def Let_def)

text \<open>In a padded group the missing digits are those of zero bits.\<close>

lemma padded_digits:
  "group_val a 0 0 div 64 mod 64 = 0" "group_val a 0 0 mod 64 = 0" "group_val a b 0 mod 64 = 0"
proof -
  have "group_val a 0 0 = 64 * (64 * (unat a * 16))" "group_val a b 0 = 64 * (unat a * 1024 + unat b * 4)"
    by (simp_all add: group_val_def)
  then show "group_val a 0 0 div 64 mod 64 = 0" "group_val a 0 0 mod 64 = 0" "group_val a b 0 mod 64 = 0"
    by simp_all
qed

section \<open>Round trip, width and characters\<close>

lemma DecodeString_EncodeToString [simp]: "DecodeString (EncodeToString bs) = Some bs"
proof (induction bs rule: EncodeToString.induct)
  case (2 a)
  from group_of_digits [of a 0 0] padded_digits(1,2) [of a] show ?case by (simp add: digits_of_def)
next
  case (3 a b)
  from group_of_digits [of a b 0] padded_digits(3) [of a b] show ?case by (simp add: digits_of_def)
next
  case (4 a b c rest)
  with group_of_digits [of a b c] show ?case by (simp add: digits_of_def)
qed simp

lemma EncodeToString_inject [simp]: "EncodeToString bs = EncodeToString cs \<longleftrightarrow> bs = cs"
  by (metis DecodeString_EncodeToString option.inject)

lemma length_EncodeToString: "length (EncodeToString bs) = 4 * ((length bs + 2) div 3)"
proof (induction bs rule: EncodeToString.induct)
  case (4 a b c rest)
  have "length (a # b # c # rest) + 2 = 3 + (length rest + 2)" by simp
  then have "(length (a # b # c # rest) + 2) div 3 = Suc ((length rest + 2) div 3)" by simp
  with 4 show ?case by (simp add: digits_of_def)
qed (simp_all add: digits_of_def)

lemma EncodeToString_chars: "set (EncodeToString bs) \<subseteq> insert (CHR ''='') (set base64_alphabet)"
  by (induction bs rule: EncodeToString.induct) (auto simp: digits_of_def)

lemma EncodeToString_cookie: "list_all cookie_char (EncodeToString bs)"
  using EncodeToString_chars [of bs] alphabet_facts(4) by (auto simp: list_all_iff)

end
