(* ===== verification/Auth.thy ===== *)
theory Auth
  imports Http Role_Laws Base64
begin

text \<open>
  Sessions and the OpenID Connect login of \<open>internal/auth/auth.go\<close>: the handlers of the login,
  callback and logout routes, the session middleware, and the provisioning of users and groups
  from the claims of an identity token.

  The identity provider (token exchange, verification of the identity token), the secure cookie
  codec, the random bytes and the text form of a time stamp are parameters, the fields of \<open>idp\<close>.
\<close>

section \<open>The manager\<close>

record claims =
  cl_email :: string
  cl_name :: string
  cl_groups :: "string list"
  cl_subject :: string

text \<open>
  \<open>im_exchange code\<close>: the token response, \<open>None\<close> for an error, whose \<open>id_token\<close> may be absent;
  \<open>im_verify\<close>: \<open>verifier.Verify\<close>; \<open>im_claims\<close>: decoding the claims of a verified token;
  \<open>im_encode\<close>, \<open>im_decode\<close>: \<open>securecookie\<close> on a cookie name and a JSON text by its value;
  \<open>im_time\<close>, \<open>im_parse_time\<close>: a \<open>time.Time\<close> as JSON text; \<open>im_random k n\<close>: the
  \<open>n\<close> bytes \<open>rand.Read\<close> fills a buffer with at the \<open>k\<close>-th login, \<open>None\<close> for an error.
\<close>

record 't idp =
  im_auth_url :: "string \<Rightarrow> string"
  im_exchange :: "string \<Rightarrow> string option option"
  im_verify :: "string \<Rightarrow> 't option"
  im_claims :: "'t \<Rightarrow> claims option"
  im_encode :: "string \<Rightarrow> json \<Rightarrow> string option"
  im_decode :: "string \<Rightarrow> string \<Rightarrow> json option"
  im_time :: "time \<Rightarrow> string"
  im_parse_time :: "string \<Rightarrow> time option"
  im_random :: "nat \<Rightarrow> nat \<Rightarrow> byte list option"

record 't manager =
  am_idp :: "'t idp"
  am_disabled :: bool

definition IsDisabled :: "'t manager \<Rightarrow> bool" where
  "IsDisabled m = am_disabled m"

definition sessionCookieName :: string where "sessionCookieName = ''finguard_session''"
definition stateCookieName :: string where "stateCookieName = ''finguard_oauth_state''"
definition sessionMaxAge :: time where "sessionMaxAge = 24 * hour"

section \<open>Session cookies\<close>

text \<open>The JSON form of \<open>SessionData\<close>: \<open>groups\<close> is left out when empty.\<close>

definition marshal_session :: "'t idp \<Rightarrow> session_data \<Rightarrow> json" where
  "marshal_session i s = JObj (
     [(''userId'', JStr (sd_user s)), (''email'', JStr (sd_email s)),
      (''displayName'', JStr (sd_display s))]
     @ (if sd_groups s = [] then [] else [(''groups'', JArr (map JStr (sd_groups s)))])
     @ [(''expiresAt'', JStr (im_time i (sd_expires s)))])"

fun time_value :: "'t idp \<Rightarrow> json \<Rightarrow> time \<Rightarrow> time option" where
  "time_value i (JStr s) x = im_parse_time i s"
| "time_value i JNull x = Some x"
| "time_value i _ x = None"

definition unmarshal_session :: "'t idp \<Rightarrow> json \<Rightarrow> session_data option" where
  "unmarshal_session i raw =
     (case object_fields (Some raw) of
        None \<Rightarrow> None
      | Some kvs \<Rightarrow>
          (case (decode_field text_value ''userId'' kvs '''', decode_field text_value ''email'' kvs '''',
                 decode_field text_value ''displayName'' kvs '''', decode_field texts_value ''groups'' kvs [],
                 decode_field (time_value i) ''expiresAt'' kvs 0) of
             (Some u, Some em, Some dn, Some gs, Some t) \<Rightarrow>
               Some \<lparr>sd_user = u, sd_email = em, sd_display = dn, sd_groups = gs, sd_expires = t\<rparr>
           | _ \<Rightarrow> None))"

definition encodeSession :: "'t manager \<Rightarrow> session_data \<Rightarrow> string option" where
  "encodeSession m s = im_encode (am_idp m) sessionCookieName (marshal_session (am_idp m) s)"

definition decodeSession :: "'t manager \<Rightarrow> string \<Rightarrow> session_data option" where
  "decodeSession m encoded =
     (case im_decode (am_idp m) sessionCookieName encoded of
        None \<Rightarrow> None
      | Some raw \<Rightarrow> unmarshal_session (am_idp m) raw)"

section \<open>Provisioning\<close>

definition syncGroup :: "env \<Rightarrow> string \<Rightarrow> string \<Rightarrow> world \<Rightarrow> world" where
  "syncGroup e claim userID w =
     (case GetGroupByOIDCClaim e claim w of
        (Inl err, w) \<Rightarrow> w
      | (Inr (Some g), w) \<Rightarrow> snd (AddGroupMember e (g_id g) userID w)
      | (Inr None, w) \<Rightarrow>
          (case CreateGroup e \<lparr>g_id = '''', g_name = claim, g_claim = claim, g_created = 0\<rparr> w of
             (Inl err, w) \<Rightarrow> w
           | (Inr g, w) \<Rightarrow> snd (AddGroupMember e (g_id g) userID w)))"

fun sync_groups :: "env \<Rightarrow> string list \<Rightarrow> string \<Rightarrow> world \<Rightarrow> world" where
  "sync_groups e [] userID w = w"
| "sync_groups e (c # cs) userID w = sync_groups e cs userID (syncGroup e c userID w)"

definition provisionUser ::
  "env \<Rightarrow> string \<Rightarrow> string \<Rightarrow> string \<Rightarrow> string list \<Rightarrow> user io" where
  "provisionUser e subject email name groups w =
     (case GetUserByOIDCSubject e subject w of
        (Inl err, w) \<Rightarrow> (Inl err, w)
      | (Inr (Some u), w) \<Rightarrow> (Inr u, w)
      | (Inr None, w) \<Rightarrow>
          (case GetUserByEmail e email w of
             (Inl err, w) \<Rightarrow> (Inl err, w)
           | (Inr (Some u), w) \<Rightarrow> (Inr u, w)
           | (Inr None, w) \<Rightarrow>
               let displayName = (if name = '''' then email else name) in
               (case CreateUser e \<lparr>u_id = '''', u_email = email, u_display = displayName,
                                   u_subject = subject, u_created = 0\<rparr> w of
                  (Inl err, w) \<Rightarrow> (Inl err, w)
                | (Inr u, w) \<Rightarrow> (Inr u, sync_groups e groups (u_id u) w))))"

section \<open>Handlers and middleware\<close>

definition generateState :: "'t idp \<Rightarrow> nat \<Rightarrow> string option" where
  "generateState i k =
     (case im_random i k 32 of
        None \<Rightarrow> None
      | Some b \<Rightarrow> Some (EncodeToString b))"

definition HandleLogin :: "'t manager \<Rightarrow> nat \<Rightarrow> handler" where
  "HandleLogin m k rq w =
     (if am_disabled m then (writeJSON StatusOK (JObj [(''status'', JStr ''auth disabled'')]), w)
      else case generateState (am_idp m) k of
        None \<Rightarrow> (writeJSON StatusInternalServerError (error_body ''failed to generate state''), w)
      | Some state \<Rightarrow>
          (SetCookie \<lparr>ck_name = stateCookieName, ck_value = state, ck_max_age = 300\<rparr>
             (Redirect (im_auth_url (am_idp m) state)), w))"

definition clear_cookie :: "string \<Rightarrow> cookie" where
  "clear_cookie name = \<lparr>ck_name = name, ck_value = '''', ck_max_age = -1\<rparr>"

definition callback_session :: "'t manager \<Rightarrow> env \<Rightarrow> claims \<Rightarrow> handler" where
  "callback_session m e c rq w =
     (case provisionUser e (cl_subject c) (cl_email c) (cl_name c) (cl_groups c) w of
        (Inl err, w) \<Rightarrow> (writeJSON StatusInternalServerError (error_body ''failed to provision user''), w)
      | (Inr u, w) \<Rightarrow>
          let (t, w) = now e w;
              session = \<lparr>sd_user = u_id u, sd_email = u_email u, sd_display = u_display u,
                         sd_groups = cl_groups c, sd_expires = t + sessionMaxAge\<rparr>
          in case encodeSession m session of
               None \<Rightarrow> (writeJSON StatusInternalServerError (error_body ''failed to create session''), w)
             | Some encoded \<Rightarrow>
                 (SetCookie \<lparr>ck_name = sessionCookieName, ck_value = encoded,
                             ck_max_age = sessionMaxAge div second\<rparr> (Redirect ''/''), w))"

definition callback_token :: "'t manager \<Rightarrow> env \<Rightarrow> handler" where
  "callback_token m e rq w =
     (let code = QueryGet ''code'' rq in
      if code = '''' then (writeJSON StatusBadRequest (error_body ''missing authorization code''), w)
      else case im_exchange (am_idp m) code of
        None \<Rightarrow> (writeJSON StatusInternalServerError (error_body ''token exchange failed''), w)
      | Some None \<Rightarrow> (writeJSON StatusInternalServerError (error_body ''no id_token in response''), w)
      | Some (Some rawIDToken) \<Rightarrow>
          (case im_verify (am_idp m) rawIDToken of
             None \<Rightarrow> (writeJSON StatusUnauthorized (error_body ''invalid id token''), w)
           | Some idToken \<Rightarrow>
               (case im_claims (am_idp m) idToken of
                  None \<Rightarrow> (writeJSON StatusInternalServerError (error_body ''failed to parse claims''), w)
                | Some c \<Rightarrow> callback_session m e c rq w)))"

text \<open>The state cookie is cleared once it has matched, on whatever response follows.\<close>

definition HandleCallback :: "'t manager \<Rightarrow> env \<Rightarrow> handler" where
  "HandleCallback m e rq w =
     (if am_disabled m then (Redirect ''/'', w)
      else case Cookie stateCookieName rq of
        None \<Rightarrow> (writeJSON StatusBadRequest (error_body ''missing state cookie''), w)
      | Some value \<Rightarrow>
          if value = '''' then (writeJSON StatusBadRequest (error_body ''missing state cookie''), w)
          else if QueryGet ''state'' rq \<noteq> value
            then (writeJSON StatusBadRequest (error_body ''state mismatch''), w)
          else let (rs, w) = callback_token m e rq w
               in (SetCookie (clear_cookie stateCookieName) rs, w))"

definition HandleLogout :: "'t manager \<Rightarrow> handler" where
  "HandleLogout m rq w = (SetCookie (clear_cookie sessionCookieName) (Redirect ''/''), w)"

definition session_json :: "'t idp \<Rightarrow> session_data \<Rightarrow> json" where
  "session_json i s = marshal_session i s"

definition HandleUserInfo :: "'t manager \<Rightarrow> handler" where
  "HandleUserInfo m rq w =
     (case UserFromContext rq of
        None \<Rightarrow> (writeJSON StatusUnauthorized (error_body ''not authenticated''), w)
      | Some s \<Rightarrow> (writeJSON StatusOK (session_json (am_idp m) s), w))"

definition Middleware :: "'t manager \<Rightarrow> env \<Rightarrow> guard" where
  "Middleware m e rq w =
     (if am_disabled m then (Inr rq, w)
      else case Cookie sessionCookieName rq of
        None \<Rightarrow> (Inl (writeJSON StatusUnauthorized (error_body ''authentication required'')), w)
      | Some value \<Rightarrow>
          (case decodeSession m value of
             None \<Rightarrow> (Inl (writeJSON StatusUnauthorized (error_body ''invalid session'')), w)
           | Some session \<Rightarrow>
               let (t, w) = now e w in
               if t > sd_expires session
               then (Inl (writeJSON StatusUnauthorized (error_body ''session expired'')), w)
               else (Inr (rq\<lparr>rq_session := Some session\<rparr>), w)))"

end
