(* ===== verification/Auth_Laws.thy ===== *)
theory Auth_Laws
  imports Auth
begin

text \<open>
  What the login promises: which requests get a session and whose it is, how long it is accepted,
  that logging in again finds the same account, and that a request without a valid session
  changes nothing.
\<close>

section \<open>Frames of the store operations used by provisioning\<close>

lemma exec_frame:
  assumes "\<And>d d'. stmt d = Inr d' \<Longrightarrow> f d' = f d"
  shows "f (w_db (snd (exec e stmt w))) = f (w_db w)"
  using assms exec_db [of e stmt w] by auto

lemma AddGroupMember_users [simp]:
  "t_users (w_db (snd (AddGroupMember e g u w))) = t_users (w_db w)"
  unfolding AddGroupMember_def
  by (rule exec_frame) (auto simp: stmt_insert_member_def split: if_splits)

lemma CreateGroup_users [simp]:
  "t_users (w_db (snd (CreateGroup e g w))) = t_users (w_db w)"
  by (simp add: CreateGroup_def Let_def case_prod_beta)
    (subst exec_frame [where f = t_users], auto simp: stmt_insert_group_def split: if_splits)

lemma GetGroupByOIDCClaim_db [simp]: "w_db (snd (GetGroupByOIDCClaim e c w)) = w_db w"
  by (simp add: GetGroupByOIDCClaim_def)

lemma syncGroup_cases:
  obtains (same) "w_db (syncGroup e c u w) = w_db w"
  | (member) g w1 where "w_db w1 = w_db w" "syncGroup e c u w = snd (AddGroupMember e g u w1)"
  | (create) g w1 where "w_db w1 = w_db w" "syncGroup e c u w = snd (CreateGroup e g w1)"
  | (both) g g' w1 where "w_db w1 = w_db w"
      "syncGroup e c u w = snd (AddGroupMember e g' u (snd (CreateGroup e g w1)))"
proof (cases "GetGroupByOIDCClaim e c w")
  case (Pair r w1)
  then have db: "w_db w1 = w_db w" using GetGroupByOIDCClaim_db [of e c w] by simp
  let ?g = "\<lparr>g_id = '''', g_name = c, g_claim = c, g_created = 0\<rparr>"
  show thesis
  proof (cases r)
    case (Inl err)
    with Pair db same show thesis by (simp add: syncGroup_def)
  next
    case (Inr go)
    show thesis
    proof (cases go)
      case (Some g)
      with Pair Inr db member show thesis by (simp add: syncGroup_def)
    next
      case None
      show thesis
      proof (cases "CreateGroup e ?g w1")
        case (Pair r' w2)
        then have w2: "w2 = snd (CreateGroup e ?g w1)" by simp
        have "syncGroup e c u w = (case r' of Inl err \<Rightarrow> w2 | Inr g \<Rightarrow> snd (AddGroupMember e (g_id g) u w2))"
          using \<open>GetGroupByOIDCClaim e c w = (r, w1)\<close> Inr None Pair by (simp add: syncGroup_def)
        with w2 db create both show thesis by (cases r') auto
      qed
    qed
  qed
qed

lemma syncGroup_users [simp]: "t_users (w_db (syncGroup e c u w)) = t_users (w_db w)"
  by (cases rule: syncGroup_cases [of e c u w]) simp_all

lemma sync_groups_users [simp]: "t_users (w_db (sync_groups e cs u w)) = t_users (w_db w)"
  by (induction e cs u w rule: sync_groups.induct) simp_all

lemma AddGroupMember_inv: "db_inv (w_db w) \<Longrightarrow> db_inv (w_db (snd (AddGroupMember e g u w)))"
  by (simp add: AddGroupMember_def exec_stmt_inv)

lemma CreateGroup_inv: "db_inv (w_db w) \<Longrightarrow> db_inv (w_db (snd (CreateGroup e g w)))"
  by (simp add: CreateGroup_def Let_def case_prod_beta exec_stmt_inv)

lemma syncGroup_inv: "db_inv (w_db w) \<Longrightarrow> db_inv (w_db (syncGroup e c u w))"
  by (cases rule: syncGroup_cases [of e c u w]) (simp_all add: AddGroupMember_inv CreateGroup_inv)

lemma sync_groups_inv: "db_inv (w_db w) \<Longrightarrow> db_inv (w_db (sync_groups e cs u w))"
  by (induction e cs u w rule: sync_groups.induct) (simp_all add: syncGroup_inv)

section \<open>Provisioning\<close>

lemma CreateUser_Inr:
  assumes "CreateUser e u w = (Inr u', w1)"
  shows "stmt_insert_user (keep_user e (user_row_of u')) (w_db w) = Inr (w_db w1)"
    and "u_email u' = u_email u" and "u_subject u' = u_subject u" and "u_display u' = u_display u"
  using assms
  by (auto simp: CreateUser_def Let_def map_sum_Inr ensure_id_def newID_def now_def
      split: prod.splits if_splits dest!: exec_Inr)

lemma CreateUser_Inl: "CreateUser e u w = (Inl err, w1) \<Longrightarrow> w_db w1 = w_db w"
  by (auto simp: CreateUser_def Let_def map_sum_Inl ensure_id_def newID_def now_def
      split: prod.splits if_splits dest!: exec_Inl)

lemma insert_user_rows:
  "stmt_insert_user r d = Inr d' \<Longrightarrow> t_users d' = t_users d @ [r]"
  by (auto simp: stmt_insert_user_def split: if_splits)

lemma scan_user_row [simp]: "scan_user (user_row_of u) = u"
  by (simp add: scan_user_def user_row_of_def nullString_def null_text_def)

lemma scan_kept_user [simp]: "scan_user (keep_user e (user_row_of u)) = u\<lparr>u_created := e_time e (u_created u)\<rparr>"
  by (simp add: scan_user_def user_row_of_def nullString_def null_text_def keep_user_def)

text \<open>The outcomes of \<open>provisionUser\<close>.\<close>

lemma provisionUser_cases:
  assumes "provisionUser e sub em nm gs w = (Inr u, w')"
  obtains (known) "map_option scan_user (find_row ur_subject (Some sub) (t_users (w_db w))) = Some u"
      "w_db w' = w_db w"
  | (email) "find_row ur_subject (Some sub) (t_users (w_db w)) = None"
      "map_option scan_user (find_row ur_email em (t_users (w_db w))) = Some u" "w_db w' = w_db w"
  | (created) w1 where "find_row ur_subject (Some sub) (t_users (w_db w)) = None"
      "find_row ur_email em (t_users (w_db w)) = None"
      "stmt_insert_user (keep_user e (user_row_of u)) (w_db w) = Inr (w_db w1)"
      "u_email u = em" "u_subject u = sub" "u_display u = (if nm = '''' then em else nm)"
      "w' = sync_groups e gs (u_id u) w1"
proof -
  obtain r1 w1 where g1: "GetUserByOIDCSubject e sub w = (r1, w1)" by fastforce
  with assms obtain o1 where o1: "r1 = Inr o1"
    by (cases r1) (simp_all add: provisionUser_def)
  note s = query_rows_Inr [OF g1 [unfolded o1 GetUserByOIDCSubject_def]]
  show thesis
  proof (cases o1)
    case (Some x)
    with assms g1 o1 have "u = x \<and> w' = w1" by (simp add: provisionUser_def)
    with s Some show thesis by (intro known) simp_all
  next
    case None
    obtain r2 w2 where g2: "GetUserByEmail e em w1 = (r2, w2)" by fastforce
    with assms g1 o1 None obtain o2 where o2: "r2 = Inr o2"
      by (cases r2) (simp_all add: provisionUser_def)
    note em = query_rows_Inr [OF g2 [unfolded o2 GetUserByEmail_def]]
    show thesis
    proof (cases o2)
      case (Some x)
      with assms g1 o1 None g2 o2 have "u = x \<and> w' = w2" by (simp add: provisionUser_def)
      with s em None Some show thesis by (intro email) simp_all
    next
      case none2: None
      let ?u = "\<lparr>u_id = '''', u_email = em, u_display = (if nm = '''' then em else nm),
          u_subject = sub, u_created = 0\<rparr>"
      obtain r3 w3 where c: "CreateUser e ?u w2 = (r3, w3)" by fastforce
      have "(case r3 of Inl err \<Rightarrow> (Inl err, w3) | Inr u \<Rightarrow> (Inr u, sync_groups e gs (u_id u) w3)) = (Inr u, w')"
        using assms g1 o1 None g2 o2 none2 c by (simp add: provisionUser_def)
      then have r3: "r3 = Inr u" and w': "w' = sync_groups e gs (u_id u) w3"
        by (cases r3; simp)+
      note cu = CreateUser_Inr [OF c [unfolded r3]]
      have db: "w_db w2 = w_db w" using s em by simp
      show thesis
        by (rule created [of w3]) (use cu s em db None none2 w' in auto)
    qed
  qed
qed

text \<open>
  a login that succeeds yields a user that is in the user table afterwards (with the time of creation as the column keeps
  it), with the subject of the token or its email address; users are only ever added by it, at most one, and an
  account that is found is not modified.
\<close>

theorem provision_spec:
  assumes "provisionUser e sub em nm gs w = (Inr u, w')"
  shows "(\<exists>row \<in> set (t_users (w_db w')). scan_user row = u\<lparr>u_created := ur_created row\<rparr>)
    \<and> (u_subject u = sub \<or> u_email u = em)
    \<and> (t_users (w_db w') = t_users (w_db w) \<or> t_users (w_db w') = t_users (w_db w) @ [keep_user e (user_row_of u)])"
using assms
proof (cases rule: provisionUser_cases)
  case known
  then obtain r where r: "find_row ur_subject (Some sub) (t_users (w_db w)) = Some r" "u = scan_user r"
    by blast
  with known find_row_Some [OF r(1)] show ?thesis by (auto simp: scan_user_def null_text_def intro!: bexI [of _ r])
next
  case email
  then obtain r where r: "find_row ur_email em (t_users (w_db w)) = Some r" "u = scan_user r"
    by blast
  with email find_row_Some [OF r(1)] show ?thesis by (auto simp: scan_user_def intro!: bexI [of _ r])
next
  case (created w1)
  from insert_user_rows [OF created(3)] have "t_users (w_db w') = t_users (w_db w) @ [keep_user e (user_row_of u)]"
    using created(7) by simp
  moreover have "ur_created (keep_user e (user_row_of u)) = e_time e (u_created u)"
    by (simp add: keep_user_def user_row_of_def)
  ultimately show ?thesis using created(5) by simp
qed

text \<open>
  logging in again with the same token identity yields the same account and changes nothing.
\<close>

theorem provision_idempotent:
  assumes "provisionUser e sub em nm gs w = (Inr u, w1)"
    and "provisionUser e sub em nm' gs' w1 = (Inr u', w2)"
  shows "u_id u' = u_id u \<and> w_db w2 = w_db w1"
using assms(1)
proof (cases rule: provisionUser_cases)
  case known
  with assms(2) show ?thesis by (cases rule: provisionUser_cases) auto
next
  case email
  with assms(2) show ?thesis by (cases rule: provisionUser_cases) auto
next
  case (created w1')
  let ?row = "keep_user e (user_row_of u)"
  from insert_user_rows [OF created(3)] have rows: "t_users (w_db w1) = t_users (w_db w) @ [?row]"
    using created(7) by simp
  have row: "ur_email ?row = em" using created(4) by (simp add: user_row_of_def)
  have em: "find_row ur_email em (t_users (w_db w1)) = Some ?row"
    using created(2) row by (simp add: rows find_row_append find_row_singleton)
  have sub: "find_row ur_subject (Some sub) (t_users (w_db w1)) \<in> {None, Some ?row}"
    using created(1) by (simp add: rows find_row_append find_row_singleton)
  have id: "u_id (scan_user ?row) = u_id u" by simp
  from assms(2) show ?thesis
  proof (cases rule: provisionUser_cases)
    case known
    with sub have "u' = scan_user ?row" by auto
    with known id show ?thesis by simp
  next
    case email
    with em have "u' = scan_user ?row" by simp
    with email id show ?thesis by simp
  next
    case created
    with em show ?thesis by simp
  qed
qed

lemma provision_users_after:
  assumes "provisionUser e sub em nm gs w = (Inr u, w')" and "t_users (w_db w) = []"
  shows "t_users (w_db w') = [keep_user e (user_row_of u)]"
  using assms(1)
proof (cases rule: provisionUser_cases)
  case (created w1)
  from insert_user_rows [OF created(3)] created(7) assms(2) show ?thesis by simp
qed (simp_all add: assms(2) find_row_def)

lemma Itoa_0: "Itoa 0 = ''0''"
  by code_simp

lemma sample_login:
  "provisionUser sample_env ''s2'' ''c@d'' ''C'' [''dev''] init_world
    = (Inr \<lparr>u_id = ''id-0'', u_email = ''c@d'', u_display = ''C'', u_subject = ''s2'', u_created = 0\<rparr>,
       snd (provisionUser sample_env ''s2'' ''c@d'' ''C'' [''dev''] init_world))"
  by (simp add: provisionUser_def GetUserByOIDCSubject_def GetUserByEmail_def CreateUser_def run_defs
      stmt_insert_user_def user_row_of_def id_sets subjects_def nullString_def find_row_def Itoa_0)

lemma sample_login_again:
  "\<exists>u' w2. provisionUser sample_env ''s2'' ''c@d'' ''C''  []
     (snd (provisionUser sample_env ''s2'' ''c@d'' ''C'' [''dev''] init_world)) = (Inr u', w2)"
proof -
  let ?u = "\<lparr>u_id = ''id-0'', u_email = ''c@d'', u_display = ''C'', u_subject = ''s2'', u_created = 0\<rparr>"
  let ?w1 = "snd (provisionUser sample_env ''s2'' ''c@d'' ''C'' [''dev''] init_world)"
  have "t_users (w_db ?w1) = [user_row_of ?u]"
    using provision_users_after [OF sample_login] by (simp add: init_world_def empty_tables_def)
  then have "find_row ur_subject (Some ''s2'') (t_users (w_db ?w1)) = Some (user_row_of ?u)"
    by (simp add: find_row_def user_row_of_def nullString_def)
  then show ?thesis
    by (simp add: provisionUser_def GetUserByOIDCSubject_def query_rows_def driver_call_def sample_env_def)
qed

theorem provision_spec_witness:
  "\<exists>u w'. provisionUser sample_env ''s2'' ''c@d'' ''C'' [''dev''] init_world = (Inr u, w')
     \<and> u_id u = ''id-0'' \<and> (\<exists>row \<in> set (t_users (w_db w')). scan_user row = u\<lparr>u_created := ur_created row\<rparr>)"
  by (intro exI conjI, rule sample_login, simp) (rule provision_spec [OF sample_login, THEN conjunct1])

theorem provision_idempotent_witness:
  "\<exists>u u' w1 w2. provisionUser sample_env ''s2'' ''c@d'' ''C'' [''dev''] init_world = (Inr u, w1)
     \<and> provisionUser sample_env ''s2'' ''c@d'' ''C'' [] w1 = (Inr u', w2) \<and> u_id u' = u_id u \<and> w_db w2 = w_db w1"
proof -
  let ?w1 = "snd (provisionUser sample_env ''s2'' ''c@d'' ''C'' [''dev''] init_world)"
  have "\<exists>u' w2. provisionUser sample_env ''s2'' ''c@d'' ''C'' [] ?w1 = (Inr u', w2)"
    by (rule sample_login_again)
  then obtain u' w2 where again: "provisionUser sample_env ''s2'' ''c@d'' ''C'' [] ?w1 = (Inr u', w2)"
    by blast
  with provision_idempotent [OF sample_login again] sample_login show ?thesis by metis
qed

text \<open>
  Two tokens without an email address and with different subjects get one account: the second
  login finds the row whose address is the empty text.
\<close>

theorem empty_email_shares_account:
  assumes "provisionUser e sub1 '''' nm1 gs1 w = (Inr u1, w1)"
    and "provisionUser e sub2 '''' nm2 gs2 w1 = (Inr u2, w2)"
    and "find_row ur_subject (Some sub1) (t_users (w_db w)) = None"
    and "find_row ur_subject (Some sub2) (t_users (w_db w)) = None" and "sub1 \<noteq> sub2"
  shows "u_id u2 = u_id u1"
  using assms(1)
proof (cases rule: provisionUser_cases)
  case known
  with assms(3) show ?thesis by simp
next
  case email
  with assms(4) show ?thesis using provisionUser_cases [OF assms(2), of ?thesis] by auto
next
  case (created w1')
  from insert_user_rows [OF created(3)]
  have rows: "t_users (w_db w1) = t_users (w_db w) @ [keep_user e (user_row_of u1)]"
    using created(7) by simp
  have em: "find_row ur_email '''' (t_users (w_db w1)) = Some (keep_user e (user_row_of u1))"
    using created(2,4) by (simp add: rows find_row_append find_row_singleton user_row_of_def)
  have "ur_subject (keep_user e (user_row_of u1)) \<noteq> Some sub2"
    using created(5) assms(5) by (simp add: user_row_of_def nullString_def)
  then have sub: "find_row ur_subject (Some sub2) (t_users (w_db w1)) = None"
    unfolding rows find_row_append find_row_singleton assms(4) by simp
  from assms(2) show ?thesis
  proof (cases rule: provisionUser_cases)
    case known
    with sub show ?thesis by simp
  next
    case email
    with em show ?thesis by auto
  next
    case created
    with em show ?thesis by auto
  qed
qed

section \<open>Session cookies\<close>

lemma text_elements_map [simp]: "text_elements (map JStr ss) = Some ss"
  by (induction ss) auto

lemma session_keys:
  "\<not> same_key ''email'' ''userId''" "\<not> same_key ''displayName'' ''userId''" "\<not> same_key ''groups'' ''userId''"
  "\<not> same_key ''expiresAt'' ''userId''" "\<not> same_key ''userId'' ''email''" "\<not> same_key ''displayName'' ''email''"
  "\<not> same_key ''groups'' ''email''" "\<not> same_key ''expiresAt'' ''email''" "\<not> same_key ''userId'' ''displayName''"
  "\<not> same_key ''email'' ''displayName''" "\<not> same_key ''groups'' ''displayName''" "\<not> same_key ''expiresAt'' ''displayName''"
  "\<not> same_key ''userId'' ''groups''" "\<not> same_key ''email'' ''groups''" "\<not> same_key ''displayName'' ''groups''"
  "\<not> same_key ''expiresAt'' ''groups''" "\<not> same_key ''userId'' ''expiresAt''" "\<not> same_key ''email'' ''expiresAt''"
  "\<not> same_key ''displayName'' ''expiresAt''" "\<not> same_key ''groups'' ''expiresAt''" "same_key k k"
  by (simp_all add: same_key_def lower_def)

lemma unmarshal_marshal_session:
  assumes "im_parse_time i (im_time i (sd_expires s)) = Some (sd_expires s)"
  shows "unmarshal_session i (marshal_session i s) = Some s"
  using assms
  by (simp add: unmarshal_session_def object_fields_def marshal_session_def session_keys)

text \<open>
  What is relied on of the cookie codec and of the text form of time stamps: what was encoded
  decodes to the same value.
\<close>

definition codec_ok :: "'t manager \<Rightarrow> bool" where
  "codec_ok m \<longleftrightarrow>
     (\<forall>n j c. im_encode (am_idp m) n j = Some c \<longrightarrow> im_decode (am_idp m) n c = Some j)
   \<and> (\<forall>t. im_parse_time (am_idp m) (im_time (am_idp m) t) = Some t)"

lemma decode_encode:
  "codec_ok m \<Longrightarrow> encodeSession m s = Some v \<Longrightarrow> decodeSession m v = Some s"
  by (simp add: codec_ok_def encodeSession_def decodeSession_def unmarshal_marshal_session)

section \<open>A sample identity provider for the witnesses\<close>

definition int_text :: "int \<Rightarrow> string" where
  "int_text t = (if t < 0 then CHR ''-'' # Itoa (nat (- t)) else Itoa (nat t))"

definition parse_int_text :: "string \<Rightarrow> int option" where
  "parse_int_text s = (case s of
     [] \<Rightarrow> None
   | c # r \<Rightarrow> if c = CHR ''-'' then Some (- int (parse_nat r)) else Some (int (parse_nat s)))"

lemma Itoa_hd: "Itoa n = c # r \<Longrightarrow> c \<noteq> CHR ''-''"
  using Itoa_no_special [of c n] by (auto simp: is_digit_def)

lemma parse_int_text_inverse [simp]: "parse_int_text (int_text t) = Some t"
proof (cases "t < 0")
  case True
  then show ?thesis by (simp add: int_text_def parse_int_text_def)
next
  case False
  obtain c r where "Itoa (nat t) = c # r" using Itoa_nonempty by (cases "Itoa (nat t)") auto
  with False Itoa_hd [OF this] parse_nat_Itoa [of "nat t"] show ?thesis
    by (simp add: int_text_def parse_int_text_def)
qed

definition sample_idp :: "json \<Rightarrow> string idp" where
  "sample_idp j = \<lparr>im_auth_url = (\<lambda>s. ''https://idp/?state='' @ s), im_exchange = (\<lambda>c. Some (Some c)),
     im_verify = Some,
     im_claims = (\<lambda>t. Some \<lparr>cl_email = ''c@d'', cl_name = ''C'', cl_groups = [''dev''], cl_subject = t\<rparr>),
     im_encode = (\<lambda>n x. if x = j then Some ''tok'' else None),
     im_decode = (\<lambda>n c. if c = ''tok'' then Some j else None),
     im_time = int_text, im_parse_time = parse_int_text, im_random = (\<lambda>k n. Some (replicate n (of_nat k)))\<rparr>"

definition login_world :: world where
  "login_world = snd (provisionUser sample_env ''s2'' ''c@d'' ''C'' [''dev''] init_world)"

definition login_session :: session_data where
  "login_session = \<lparr>sd_user = ''id-0'', sd_email = ''c@d'', sd_display = ''C'', sd_groups = [''dev''],
     sd_expires = e_clock sample_env (w_ticks login_world) + sessionMaxAge\<rparr>"

definition sample_manager :: "string manager" where
  "sample_manager = \<lparr>am_idp = sample_idp (marshal_session (sample_idp JNull) login_session), am_disabled = False\<rparr>"

lemma sample_marshal: "marshal_session (am_idp sample_manager) s = marshal_session (sample_idp JNull) s"
  by (simp add: marshal_session_def sample_manager_def sample_idp_def)

lemma sample_codec_ok: "codec_ok sample_manager"
  by (simp add: codec_ok_def sample_manager_def sample_idp_def)

lemma sample_encoded: "encodeSession sample_manager login_session = Some ''tok''"
  unfolding encodeSession_def sample_marshal by (simp add: sample_manager_def sample_idp_def)

lemma sample_decoded: "decodeSession sample_manager ''tok'' = Some login_session"
  by (rule decode_encode [OF sample_codec_ok sample_encoded])

definition callback_request :: request where
  "callback_request = \<lparr>rq_params = [], rq_query = [(''state'', ''st''), (''code'', ''s2'')],
     rq_cookies = [(stateCookieName, ''st'')], rq_body = None, rq_session = None\<rparr>"

definition session_request :: request where
  "session_request = \<lparr>rq_params = [], rq_query = [], rq_cookies = [(sessionCookieName, ''tok'')],
     rq_body = None, rq_session = None\<rparr>"

definition sample_claims :: claims where
  "sample_claims = \<lparr>cl_email = ''c@d'', cl_name = ''C'', cl_groups = [''dev''], cl_subject = ''s2''\<rparr>"

lemma sample_callback_session:
  "callback_session sample_manager sample_env sample_claims callback_request init_world
    = (SetCookie \<lparr>ck_name = sessionCookieName, ck_value = ''tok'', ck_max_age = sessionMaxAge div second\<rparr>
        (Redirect ''/''), login_world\<lparr>w_ticks := Suc (w_ticks login_world)\<rparr>)"
proof -
  let ?u = "\<lparr>u_id = ''id-0'', u_email = ''c@d'', u_display = ''C'', u_subject = ''s2'', u_created = 0\<rparr>"
  have "provisionUser sample_env (cl_subject sample_claims) (cl_email sample_claims) (cl_name sample_claims)
      (cl_groups sample_claims) init_world = (Inr ?u, login_world)"
    using sample_login by (simp only: sample_claims_def claims.simps login_world_def)
  moreover have "encodeSession sample_manager \<lparr>sd_user = u_id ?u, sd_email = u_email ?u, sd_display = u_display ?u,
      sd_groups = cl_groups sample_claims, sd_expires = e_clock sample_env (w_ticks login_world) + sessionMaxAge\<rparr> = Some ''tok''"
    using sample_encoded by (simp only: sample_claims_def claims.simps user.simps login_session_def)
  ultimately show ?thesis
    unfolding callback_session_def by (simp only: prod.case sum.case option.case now_def Let_def)
qed

lemma sample_code: "QueryGet ''code'' callback_request = ''s2''"
  by (simp add: QueryGet_def callback_request_def)

lemma sample_idp_facts:
  "im_exchange (am_idp sample_manager) c = Some (Some c)" "im_verify (am_idp sample_manager) c = Some c"
  "im_claims (am_idp sample_manager) ''s2'' = Some sample_claims"
  by (simp_all add: sample_manager_def sample_idp_def sample_claims_def)

lemma sample_callback:
  "\<exists>rs w'. HandleCallback sample_manager sample_env callback_request init_world = (rs, w')
    \<and> \<lparr>ck_name = sessionCookieName, ck_value = ''tok'', ck_max_age = sessionMaxAge div second\<rparr> \<in> set (rs_cookies rs)"
proof -
  have "callback_token sample_manager sample_env callback_request init_world
    = (SetCookie \<lparr>ck_name = sessionCookieName, ck_value = ''tok'', ck_max_age = sessionMaxAge div second\<rparr>
        (Redirect ''/''), login_world\<lparr>w_ticks := Suc (w_ticks login_world)\<rparr>)"
    using sample_callback_session unfolding callback_token_def
    by (simp add: sample_code sample_idp_facts)
  then show ?thesis
    by (simp add: HandleCallback_def Cookie_def QueryGet_def callback_request_def sample_manager_def SetCookie_def)
qed

section \<open>The middleware\<close>

lemma Middleware_outcome:
  assumes "Middleware m e rq w = (Inr rq', w')" and "\<not> am_disabled m"
  obtains v s where "Cookie sessionCookieName rq = Some v" and "decodeSession m v = Some s"
    and "e_clock e (w_ticks w) \<le> sd_expires s" and "rq' = rq\<lparr>rq_session := Some s\<rparr>"
proof (cases "Cookie sessionCookieName rq")
  case None
  with assms show thesis by (simp add: Middleware_def)
next
  case (Some v)
  show thesis
  proof (cases "decodeSession m v")
    case None
    with assms Some show thesis by (simp add: Middleware_def)
  next
    case dec: (Some s)
    with assms Some have "e_clock e (w_ticks w) \<le> sd_expires s \<and> rq' = rq\<lparr>rq_session := Some s\<rparr>"
      by (simp add: Middleware_def now_def split: if_splits)
    with Some dec show thesis using that by blast
  qed
qed

interpretation session: guarding "Middleware m e"
proof
  fix rq w r w'
  assume "Middleware m e rq w = (r, w')"
  then show "w_db w' = w_db w"
    by (auto simp: Middleware_def now_def split: if_splits option.splits)
next
  fix rq w rs w'
  assume "Middleware m e rq w = (Inl rs, w')"
  then show "rs_status rs \<in> {StatusUnauthorized, StatusForbidden}"
    by (auto simp: Middleware_def now_def writeJSON_def split: if_splits option.splits)
qed

text \<open>
  behind the session middleware the tables change only for a request whose cookie decodes to a
  session that has not expired, and then by the handler run with that session in the
  context; every other request is answered 401 with the tables as they were.
\<close>

theorem unauthenticated_changes_nothing:
  assumes "\<not> am_disabled m" and "w_db (snd (guarded (Middleware m e) nxt rq w)) \<noteq> w_db w"
  shows "\<exists>v s w1. Cookie sessionCookieName rq = Some v \<and> decodeSession m v = Some s
      \<and> e_clock e (w_ticks w) \<le> sd_expires s \<and> w_db w1 = w_db w
      \<and> guarded (Middleware m e) nxt rq w = nxt (rq\<lparr>rq_session := Some s\<rparr>) w1"
proof -
  obtain rq' w1 where "Middleware m e rq w = (Inr rq', w1)" and run: "guarded (Middleware m e) nxt rq w = nxt rq' w1"
    and db: "w_db w1 = w_db w"
    using session.change_passed [OF assms(2)] .
  from this(1) assms(1) obtain v s where "Cookie sessionCookieName rq = Some v" "decodeSession m v = Some s"
    "e_clock e (w_ticks w) \<le> sd_expires s" "rq' = rq\<lparr>rq_session := Some s\<rparr>"
    by (rule Middleware_outcome)
  with run db show ?thesis by blast
qed

definition create_handler :: handler where
  "create_handler rq w = (writeJSON StatusCreated JNull, snd (CreateProject sample_env sample_project w))"

theorem unauthenticated_changes_nothing_witness:
  "\<exists>s. decodeSession sample_manager ''tok'' = Some s
     \<and> w_db (snd (guarded (Middleware sample_manager sample_env) create_handler session_request init_world))
       \<noteq> w_db init_world"
proof -
  have "fst (Middleware sample_manager sample_env session_request init_world)
      = Inr (session_request\<lparr>rq_session := Some login_session\<rparr>)"
    using sample_decoded
    by (simp add: Middleware_def Cookie_def session_request_def now_def sample_manager_def sample_env_def
        login_session_def sessionMaxAge_def hour_def minute_def second_def init_world_def)
  moreover have "w_db (snd (Middleware sample_manager sample_env session_request init_world)) = empty_tables"
    using session.keeps_tables [of sample_manager sample_env session_request init_world]
    by (simp add: init_world_def prod_eq_iff)
  moreover have "w_db w1 = empty_tables \<Longrightarrow> w_db (snd (create_handler rq w1)) \<noteq> empty_tables" for rq w1
    by (simp add: create_handler_def CreateProject_def run_defs stmt_insert_project_def project_ids_def)
  ultimately have c: "w_db (snd (guarded (Middleware sample_manager sample_env) create_handler session_request init_world))
       \<noteq> w_db init_world"
    by (simp add: guarded_def case_prod_beta init_world_def)
  have "\<not> am_disabled sample_manager" by (simp add: sample_manager_def)
  from unauthenticated_changes_nothing [OF this c] c sample_decoded show ?thesis by blast
qed

section \<open>From the callback to the session\<close>

lemma callback_session_cookie:
  assumes "callback_session m e c rq w = (rs, w')" and "ck \<in> set (rs_cookies rs)"
  obtains u w1 where "provisionUser e (cl_subject c) (cl_email c) (cl_name c) (cl_groups c) w = (Inr u, w1)"
    and "w_db w' = w_db w1" and "ck_name ck = sessionCookieName"
    and "encodeSession m \<lparr>sd_user = u_id u, sd_email = u_email u, sd_display = u_display u,
           sd_groups = cl_groups c, sd_expires = e_clock e (w_ticks w1) + sessionMaxAge\<rparr> = Some (ck_value ck)"
proof -
  obtain r w1 where pu: "provisionUser e (cl_subject c) (cl_email c) (cl_name c) (cl_groups c) w = (r, w1)"
    by fastforce
  show thesis
  proof (cases r)
    case (Inl err)
    with assms pu show thesis by (auto simp: callback_session_def writeJSON_def)
  next
    case (Inr u)
    let ?s = "\<lparr>sd_user = u_id u, sd_email = u_email u, sd_display = u_display u,
           sd_groups = cl_groups c, sd_expires = e_clock e (w_ticks w1) + sessionMaxAge\<rparr>"
    show thesis
    proof (cases "encodeSession m ?s")
      case None
      with assms pu Inr show thesis by (auto simp: callback_session_def now_def writeJSON_def)
    next
      case (Some v)
      with assms(1) pu Inr have "rs = SetCookie \<lparr>ck_name = sessionCookieName, ck_value = v,
             ck_max_age = sessionMaxAge div second\<rparr> (Redirect ''/'') \<and> w_db w' = w_db w1"
        by (auto simp: callback_session_def now_def)
      with assms(2) that [of u w1] pu Inr Some show thesis
        by (simp add: SetCookie_def Redirect_def)
    qed
  qed
qed

lemma callback_token_cookie:
  assumes "callback_token m e rq w = (rs, w')" and "ck \<in> set (rs_cookies rs)"
  obtains raw tok c where "im_exchange (am_idp m) (QueryGet ''code'' rq) = Some (Some raw)"
    and "im_verify (am_idp m) raw = Some tok" and "im_claims (am_idp m) tok = Some c"
    and "callback_session m e c rq w = (rs, w')"
  using assms
  by (auto simp: callback_token_def writeJSON_def Let_def split: if_splits option.splits)

lemma HandleCallback_cookie:
  assumes "HandleCallback m e rq w = (rs, w')" and "ck \<in> set (rs_cookies rs)" and "ck_name ck = sessionCookieName"
  obtains v rs1 where "\<not> am_disabled m" and "Cookie stateCookieName rq = Some v" and "v \<noteq> ''''"
    and "QueryGet ''state'' rq = v" and "callback_token m e rq w = (rs1, w')" and "ck \<in> set (rs_cookies rs1)"
proof (cases "Cookie stateCookieName rq")
  case None
  with assms show thesis
    by (auto simp: HandleCallback_def Redirect_def writeJSON_def split: if_splits)
next
  case (Some v)
  obtain rs1 w1 where t: "callback_token m e rq w = (rs1, w1)" by fastforce
  from assms Some t have "\<not> am_disabled m \<and> v \<noteq> '''' \<and> QueryGet ''state'' rq = v \<and> w1 = w'
      \<and> rs = SetCookie (clear_cookie stateCookieName) rs1"
    by (auto simp: HandleCallback_def Redirect_def writeJSON_def split: if_splits)
  moreover from this assms(2,3) have "ck \<in> set (rs_cookies rs1)"
    by (auto simp: SetCookie_def clear_cookie_def sessionCookieName_def stateCookieName_def)
  ultimately show thesis using that Some t by blast
qed

text \<open>
  C20: a callback that sets a session cookie has seen the state it handed out and a verified identity
  token; the cookie decodes to a session of the user provisioned from the token's claims, and
  for 24 hours from then, and no longer, a request with the cookie passes the middleware as that user.
\<close>

theorem callback_then_authenticated:
  assumes "codec_ok m" and "HandleCallback m e rq w = (rs, w')"
    and "ck \<in> set (rs_cookies rs)" and "ck_name ck = sessionCookieName"
    and "Cookie sessionCookieName rq2 = Some (ck_value ck)"
  shows "\<exists>raw tok c u s w1. Cookie stateCookieName rq = Some (QueryGet ''state'' rq) \<and> QueryGet ''state'' rq \<noteq> ''''
    \<and> im_exchange (am_idp m) (QueryGet ''code'' rq) = Some (Some raw) \<and> im_verify (am_idp m) raw = Some tok
    \<and> im_claims (am_idp m) tok = Some c
    \<and> provisionUser e (cl_subject c) (cl_email c) (cl_name c) (cl_groups c) w = (Inr u, w1)
    \<and> sd_user s = u_id u \<and> sd_groups s = cl_groups c \<and> w_db w' = w_db w1
    \<and> fst (Middleware m e2 rq2 w2) =
        (if e_clock e2 (w_ticks w2) > e_clock e (w_ticks w1) + sessionMaxAge
         then Inl (writeJSON StatusUnauthorized (error_body ''session expired''))
         else Inr (rq2\<lparr>rq_session := Some s\<rparr>))"
proof -
  obtain v rs1 where cb: "\<not> am_disabled m" "Cookie stateCookieName rq = Some v" "v \<noteq> ''''"
    "QueryGet ''state'' rq = v" and tk: "callback_token m e rq w = (rs1, w')" and ck1: "ck \<in> set (rs_cookies rs1)"
    using HandleCallback_cookie [OF assms(2-4)] .
  obtain raw tok c where tok: "im_exchange (am_idp m) (QueryGet ''code'' rq) = Some (Some raw)"
    "im_verify (am_idp m) raw = Some tok" "im_claims (am_idp m) tok = Some c"
    and cs: "callback_session m e c rq w = (rs1, w')"
    using callback_token_cookie [OF tk ck1] .
  obtain u w1 where pu: "provisionUser e (cl_subject c) (cl_email c) (cl_name c) (cl_groups c) w = (Inr u, w1)"
    and db: "w_db w' = w_db w1"
    and enc: "encodeSession m \<lparr>sd_user = u_id u, sd_email = u_email u, sd_display = u_display u,
           sd_groups = cl_groups c, sd_expires = e_clock e (w_ticks w1) + sessionMaxAge\<rparr> = Some (ck_value ck)"
    using callback_session_cookie [OF cs ck1] by blast
  note dec = decode_encode [OF assms(1) enc]
  show ?thesis
    by (rule exI [where x = raw], rule exI [where x = tok], rule exI [where x = c], rule exI [where x = u],
        rule exI [where x = "\<lparr>sd_user = u_id u, sd_email = u_email u, sd_display = u_display u,
           sd_groups = cl_groups c, sd_expires = e_clock e (w_ticks w1) + sessionMaxAge\<rparr>"],
        rule exI [where x = w1])
      (use cb tok pu db dec assms(5) in \<open>simp add: Middleware_def now_def\<close>)
qed

theorem callback_then_authenticated_witness:
  "\<exists>s. fst (Middleware sample_manager sample_env session_request init_world)
      = Inr (session_request\<lparr>rq_session := Some s\<rparr>) \<and> sd_user s = ''id-0''"
proof -
  obtain rs w' where cb: "HandleCallback sample_manager sample_env callback_request init_world = (rs, w')"
    and ck: "\<lparr>ck_name = sessionCookieName, ck_value = ''tok'', ck_max_age = sessionMaxAge div second\<rparr> \<in> set (rs_cookies rs)"
    using sample_callback by blast
  have rq: "Cookie sessionCookieName session_request
      = Some (ck_value \<lparr>ck_name = sessionCookieName, ck_value = ''tok'', ck_max_age = sessionMaxAge div second\<rparr>)"
    by (simp add: Cookie_def session_request_def)
  have nm: "ck_name \<lparr>ck_name = sessionCookieName, ck_value = ''tok'', ck_max_age = sessionMaxAge div second\<rparr>
      = sessionCookieName" by simp
  obtain raw tok c u s w1 where r: "im_exchange (am_idp sample_manager) (QueryGet ''code'' callback_request) = Some (Some raw)"
    "im_verify (am_idp sample_manager) raw = Some tok" "im_claims (am_idp sample_manager) tok = Some c"
    and p: "provisionUser sample_env (cl_subject c) (cl_email c) (cl_name c) (cl_groups c) init_world = (Inr u, w1)"
    and s: "sd_user s = u_id u"
    and m: "fst (Middleware sample_manager sample_env session_request init_world) =
        (if e_clock sample_env (w_ticks init_world) > e_clock sample_env (w_ticks w1) + sessionMaxAge
         then Inl (writeJSON StatusUnauthorized (error_body ''session expired''))
         else Inr (session_request\<lparr>rq_session := Some s\<rparr>))"
    using callback_then_authenticated
      [OF sample_codec_ok cb ck nm rq, where ?e2.0 = sample_env and ?w2.0 = init_world]
    by (elim exE conjE) (rule that; assumption)
  from r have "c = sample_claims"
    by (auto simp: sample_idp_facts sample_code)
  with p s sample_login have "sd_user s = ''id-0''" by (simp add: sample_claims_def)
  moreover have "\<not> e_clock sample_env (w_ticks init_world) > e_clock sample_env (w_ticks w1) + sessionMaxAge"
    by (simp add: sample_env_def init_world_def sessionMaxAge_def hour_def minute_def second_def)
  ultimately show ?thesis using m by auto
qed

end
