(* ===== verification/Rbac.thy ===== *)
theory Rbac
  imports Auth_Laws
begin

text \<open>
  Role checks of \<open>internal/auth/rbac.go\<close>: the level of a role, the platform-administrator check,
  the check of a session against a project, and the two middlewares. The checks read the store through the
  three operations of \<open>role_api\<close>; the locale \<open>role_store\<close> says what they rely on, and is
  interpreted on \<open>SQLStore\<close>'s operations.
\<close>

section \<open>The checks\<close>

record 'w role_api =
  ra_user_role :: "string \<Rightarrow> string \<Rightarrow> 'w \<Rightarrow> (store_error + project_role option) \<times> 'w"
  ra_group :: "string \<Rightarrow> 'w \<Rightarrow> (store_error + group option) \<times> 'w"
  ra_roles :: "string \<Rightarrow> 'w \<Rightarrow> (store_error + project_role list) \<times> 'w"

record 'w rbac =
  rb_store :: "'w role_api"
  rb_disabled :: bool

definition NewRBAC :: "'w role_api \<Rightarrow> bool \<Rightarrow> 'w rbac" where
  "NewRBAC st disabled = \<lparr>rb_store = st, rb_disabled = disabled\<rparr>"

definition roleLevel :: "role \<Rightarrow> int" where
  "roleLevel r =
     (if r = RolePlatformAdmin then 100
      else if r = RoleAdmin then 30
      else if r = RoleEditor then 20
      else if r = RoleViewer then 10
      else 0)"

definition isPlatformAdmin :: "'w rbac \<Rightarrow> session_data \<Rightarrow> 'w \<Rightarrow> bool \<times> 'w" where
  "isPlatformAdmin rb session w =
     (case ra_roles (rb_store rb) ''_global'' w of
        (Inl err, w) \<Rightarrow> (False, w)
      | (Inr roles, w) \<Rightarrow>
          (list_ex (\<lambda>r. pr_role r = RolePlatformAdmin \<and> pr_subject_type r = SubjectUser
                         \<and> pr_subject r = sd_user session) roles, w))"

text \<open>The loop over the groups of the session.\<close>

fun group_grants :: "'w rbac \<Rightarrow> string list \<Rightarrow> string \<Rightarrow> role \<Rightarrow> 'w \<Rightarrow> bool \<times> 'w" where
  "group_grants rb [] projectID minRole w = (False, w)"
| "group_grants rb (claim # claims) projectID minRole w =
     (case ra_group (rb_store rb) claim w of
        (Inl err, w) \<Rightarrow> group_grants rb claims projectID minRole w
      | (Inr None, w) \<Rightarrow> group_grants rb claims projectID minRole w
      | (Inr (Some g), w) \<Rightarrow>
          (case ra_roles (rb_store rb) projectID w of
             (Inl err, w) \<Rightarrow> group_grants rb claims projectID minRole w
           | (Inr roles, w) \<Rightarrow>
               if list_ex (\<lambda>r. pr_subject_type r = SubjectGroup \<and> pr_subject r = g_id g
                              \<and> roleLevel (pr_role r) \<ge> roleLevel minRole) roles
               then (True, w)
               else group_grants rb claims projectID minRole w))"

definition hasSufficientRole ::
  "'w rbac \<Rightarrow> session_data \<Rightarrow> string \<Rightarrow> role \<Rightarrow> 'w \<Rightarrow> bool \<times> 'w" where
  "hasSufficientRole rb session projectID minRole w =
     (case isPlatformAdmin rb session w of
        (True, w) \<Rightarrow> (True, w)
      | (False, w) \<Rightarrow>
          (case ra_user_role (rb_store rb) projectID (sd_user session) w of
             (Inl err, w) \<Rightarrow> group_grants rb (sd_groups session) projectID minRole w
           | (Inr None, w) \<Rightarrow> group_grants rb (sd_groups session) projectID minRole w
           | (Inr (Some pr), w) \<Rightarrow> (roleLevel (pr_role pr) \<ge> roleLevel minRole, w)))"

definition RequireProjectRole :: "world rbac \<Rightarrow> role \<Rightarrow> guard" where
  "RequireProjectRole rb minRole rq w =
     (if rb_disabled rb then (Inr rq, w)
      else case UserFromContext rq of
        None \<Rightarrow> (Inl (writeJSON StatusUnauthorized (error_body ''authentication required'')), w)
      | Some session \<Rightarrow>
          let projectID = URLParam ''projectID'' rq in
          if projectID = '''' then (Inr rq, w)
          else
            let (ok, w) = hasSufficientRole rb session projectID minRole w in
            if ok then (Inr rq, w)
            else (Inl (writeJSON StatusForbidden (error_body ''insufficient permissions'')), w))"

definition RequirePlatformAdmin :: "world rbac \<Rightarrow> guard" where
  "RequirePlatformAdmin rb rq w =
     (if rb_disabled rb then (Inr rq, w)
      else case UserFromContext rq of
        None \<Rightarrow> (Inl (writeJSON StatusUnauthorized (error_body ''authentication required'')), w)
      | Some session \<Rightarrow>
          let (ok, w) = isPlatformAdmin rb session w in
          if ok then (Inr rq, w)
          else (Inl (writeJSON StatusForbidden (error_body ''platform admin required'')), w))"

text \<open>The store the server passes.\<close>

definition sql_role_api :: "env \<Rightarrow> world role_api" where
  "sql_role_api e = \<lparr>ra_user_role = GetUserProjectRole e, ra_group = GetGroupByOIDCClaim e,
     ra_roles = ListProjectRoles e\<rparr>"

section \<open>What the tables grant\<close>

definition admin_grant :: "tables \<Rightarrow> session_data \<Rightarrow> bool" where
  "admin_grant d s \<longleftrightarrow> (\<exists>r \<in> set (t_roles d). pr_project r = ''_global'' \<and> pr_role r = RolePlatformAdmin
      \<and> pr_subject_type r = SubjectUser \<and> pr_subject r = sd_user s)"

definition direct_role :: "tables \<Rightarrow> session_data \<Rightarrow> string \<Rightarrow> project_role option" where
  "direct_role d s p = find_row role_key (p, ''user'', sd_user s) (t_roles d)"

definition claim_grant :: "tables \<Rightarrow> string \<Rightarrow> string \<Rightarrow> role \<Rightarrow> bool" where
  "claim_grant d c p m \<longleftrightarrow> (case find_row gr_claim (Some c) (t_groups d) of
      None \<Rightarrow> False
    | Some g \<Rightarrow> \<exists>r \<in> set (t_roles d). pr_project r = p \<and> pr_subject_type r = SubjectGroup
          \<and> pr_subject r = gr_id g \<and> roleLevel (pr_role r) \<ge> roleLevel m)"

definition group_grant :: "tables \<Rightarrow> session_data \<Rightarrow> string \<Rightarrow> role \<Rightarrow> bool" where
  "group_grant d s p m \<longleftrightarrow> (\<exists>c \<in> set (sd_groups s). claim_grant d c p m)"

definition permitted :: "tables \<Rightarrow> session_data \<Rightarrow> string \<Rightarrow> role \<Rightarrow> bool" where
  "permitted d s p m \<longleftrightarrow> admin_grant d s \<or>
     (case direct_role d s p of
        Some r \<Rightarrow> roleLevel (pr_role r) \<ge> roleLevel m
      | None \<Rightarrow> group_grant d s p m)"

section \<open>The interface to the store\<close>

locale role_store =
  fixes api :: "'w role_api" and view :: "'w \<Rightarrow> tables"
  assumes user_role: "ra_user_role api p u w = (r, w') \<Longrightarrow> view w' = view w
      \<and> (\<forall>x. r = Inr x \<longrightarrow> x = find_row role_key (p, ''user'', u) (t_roles (view w)))"
    and group_of: "ra_group api c w = (g, w') \<Longrightarrow> view w' = view w
      \<and> (\<forall>x. g = Inr x \<longrightarrow> x = map_option scan_group (find_row gr_claim (Some c) (t_groups (view w))))"
    and roles_of: "ra_roles api p w = (rs, w') \<Longrightarrow> view w' = view w
      \<and> (\<forall>x. rs = Inr x \<longrightarrow> x = filter (\<lambda>r. pr_project r = p) (t_roles (view w)))"
begin

lemma admin_check:
  assumes "isPlatformAdmin (NewRBAC api dis) s w = (b, w')"
  shows "view w' = view w" and "b \<Longrightarrow> admin_grant (view w) s"
  using assms roles_of [of "''_global''" w]
  by (auto simp: isPlatformAdmin_def NewRBAC_def admin_grant_def list_ex_iff split: prod.splits sum.splits)

lemma groups_step:
  assumes "group_grants (NewRBAC api dis) (c # cs) p m w = (b, w')"
  obtains (granted) "b" "view w' = view w" "claim_grant (view w) c p m"
  | (next_claim) w1 where "group_grants (NewRBAC api dis) cs p m w1 = (b, w')" "view w1 = view w"
proof -
  obtain g w1 where g: "ra_group api c w = (g, w1)" by fastforce
  note gv = group_of [OF g]
  obtain rs w2 where rs: "ra_roles api p w1 = (rs, w2)" by fastforce
  note rv = roles_of [OF rs]
  have scan: "g_id (scan_group row) = gr_id row" for row by (simp add: scan_group_def)
  show thesis
  proof (cases "\<exists>x l. g = Inr (Some x) \<and> rs = Inr l \<and> list_ex (\<lambda>r. pr_subject_type r = SubjectGroup
      \<and> pr_subject r = g_id x \<and> roleLevel (pr_role r) \<ge> roleLevel m) l")
    case True
    then obtain x l where x: "g = Inr (Some x)" "rs = Inr l" and ex: "list_ex (\<lambda>r. pr_subject_type r = SubjectGroup
      \<and> pr_subject r = g_id x \<and> roleLevel (pr_role r) \<ge> roleLevel m) l" by blast
    have "map_option scan_group (find_row gr_claim (Some c) (t_groups (view w))) = Some x"
      using gv x(1) by simp
    then obtain row where row: "find_row gr_claim (Some c) (t_groups (view w)) = Some row" "x = scan_group row"
      by blast
    have "l = filter (\<lambda>r. pr_project r = p) (t_roles (view w))" using rv gv x(2) by simp
    with ex row have "claim_grant (view w) c p m"
      by (auto simp: claim_grant_def list_ex_iff scan)
    moreover have "b \<and> w' = w2" using assms g rs x ex by (simp add: NewRBAC_def)
    ultimately show thesis using granted gv rv by simp
  next
    case False
    have "\<exists>w1'. group_grants (NewRBAC api dis) cs p m w1' = (b, w') \<and> (w1' = w1 \<or> w1' = w2)"
      using assms g rs False by (cases g; cases "projr g"; cases rs) (auto simp: NewRBAC_def split: if_splits)
    with gv rv next_claim show thesis by auto
  qed
qed

lemma groups_sound:
  assumes "group_grants (NewRBAC api dis) cs p m w = (b, w')"
  shows "view w' = view w \<and> (b \<longrightarrow> (\<exists>c \<in> set cs. claim_grant (view w) c p m))"
  using assms
proof (induction cs arbitrary: w)
  case (Cons c cs)
  from Cons.prems show ?case
  proof (cases rule: groups_step)
    case granted
    then show ?thesis by simp
  next
    case (next_claim w1)
    from Cons.IH [OF this(1)] this(2) show ?thesis by simp
  qed
qed simp

text \<open>A granted request has a reason in the tables, even when reads fail.\<close>

lemma check_sound:
  assumes "hasSufficientRole (NewRBAC api dis) s p m w = (b, w')"
  shows "view w' = view w \<and> (b \<longrightarrow> admin_grant (view w) s \<or> group_grant (view w) s p m
      \<or> (\<exists>r. direct_role (view w) s p = Some r \<and> roleLevel (pr_role r) \<ge> roleLevel m))"
proof -
  obtain a w1 where a: "isPlatformAdmin (NewRBAC api dis) s w = (a, w1)" by fastforce
  note adm = admin_check [OF a]
  obtain r w2 where r: "ra_user_role api p (sd_user s) w1 = (r, w2)" by fastforce
  note usr = user_role [OF r]
  have groups: ?thesis if "group_grants (NewRBAC api dis) (sd_groups s) p m w2 = (b, w')"
    using groups_sound [OF that] usr adm(1) by (simp add: group_grant_def)
  have st: "rb_store (NewRBAC api dis) = api" by (simp add: NewRBAC_def)
  show ?thesis
  proof (cases a)
    case True
    with assms a adm show ?thesis by (auto simp: hasSufficientRole_def)
  next
    case False
    show ?thesis
    proof (cases r)
      case (Inl err)
      with assms a r False st groups show ?thesis by (simp add: hasSufficientRole_def)
    next
      case (Inr x)
      show ?thesis
      proof (cases x)
        case None
        with assms a r False st Inr groups show ?thesis by (simp add: hasSufficientRole_def)
      next
        case (Some pr)
        with assms a r False st Inr have "b = (roleLevel (pr_role pr) \<ge> roleLevel m) \<and> w' = w2"
          by (auto simp: hasSufficientRole_def)
        moreover have "direct_role (view w) s p = Some pr"
          using usr adm(1) Inr Some by (simp add: direct_role_def)
        ultimately show ?thesis using usr adm(1) by auto
      qed
    qed
  qed
qed

end

text \<open>When no read fails, the check decides exactly what the tables grant.\<close>

locale reliable_role_store = role_store +
  assumes never_fails: "\<not> isl (fst (ra_user_role api p u w))" "\<not> isl (fst (ra_group api c w))"
    "\<not> isl (fst (ra_roles api p w))"
begin

lemma admin_exact: "fst (isPlatformAdmin (NewRBAC api dis) s w) = admin_grant (view w) s"
proof -
  obtain rs w1 where rs: "ra_roles api ''_global'' w = (rs, w1)" by fastforce
  then obtain l where "rs = Inr l" using never_fails(3) [of "''_global''" w] by (cases rs) simp_all
  with rs roles_of [OF rs] show ?thesis
    by (auto simp: isPlatformAdmin_def NewRBAC_def admin_grant_def list_ex_iff)
qed

lemma groups_exact:
  "fst (group_grants (NewRBAC api dis) cs p m w) = (\<exists>c \<in> set cs. claim_grant (view w) c p m)"
proof (induction cs arbitrary: w)
  case (Cons c cs)
  obtain g w1 where g: "ra_group api c w = (g, w1)" by fastforce
  note gv = group_of [OF g]
  obtain x where x: "g = Inr x" using never_fails(2) [of c w] g by (cases g) simp_all
  obtain rs w2 where rs: "ra_roles api p w1 = (rs, w2)" by fastforce
  note rv = roles_of [OF rs]
  obtain l where l: "rs = Inr l" using never_fails(3) [of p w1] rs by (cases rs) simp_all
  have st: "rb_store (NewRBAC api dis) = api" by (simp add: NewRBAC_def)
  show ?case
  proof (cases x)
    case None
    with gv x have "\<not> claim_grant (view w) c p m" by (simp add: claim_grant_def)
    with None g x gv st Cons.IH [of w1] show ?thesis by simp
  next
    case (Some y)
    with gv x have "map_option scan_group (find_row gr_claim (Some c) (t_groups (view w))) = Some y" by simp
    then obtain row where row: "find_row gr_claim (Some c) (t_groups (view w)) = Some row" "y = scan_group row"
      by blast
    have "claim_grant (view w) c p m \<longleftrightarrow> list_ex (\<lambda>r. pr_subject_type r = SubjectGroup \<and> pr_subject r = g_id y
        \<and> roleLevel (pr_role r) \<ge> roleLevel m) l"
      using row rv gv l by (auto simp: claim_grant_def list_ex_iff scan_group_def)
    moreover have "view w2 = view w" using gv rv by simp
    ultimately show ?thesis using Some g x rs l st Cons.IH [of w2] by simp
  qed
qed simp

lemma check_exact: "fst (hasSufficientRole (NewRBAC api dis) s p m w) = permitted (view w) s p m"
proof -
  obtain a w1 where a: "isPlatformAdmin (NewRBAC api dis) s w = (a, w1)" by fastforce
  have av: "a = admin_grant (view w) s" "view w1 = view w"
    using admin_exact [of dis s w] admin_check(1) [OF a] a by simp_all
  obtain r w2 where r: "ra_user_role api p (sd_user s) w1 = (r, w2)" by fastforce
  note rv = user_role [OF r]
  obtain x where x: "r = Inr x" using never_fails(1) [of p "sd_user s" w1] r by (cases r) simp_all
  have st: "rb_store (NewRBAC api dis) = api" by (simp add: NewRBAC_def)
  have d: "direct_role (view w) s p = x" and v2: "view w2 = view w"
    using rv av x by (simp_all add: direct_role_def)
  show ?thesis
    using a av(1) r v2 x d st groups_exact [of dis "sd_groups s" p m w2]
    by (cases a; cases x) (simp_all add: hasSufficientRole_def permitted_def group_grant_def)
qed

end

end
