(* ===== verification/Rbac_Laws.thy ===== *)
theory Rbac_Laws
  imports Rbac
begin

text \<open>
  The role checks on the SQL store: what a passed check means, that the check is exact when no read
  fails, the hierarchy of roles, and that no state the store can reach has a platform administrator.
\<close>

section \<open>The SQL store behind the checks\<close>

lemma group_read:
  "GetGroupByOIDCClaim e c w = (g, w') \<Longrightarrow> w_db w' = w_db w
     \<and> (\<forall>x. g = Inr x \<longrightarrow> x = map_option scan_group (find_row gr_claim (Some c) (t_groups (w_db w))))"
  unfolding GetGroupByOIDCClaim_def by (cases g) (auto dest: query_rows_Inr query_rows_Inl)

lemma role_read:
  "GetUserProjectRole e p u w = (r, w') \<Longrightarrow> w_db w' = w_db w
     \<and> (\<forall>x. r = Inr x \<longrightarrow> x = find_row role_key (p, ''user'', u) (t_roles (w_db w)))"
  unfolding GetUserProjectRole_def by (cases r) (auto dest: query_rows_Inr query_rows_Inl)

lemma roles_read:
  "ListProjectRoles e p w = (rs, w') \<Longrightarrow> w_db w' = w_db w
     \<and> (\<forall>x. rs = Inr x \<longrightarrow> x = filter (\<lambda>r. pr_project r = p) (t_roles (w_db w)))"
  unfolding ListProjectRoles_def by (cases rs) (auto dest: query_rows_Inr query_rows_Inl)

lemmas sql_reads = role_read group_read roles_read

interpretation sql_roles: role_store "sql_role_api e" w_db
  by unfold_locales (simp_all add: sql_role_api_def sql_reads)

definition faultless :: "env \<Rightarrow> env" where
  "faultless e = e\<lparr>e_fault := (\<lambda>_. False)\<rparr>"

interpretation sql_reliable: reliable_role_store "sql_role_api (faultless e)" w_db
  by unfold_locales
    (simp_all add: sql_role_api_def faultless_def query_rows_fst
      GetUserProjectRole_def GetGroupByOIDCClaim_def ListProjectRoles_def)

section \<open>The middlewares as guards\<close>

interpretation project_guard: guarding "RequireProjectRole (NewRBAC (sql_role_api e) dis) m"
proof
  fix rq w r w'
  assume g: "RequireProjectRole (NewRBAC (sql_role_api e) dis) m rq w = (r, w')"
  have "w_db (snd (hasSufficientRole (NewRBAC (sql_role_api e) dis) s p m w)) = w_db w" for s p
    using sql_roles.check_sound [of e dis s p m w]
    by (cases "hasSufficientRole (NewRBAC (sql_role_api e) dis) s p m w") simp
  with g show "w_db w' = w_db w"
    by (auto simp: RequireProjectRole_def Let_def case_prod_beta split: if_splits option.splits)
next
  fix rq w rs w'
  assume "RequireProjectRole (NewRBAC (sql_role_api e) dis) m rq w = (Inl rs, w')"
  then show "rs_status rs \<in> {StatusUnauthorized, StatusForbidden}"
    by (auto simp: RequireProjectRole_def writeJSON_def Let_def case_prod_beta split: if_splits option.splits)
qed

interpretation admin_guard: guarding "RequirePlatformAdmin (NewRBAC (sql_role_api e) dis)"
proof
  fix rq w r w'
  assume g: "RequirePlatformAdmin (NewRBAC (sql_role_api e) dis) rq w = (r, w')"
  have "w_db (snd (isPlatformAdmin (NewRBAC (sql_role_api e) dis) s w)) = w_db w" for s
    using sql_roles.admin_check(1) [of e dis s w]
    by (cases "isPlatformAdmin (NewRBAC (sql_role_api e) dis) s w") simp
  with g show "w_db w' = w_db w"
    by (auto simp: RequirePlatformAdmin_def Let_def case_prod_beta split: if_splits option.splits)
next
  fix rq w rs w'
  assume "RequirePlatformAdmin (NewRBAC (sql_role_api e) dis) rq w = (Inl rs, w')"
  then show "rs_status rs \<in> {StatusUnauthorized, StatusForbidden}"
    by (auto simp: RequirePlatformAdmin_def writeJSON_def Let_def case_prod_beta split: if_splits option.splits)
qed

lemma RequireProjectRole_passed:
  assumes "RequireProjectRole rb m rq w = (Inr rq', w1)" and "\<not> rb_disabled rb"
  obtains s where "UserFromContext rq = Some s" and "rq' = rq"
    and "URLParam ''projectID'' rq = '''' \<or> hasSufficientRole rb s (URLParam ''projectID'' rq) m w = (True, w1)"
proof (cases "UserFromContext rq")
  case None
  with assms show thesis by (simp add: RequireProjectRole_def)
next
  case (Some s)
  show thesis
  proof (cases "URLParam ''projectID'' rq = ''''")
    case True
    with assms Some have "rq' = rq" by (simp add: RequireProjectRole_def)
    with Some True show thesis by (intro that) simp_all
  next
    case False
    obtain ok w2 where h: "hasSufficientRole rb s (URLParam ''projectID'' rq) m w = (ok, w2)" by fastforce
    with assms Some False have "ok \<and> w2 = w1 \<and> rq' = rq"
      by (simp add: RequireProjectRole_def split: if_splits)
    with Some h that show thesis by simp
  qed
qed

text \<open>
  C6: if a handler behind the project-role middleware changes the tables, then role checks are disabled, or there
  is a session and either the path names no project (such a request the middleware lets through unchecked) or the
  tables grant that session at least the required role: its user is a platform administrator, or has such a
  role on the project, or one of its groups has. This holds also when reads of the store fail in between.
\<close>

theorem project_change_needs_role:
  assumes "w_db (snd (guarded (RequireProjectRole (NewRBAC (sql_role_api e) dis) m) nxt rq w)) \<noteq> w_db w"
  shows "dis \<or> (\<exists>s. UserFromContext rq = Some s \<and> (URLParam ''projectID'' rq = '''' \<or> admin_grant (w_db w) s
      \<or> group_grant (w_db w) s (URLParam ''projectID'' rq) m
      \<or> (\<exists>r. direct_role (w_db w) s (URLParam ''projectID'' rq) = Some r \<and> roleLevel (pr_role r) \<ge> roleLevel m)))"
proof (cases dis)
  case False
  obtain rq' w1 where p: "RequireProjectRole (NewRBAC (sql_role_api e) dis) m rq w = (Inr rq', w1)"
    using project_guard.change_passed [OF assms] .
  moreover have "\<not> rb_disabled (NewRBAC (sql_role_api e) dis)" using False by (simp add: NewRBAC_def)
  ultimately obtain s where s: "UserFromContext rq = Some s"
    and h: "URLParam ''projectID'' rq = ''''
      \<or> hasSufficientRole (NewRBAC (sql_role_api e) dis) s (URLParam ''projectID'' rq) m w = (True, w1)"
    by (rule RequireProjectRole_passed)
  from s h sql_roles.check_sound show ?thesis by blast
qed simp

definition editor_session :: session_data where
  "editor_session = \<lparr>sd_user = ''u1'', sd_email = ''a@b'', sd_display = ''A'', sd_groups = [], sd_expires = 0\<rparr>"

definition project_request :: request where
  "project_request = \<lparr>rq_params = [(''projectID'', ''p1'')], rq_query = [], rq_cookies = [],
     rq_body = None, rq_session = Some editor_session\<rparr>"

definition delete_handler :: handler where
  "delete_handler rq w = (writeJSON StatusNoContent JNull, snd (DeleteProject sample_env (URLParam ''projectID'' rq) w))"

lemma editor_passes:
  "hasSufficientRole (NewRBAC (sql_role_api sample_env) False) editor_session ''p1'' RoleViewer sample_world
    = (True, snd (hasSufficientRole (NewRBAC (sql_role_api sample_env) False) editor_session ''p1'' RoleViewer sample_world))"
  by (simp add: hasSufficientRole_def isPlatformAdmin_def NewRBAC_def sql_role_api_def ListProjectRoles_def
      GetUserProjectRole_def editor_session_def role_key_def roleLevel_def find_row_def sample_defs)

theorem project_change_needs_role_witness:
  "\<exists>s. UserFromContext project_request = Some s \<and> direct_role (w_db sample_world) s ''p1'' \<noteq> None
     \<and> (\<exists>e. w_db (snd (guarded (RequireProjectRole (NewRBAC (sql_role_api e) False) RoleViewer)
           delete_handler project_request sample_world)) \<noteq> w_db sample_world)"
proof -
  let ?h = "hasSufficientRole (NewRBAC (sql_role_api sample_env) False) editor_session ''p1'' RoleViewer sample_world"
  have p: "URLParam ''projectID'' project_request = ''p1''" "UserFromContext project_request = Some editor_session"
    by (simp_all add: URLParam_def UserFromContext_def project_request_def)
  have "RequireProjectRole (NewRBAC (sql_role_api sample_env) False) RoleViewer project_request sample_world
      = (Inr project_request, snd ?h)"
    using editor_passes p by (simp add: RequireProjectRole_def NewRBAC_def Let_def case_prod_beta prod_eq_iff)
  moreover have "w_db (snd ?h) = sample_db"
    using sql_roles.check_sound [OF editor_passes] by (simp add: sample_world_def)
  moreover have "w_db w = sample_db \<Longrightarrow> w_db (snd (delete_handler project_request w)) \<noteq> sample_db" for w
    by (simp add: delete_handler_def p DeleteProject_def exec_def driver_call_def sample_env_def
        stmt_delete_project_def project_ids_def sample_db_def sample_project_def cascade_sources_def
        delete_rows_def sources_of_def empty_tables_def)
  ultimately have c: "w_db (snd (guarded (RequireProjectRole (NewRBAC (sql_role_api sample_env) False) RoleViewer)
           delete_handler project_request sample_world)) \<noteq> w_db sample_world"
    by (simp add: guarded_def sample_world_def)
  have "direct_role (w_db sample_world) editor_session ''p1'' \<noteq> None"
    by (simp add: direct_role_def editor_session_def sample_world_def sample_db_def find_row_def role_key_def)
  with project_change_needs_role [OF c] c p show ?thesis by blast
qed

text \<open>
  C7: when no read fails, the check is exact: it passes a session if and only if the user is a platform
  administrator, or has a role on the project of at least the required level, or has no role there
  and one of the session's groups has one of at least that level.
\<close>

theorem role_check_exact:
  "fst (hasSufficientRole (NewRBAC (sql_role_api (faultless e)) dis) s p m w) = permitted (w_db w) s p m"
  by (rule sql_reliable.check_exact)

section \<open>The hierarchy\<close>

text \<open>
  the roles form a hierarchy: whoever passes the check for a role passes it for every
  role of a lower or equal level.
\<close>

theorem role_hierarchy:
  assumes "roleLevel m1 \<le> roleLevel m2"
    and "fst (hasSufficientRole (NewRBAC (sql_role_api (faultless e)) dis) s p m2 w)"
  shows "fst (hasSufficientRole (NewRBAC (sql_role_api (faultless e)) dis) s p m1 w)"
proof -
  have claim: "claim_grant d c p m2 \<Longrightarrow> claim_grant d c p m1" for d c
    using assms(1) by (fastforce simp: claim_grant_def split: option.splits)
  have "permitted (w_db w) s p m2" using assms(2) by (simp only: sql_reliable.check_exact)
  then have "permitted (w_db w) s p m1"
    using assms(1) claim by (fastforce simp: permitted_def group_grant_def split: option.splits)
  then show ?thesis by (simp only: sql_reliable.check_exact)
qed

theorem role_hierarchy_witness:
  "fst (hasSufficientRole (NewRBAC (sql_role_api (faultless sample_env)) False) editor_session ''p1'' RoleViewer sample_world)"
proof (rule role_hierarchy)
  show "roleLevel RoleViewer \<le> roleLevel RoleEditor" by (simp add: roleLevel_def)
  show "fst (hasSufficientRole (NewRBAC (sql_role_api (faultless sample_env)) False) editor_session ''p1'' RoleEditor sample_world)"
    by (simp add: sql_reliable.check_exact permitted_def direct_role_def editor_session_def sample_world_def
        sample_db_def find_row_def role_key_def roleLevel_def)
qed

text \<open>
  The roles the code names are ordered platform-admin, admin, editor, viewer; any other text
  has level 0, so that requiring it passes every session that has a role at all.
\<close>

lemma role_order:
  "roleLevel RoleViewer < roleLevel RoleEditor" "roleLevel RoleEditor < roleLevel RoleAdmin"
  "roleLevel RoleAdmin < roleLevel RolePlatformAdmin" "0 \<le> roleLevel m"
  by (simp_all add: roleLevel_def)

text \<open>
  A direct role shadows the roles of the groups: a viewer who is in an admin group
  does not pass as an editor.
\<close>

lemma direct_role_shadows_groups:
  assumes "\<not> admin_grant d s" and "direct_role d s p = Some r" and "roleLevel (pr_role r) < roleLevel m"
  shows "\<not> permitted d s p m"
  using assms by (simp add: permitted_def)

section \<open>No platform administrator\<close>

lemma no_global_no_admin:
  assumes "db_inv d" and "''_global'' \<notin> project_ids d"
  shows "\<not> admin_grant d s"
proof
  assume "admin_grant d s"
  then obtain r where "r \<in> set (t_roles d)" "pr_project r = ''_global''"
    by (auto simp: admin_grant_def)
  moreover have "pr_project ` set (t_roles d) \<subseteq> project_ids d"
    using assms(1) by (simp add: db_inv_def refs_inv_def)
  ultimately show False using assms(2) by (metis image_subset_iff)
qed

definition global_free :: "store_op \<Rightarrow> bool" where
  "global_free op = (case op of OpCreateProject p \<Rightarrow> p_id p \<noteq> ''_global'' | _ \<Rightarrow> True)"

lemma exec_project_ids:
  assumes "\<And>d d'. stmt d = Inr d' \<Longrightarrow> project_ids d' \<subseteq> project_ids d"
  shows "project_ids (w_db (snd (exec e stmt w))) \<subseteq> project_ids (w_db w)"
  using assms exec_db [of e stmt w] by auto

lemma CreateProject_ids:
  "project_ids (w_db (snd (CreateProject e p w))) \<subseteq> insert (fst (ensure_id e (p_id p) w)) (project_ids (w_db w))"
proof -
  have "stmt_insert_project q d = Inr d' \<Longrightarrow> project_ids d' = insert (p_id q) (project_ids d)" for q d d'
    by (auto simp: stmt_insert_project_def project_ids_def split: if_splits)
  then show ?thesis
    using exec_db [of e "stmt_insert_project (keep_project e (p\<lparr>p_id := fst (ensure_id e (p_id p) w),
        p_created := fst (now e (snd (ensure_id e (p_id p) w))),
        p_updated := fst (now e (snd (ensure_id e (p_id p) w)))\<rparr>))"
        "snd (now e (snd (ensure_id e (p_id p) w)))"]
    by (auto simp: CreateProject_def Let_def case_prod_beta)
qed

lemma update_project_ids:
  "stmt_update_project i n ds t d = Inr d' \<Longrightarrow> project_ids d' \<subseteq> project_ids d"
  by (auto simp: stmt_update_project_def project_ids_def set_update_rows split: if_splits)

lemma stmt_project_ids:
  "stmt_insert_source s d = Inr d' \<Longrightarrow> project_ids d' \<subseteq> project_ids d"
  "stmt_insert_user u d = Inr d' \<Longrightarrow> project_ids d' \<subseteq> project_ids d"
  "stmt_insert_group g d = Inr d' \<Longrightarrow> project_ids d' \<subseteq> project_ids d"
  "stmt_insert_member a b d = Inr d' \<Longrightarrow> project_ids d' \<subseteq> project_ids d"
  "stmt_upsert_role pr d = Inr d' \<Longrightarrow> project_ids d' \<subseteq> project_ids d"
  "stmt_insert_budget bu d = Inr d' \<Longrightarrow> project_ids d' \<subseteq> project_ids d"
  "stmt_insert_record r d = Inr d' \<Longrightarrow> project_ids d' \<subseteq> project_ids d"
  "stmt_update_source i n c en t d = Inr d' \<Longrightarrow> project_ids d' \<subseteq> project_ids d"
  "stmt_update_collected i t' t d = Inr d' \<Longrightarrow> project_ids d' \<subseteq> project_ids d"
  "stmt_update_budget i l wn t d = Inr d' \<Longrightarrow> project_ids d' \<subseteq> project_ids d"
  "stmt_delete_member a b d = Inr d' \<Longrightarrow> project_ids d' \<subseteq> project_ids d"
  "stmt_delete_role p st s' d = Inr d' \<Longrightarrow> project_ids d' \<subseteq> project_ids d"
  "stmt_delete_budget i d = Inr d' \<Longrightarrow> project_ids d' \<subseteq> project_ids d"
  by (clarsimp simp: stmt_insert_defs stmt_update_defs stmt_delete_defs project_ids_def image_update_rows split: if_splits)+

lemma delete_project_ids:
  "stmt_delete_source i d = Inr d' \<Longrightarrow> project_ids d' \<subseteq> project_ids d"
  "stmt_delete_project i d = Inr d' \<Longrightarrow> project_ids d' \<subseteq> project_ids d"
  by (auto simp: stmt_delete_source_def stmt_delete_project_def cascade_sources_def project_ids_def
      delete_rows_def split: if_splits)

lemmas exec_keeps_out =
  update_project_ids [THEN exec_project_ids, THEN contra_subsetD]
  stmt_project_ids [THEN exec_project_ids, THEN contra_subsetD]
  delete_project_ids [THEN exec_project_ids, THEN contra_subsetD]

lemma insert_loop_ids:
  "insert_records_loop e rs tx w = (Inr tx', w') \<Longrightarrow> project_ids tx' = project_ids tx"
  by (drule insert_loop_rows) (auto simp: project_ids_def)

lemma InsertCostRecords_ids:
  "project_ids (w_db (snd (InsertCostRecords e rs w))) = project_ids (w_db w)"
proof (cases "InsertCostRecords e rs w")
  case (Pair r w')
  then show ?thesis
    by (cases r) (auto dest: InsertCostRecords_Inl elim!: InsertCostRecords_Inr dest!: insert_loop_ids)
qed

lemma store_step_ids:
  assumes "global_free op" and "\<And>n. e_uuid e n \<noteq> ''_global''" and "''_global'' \<notin> project_ids (w_db w)"
  shows "''_global'' \<notin> project_ids (w_db (store_step e op w))"
proof (cases op)
  case (OpCreateProject p)
  with assms have "fst (ensure_id e (p_id p) w) \<noteq> ''_global''"
    by (simp add: global_free_def ensure_id_def newID_def)
  with assms(3) OpCreateProject CreateProject_ids [of e p w] show ?thesis by auto
next
  case (OpInsertCostRecords rs)
  with assms(3) show ?thesis by (simp add: InsertCostRecords_ids)
qed (use assms(3) in \<open>simp_all add: write_defs Let_def case_prod_beta exec_keeps_out\<close>)

lemma store_run_ids:
  assumes "\<And>n. e_uuid e n \<noteq> ''_global''"
  shows "list_all global_free ops \<Longrightarrow> ''_global'' \<notin> project_ids (w_db w) \<Longrightarrow>
    ''_global'' \<notin> project_ids (w_db (store_run e ops w))"
  unfolding store_run_def
  by (induction ops arbitrary: w) (simp_all add: store_step_ids assms)

text \<open>
  the platform-administrator role is unreachable: it is looked up on a project named
  \<open>_global\<close>, roles refer to existing projects, and no project gets that identifier, so that in every
  state the store reaches the platform-administrator middleware refuses every session.
\<close>

theorem no_platform_admin:
  assumes "\<And>n. e_uuid e n \<noteq> ''_global''" and "list_all global_free ops"
  shows "fst (isPlatformAdmin (NewRBAC (sql_role_api e') dis) s (store_run e ops init_world)) = False"
proof -
  let ?w = "store_run e ops init_world"
  have "''_global'' \<notin> project_ids (w_db ?w)"
    using assms by (intro store_run_ids) (simp_all add: init_world_def empty_tables_def project_ids_def)
  moreover have "db_inv (w_db ?w)"
    by (rule store_run_inv) (simp add: init_world_def db_inv_empty)
  ultimately have "\<not> admin_grant (w_db ?w) s" by (intro no_global_no_admin)
  then show ?thesis
    using sql_roles.admin_check(2) [of e' dis s ?w] by (metis prod.collapse)
qed

theorem no_platform_admin_witness:
  "fst (isPlatformAdmin (NewRBAC (sql_role_api sample_env) False) editor_session
     (store_run sample_env [OpCreateProject sample_project,
        OpSetProjectRole \<lparr>pr_project = ''_global'', pr_subject_type = ''user'', pr_subject = ''u1'', pr_role = ''platform-admin''\<rparr>]
      init_world)) = False"
  by (rule no_platform_admin) (simp_all add: global_free_def sample_project_def sample_env_def)

end
