(* ===== verification/Server.thy ===== *)
theory Server
  imports Rbac_Laws
begin

text \<open>
  The HTTP server: the project, cost source, member and cost handlers of
  \<open>internal/server/projects.go\<close>, the health and cluster handlers and the routing of
  \<open>internal/server/server.go\<close> with the session middleware in front of \<open>/api/v1\<close>, and the response
  types of \<open>pkg/api/types.go\<close>.

  A path is the list of its segments. The endpoints whose work is done elsewhere (event stream,
  OpenCost proxy, plugins, frontend files, API documentation) are the parameter \<open>sv_other\<close> of the
  server; they do not touch the store, and \<open>Program\<close> says what they are. A time stamp in a body is written by \<open>sv_time\<close>.
\<close>

section \<open>Cluster information\<close>

record k8s_namespace =
  ns_name :: string
  ns_labels :: "(string \<times> string) list option"
  ns_annotations :: "(string \<times> string) list option"

record k8s_node =
  nd_name :: string
  nd_labels :: "(string \<times> string) list option"
  nd_capacity_cpu :: string
  nd_capacity_memory :: string
  nd_allocatable_cpu :: string
  nd_allocatable_memory :: string

record k8s_cache =
  kc_ready :: bool
  kc_namespaces :: "k8s_namespace list"
  kc_nodes :: "k8s_node list"
  kc_pods :: nat

record namespace_info =
  ni_name :: string
  ni_labels :: "(string \<times> string) list option"
  ni_annotations :: "(string \<times> string) list option"
  ni_cost_center :: string
  ni_team :: string

record node_info =
  no_name :: string
  no_labels :: "(string \<times> string) list option"
  no_instance_type :: string
  no_region :: string
  no_zone :: string
  no_capacity_cpu :: string
  no_capacity_memory :: string
  no_allocatable_cpu :: string
  no_allocatable_memory :: string

definition labelValue :: "(string \<times> string) list option \<Rightarrow> string \<Rightarrow> string" where
  "labelValue labels key = (case labels of
     None \<Rightarrow> ''''
   | Some m \<Rightarrow> (case map_of m key of None \<Rightarrow> '''' | Some v \<Rightarrow> v))"

definition buildNamespaceInfo :: "k8s_namespace \<Rightarrow> namespace_info" where
  "buildNamespaceInfo n = \<lparr>ni_name = ns_name n, ni_labels = ns_labels n, ni_annotations = ns_annotations n,
     ni_cost_center = labelValue (ns_labels n) ''cost-center'', ni_team = labelValue (ns_labels n) ''team''\<rparr>"

definition buildNodeInfo :: "k8s_node \<Rightarrow> node_info" where
  "buildNodeInfo n = \<lparr>no_name = nd_name n, no_labels = nd_labels n,
     no_instance_type = labelValue (nd_labels n) ''node.kubernetes.io/instance-type'',
     no_region = labelValue (nd_labels n) ''topology.kubernetes.io/region'',
     no_zone = labelValue (nd_labels n) ''topology.kubernetes.io/zone'',
     no_capacity_cpu = nd_capacity_cpu n, no_capacity_memory = nd_capacity_memory n,
     no_allocatable_cpu = nd_allocatable_cpu n, no_allocatable_memory = nd_allocatable_memory n\<rparr>"

section \<open>JSON bodies\<close>

text \<open>\<open>omitempty\<close>: a field left out when it has its zero value.\<close>

definition omit_text :: "string \<Rightarrow> string \<Rightarrow> (string \<times> json) list" where
  "omit_text key s = (if s = '''' then [] else [(key, JStr s)])"

definition omit_map :: "string \<Rightarrow> (string \<times> string) list option \<Rightarrow> (string \<times> json) list" where
  "omit_map key m = (case m of
     None \<Rightarrow> []
   | Some kvs \<Rightarrow> if kvs = [] then [] else [(key, JObj (map (\<lambda>(k, v). (k, JStr v)) kvs))])"

definition namespace_json :: "namespace_info \<Rightarrow> json" where
  "namespace_json n = JObj ([(''name'', JStr (ni_name n))]
     @ omit_map ''labels'' (ni_labels n) @ omit_map ''annotations'' (ni_annotations n)
     @ omit_text ''costCenter'' (ni_cost_center n) @ omit_text ''team'' (ni_team n))"

definition node_json :: "node_info \<Rightarrow> json" where
  "node_json n = JObj ([(''name'', JStr (no_name n))]
     @ omit_map ''labels'' (no_labels n) @ omit_text ''instanceType'' (no_instance_type n)
     @ omit_text ''region'' (no_region n) @ omit_text ''zone'' (no_zone n)
     @ [(''capacityCPU'', JStr (no_capacity_cpu n)), (''capacityMemory'', JStr (no_capacity_memory n)),
        (''allocatableCPU'', JStr (no_allocatable_cpu n)), (''allocatableMemory'', JStr (no_allocatable_memory n))])"

definition project_json :: "(time \<Rightarrow> string) \<Rightarrow> project \<Rightarrow> json" where
  "project_json tm p = JObj [(''id'', JStr (p_id p)), (''name'', JStr (p_name p)),
     (''description'', JStr (p_description p)), (''createdAt'', JStr (tm (p_created p))),
     (''updatedAt'', JStr (tm (p_updated p)))]"

definition cost_source_json :: "(time \<Rightarrow> string) \<Rightarrow> cost_source \<Rightarrow> json" where
  "cost_source_json tm c = JObj (
     [(''id'', JStr (cs_id c)), (''projectId'', JStr (cs_project c)), (''type'', JStr (cs_type c)),
      (''name'', JStr (cs_name c)), (''config'', case cs_config c of None \<Rightarrow> JNull | Some j \<Rightarrow> j),
      (''enabled'', JBool (cs_enabled c))]
     @ (case cs_collected c of None \<Rightarrow> [] | Some t \<Rightarrow> [(''lastCollectedAt'', JStr (tm t))])
     @ [(''createdAt'', JStr (tm (cs_created c))), (''updatedAt'', JStr (tm (cs_updated c)))])"

definition project_role_json :: "project_role \<Rightarrow> json" where
  "project_role_json r = JObj [(''projectId'', JStr (pr_project r)), (''subjectType'', JStr (pr_subject_type r)),
     (''subjectId'', JStr (pr_subject r)), (''role'', JStr (pr_role r))]"

text \<open>Infinities and NaN have no JSON form: the encoder fails and the body stays empty, here \<open>JNull\<close>.\<close>

definition cost_summary_json :: "cost_summary \<Rightarrow> json" where
  "cost_summary_json s =
     (case (float_json (sum_list_cost s), float_json (sum_net_cost s), float_json (sum_amortized s),
            float_json (sum_amortized_net s)) of
        (Some l, Some n, Some a, Some an) \<Rightarrow>
          JObj [(''totalListCost'', l), (''totalNetCost'', n), (''totalAmortized'', a),
                (''totalAmortizedNet'', an), (''recordCount'', JNum (of_nat (sum_count s)))]
      | _ \<Rightarrow> JNull)"

section \<open>The server\<close>

record 't server =
  sv_auth :: "'t manager option"
  sv_env :: env
  sv_time :: "time \<Rightarrow> string"
  sv_cache :: "k8s_cache option"
  sv_proxy_healthy :: "bool option"
  sv_other :: "string list \<Rightarrow> request \<Rightarrow> response"

definition server_error :: "string \<Rightarrow> response" where
  "server_error msg = writeJSON StatusInternalServerError (error_body msg)"

subsection \<open>Projects\<close>

definition handleCreateProject :: "'t server \<Rightarrow> handler" where
  "handleCreateProject s rq w =
     (case Option.bind (object_fields (rq_body rq)) (\<lambda>kvs.
             Option.bind (decode_field text_value ''name'' kvs '''') (\<lambda>name.
             Option.bind (decode_field text_value ''description'' kvs '''') (\<lambda>desc. Some (name, desc)))) of
        None \<Rightarrow> (writeJSON StatusBadRequest (error_body ''invalid request body''), w)
      | Some (name, desc) \<Rightarrow>
          if name = '''' then (writeJSON StatusBadRequest (error_body ''name is required''), w)
          else
            (case CreateProject (sv_env s)
                    \<lparr>p_id = '''', p_name = name, p_description = desc, p_created = 0, p_updated = 0\<rparr> w of
               (Inl err, w) \<Rightarrow> (server_error ''failed to create project'', w)
             | (Inr p, w) \<Rightarrow> (writeJSON StatusCreated (project_json (sv_time s) p), w)))"

definition handleGetProject :: "'t server \<Rightarrow> handler" where
  "handleGetProject s rq w =
     (case GetProject (sv_env s) (URLParam ''projectID'' rq) w of
        (Inl err, w) \<Rightarrow> (server_error ''failed to get project'', w)
      | (Inr None, w) \<Rightarrow> (writeJSON StatusNotFound (error_body ''project not found''), w)
      | (Inr (Some p), w) \<Rightarrow> (writeJSON StatusOK (project_json (sv_time s) p), w))"

definition handleListProjects :: "'t server \<Rightarrow> handler" where
  "handleListProjects s rq w =
     (case ListProjects (sv_env s) w of
        (Inl err, w) \<Rightarrow> (server_error ''failed to list projects'', w)
      | (Inr ps, w) \<Rightarrow>
          (writeJSON StatusOK (JObj [(''projects'', JArr (map (project_json (sv_time s)) ps))]), w))"

definition handleUpdateProject :: "'t server \<Rightarrow> handler" where
  "handleUpdateProject s rq w =
     (case GetProject (sv_env s) (URLParam ''projectID'' rq) w of
        (Inl err, w) \<Rightarrow> (server_error ''failed to get project'', w)
      | (Inr None, w) \<Rightarrow> (writeJSON StatusNotFound (error_body ''project not found''), w)
      | (Inr (Some existing), w) \<Rightarrow>
          (case Option.bind (object_fields (rq_body rq)) (\<lambda>kvs.
                  Option.bind (decode_field text_pointer ''name'' kvs None) (\<lambda>name.
                  Option.bind (decode_field text_pointer ''description'' kvs None) (\<lambda>desc. Some (name, desc)))) of
             None \<Rightarrow> (writeJSON StatusBadRequest (error_body ''invalid request body''), w)
           | Some (name, desc) \<Rightarrow>
               let existing = (case name of None \<Rightarrow> existing | Some n \<Rightarrow> existing\<lparr>p_name := n\<rparr>);
                   existing = (case desc of None \<Rightarrow> existing | Some d \<Rightarrow> existing\<lparr>p_description := d\<rparr>)
               in (case UpdateProject (sv_env s) existing w of
                     (Inl err, w) \<Rightarrow> (server_error ''failed to update project'', w)
                   | (Inr p, w) \<Rightarrow> (writeJSON StatusOK (project_json (sv_time s) p), w))))"

definition handleDeleteProject :: "'t server \<Rightarrow> handler" where
  "handleDeleteProject s rq w =
     (case DeleteProject (sv_env s) (URLParam ''projectID'' rq) w of
        (Inl err, w) \<Rightarrow> (server_error ''failed to delete project'', w)
      | (Inr _, w) \<Rightarrow> (writeJSON StatusOK (JObj [(''status'', JStr ''deleted'')]), w))"

subsection \<open>Cost sources\<close>

definition handleCreateCostSource :: "'t server \<Rightarrow> handler" where
  "handleCreateCostSource s rq w =
     (case Option.bind (object_fields (rq_body rq)) (\<lambda>kvs.
             Option.bind (decode_field text_value ''type'' kvs '''') (\<lambda>ty.
             Option.bind (decode_field text_value ''name'' kvs '''') (\<lambda>name.
             Option.bind (decode_field raw_value ''config'' kvs None) (\<lambda>config.
             Option.bind (decode_field bool_pointer ''enabled'' kvs None) (\<lambda>enabled.
               Some (ty, name, config, enabled)))))) of
        None \<Rightarrow> (writeJSON StatusBadRequest (error_body ''invalid request body''), w)
      | Some (ty, name, config, enabled) \<Rightarrow>
          if name = '''' \<or> ty = ''''
          then (writeJSON StatusBadRequest (error_body ''name and type are required''), w)
          else
            (case CreateCostSource (sv_env s)
                    \<lparr>cs_id = '''', cs_project = URLParam ''projectID'' rq, cs_type = ty, cs_name = name,
                     cs_config = config, cs_enabled = (case enabled of None \<Rightarrow> True | Some b \<Rightarrow> b),
                     cs_collected = None, cs_created = 0, cs_updated = 0\<rparr> w of
               (Inl err, w) \<Rightarrow> (server_error ''failed to create cost source'', w)
             | (Inr c, w) \<Rightarrow> (writeJSON StatusCreated (cost_source_json (sv_time s) c), w)))"

definition handleListCostSources :: "'t server \<Rightarrow> handler" where
  "handleListCostSources s rq w =
     (case ListCostSources (sv_env s) (URLParam ''projectID'' rq) w of
        (Inl err, w) \<Rightarrow> (server_error ''failed to list cost sources'', w)
      | (Inr cs, w) \<Rightarrow>
          (writeJSON StatusOK (JObj [(''sources'', JArr (map (cost_source_json (sv_time s)) cs))]), w))"

definition handleGetCostSource :: "'t server \<Rightarrow> handler" where
  "handleGetCostSource s rq w =
     (case GetCostSource (sv_env s) (URLParam ''sourceID'' rq) w of
        (Inl err, w) \<Rightarrow> (server_error ''failed to get cost source'', w)
      | (Inr None, w) \<Rightarrow> (writeJSON StatusNotFound (error_body ''cost source not found''), w)
      | (Inr (Some c), w) \<Rightarrow> (writeJSON StatusOK (cost_source_json (sv_time s) c), w))"

definition handleDeleteCostSource :: "'t server \<Rightarrow> handler" where
  "handleDeleteCostSource s rq w =
     (case DeleteCostSource (sv_env s) (URLParam ''sourceID'' rq) w of
        (Inl err, w) \<Rightarrow> (server_error ''failed to delete cost source'', w)
      | (Inr _, w) \<Rightarrow> (writeJSON StatusOK (JObj [(''status'', JStr ''deleted'')]), w))"

subsection \<open>Members and costs\<close>

definition handleListProjectMembers :: "'t server \<Rightarrow> handler" where
  "handleListProjectMembers s rq w =
     (case ListProjectRoles (sv_env s) (URLParam ''projectID'' rq) w of
        (Inl err, w) \<Rightarrow> (server_error ''failed to list members'', w)
      | (Inr rs, w) \<Rightarrow> (writeJSON StatusOK (JObj [(''members'', JArr (map project_role_json rs))]), w))"

definition handleAddProjectMember :: "'t server \<Rightarrow> handler" where
  "handleAddProjectMember s rq w =
     (case Option.bind (object_fields (rq_body rq)) (\<lambda>kvs.
             Option.bind (decode_field text_value ''subjectType'' kvs '''') (\<lambda>st.
             Option.bind (decode_field text_value ''subjectId'' kvs '''') (\<lambda>subj.
             Option.bind (decode_field text_value ''role'' kvs '''') (\<lambda>role. Some (st, subj, role))))) of
        None \<Rightarrow> (writeJSON StatusBadRequest (error_body ''invalid request body''), w)
      | Some (st, subj, role) \<Rightarrow>
          let pr = \<lparr>pr_project = URLParam ''projectID'' rq, pr_subject_type = st, pr_subject = subj, pr_role = role\<rparr>
          in (case SetProjectRole (sv_env s) pr w of
                (Inl err, w) \<Rightarrow> (server_error ''failed to add member'', w)
              | (Inr _, w) \<Rightarrow> (writeJSON StatusCreated (project_role_json pr), w)))"

definition handleRemoveProjectMember :: "'t server \<Rightarrow> handler" where
  "handleRemoveProjectMember s rq w =
     (let st = QueryGet ''subjectType'' rq;
          st = (if st = '''' then SubjectUser else st)
      in (case RemoveProjectRole (sv_env s) (URLParam ''projectID'' rq) st (URLParam ''subjectID'' rq) w of
            (Inl err, w) \<Rightarrow> (server_error ''failed to remove member'', w)
          | (Inr _, w) \<Rightarrow> (writeJSON StatusOK (JObj [(''status'', JStr ''removed'')]), w)))"

definition handleGetProjectCosts :: "'t server \<Rightarrow> handler" where
  "handleGetProjectCosts s rq w =
     (case AggregateCosts (sv_env s)
             \<lparr>q_project = URLParam ''projectID'' rq, q_source = '''', q_provider = '''', q_service = '''',
              q_start = 0, q_end = 0, q_group_by = '''', q_limit = 0, q_offset = 0\<rparr> w of
        (Inl err, w) \<Rightarrow> (server_error ''failed to get costs'', w)
      | (Inr summary, w) \<Rightarrow> (writeJSON StatusOK (cost_summary_json summary), w))"

subsection \<open>Session, health and cluster\<close>

definition handleMe :: "'t server \<Rightarrow> handler" where
  "handleMe s rq w =
     (case sv_auth s of
        Some m \<Rightarrow> HandleUserInfo m rq w
      | None \<Rightarrow> (writeJSON StatusOK (JObj [(''status'', JStr ''auth disabled'')]), w))"

definition handleHealthz :: "'t server \<Rightarrow> handler" where
  "handleHealthz s rq w = (writeJSON StatusOK (JObj [(''status'', JStr ''ok'')]), w)"

definition handleReadyz :: "'t server \<Rightarrow> handler" where
  "handleReadyz s rq w =
     (let ready = (case sv_cache s of None \<Rightarrow> True | Some c \<Rightarrow> kc_ready c)
      in if ready then (writeJSON StatusOK (JObj [(''status'', JStr ''ready'')]), w)
         else (writeJSON StatusServiceUnavailable (JObj [(''status'', JStr ''not ready'')]), w))"

definition handleDetailedHealth :: "'t server \<Rightarrow> handler" where
  "handleDetailedHealth s rq w =
     (let cluster = (case sv_cache s of None \<Rightarrow> []
                     | Some c \<Rightarrow> [(''cluster_cache'', JStr (if kc_ready c then ''ready'' else ''initializing''))]);
          opencost = (case sv_proxy_healthy s of None \<Rightarrow> []
                     | Some ok \<Rightarrow> [(''opencost'', JStr (if ok then ''healthy'' else ''unreachable''))]);
          services = cluster @ opencost
      in (writeJSON StatusOK (JObj ([(''status'', JStr ''ok'')]
            @ (if services = [] then [] else [(''services'', JObj services)]))), w))"

definition handleClusterSummary :: "'t server \<Rightarrow> handler" where
  "handleClusterSummary s rq w =
     (case sv_cache s of
        None \<Rightarrow> (writeJSON StatusServiceUnavailable (error_body ''cluster cache not available''), w)
      | Some c \<Rightarrow>
          (writeJSON StatusOK (JObj
             [(''nodeCount'', JNum (of_nat (length (kc_nodes c)))), (''podCount'', JNum (of_nat (kc_pods c))),
              (''namespaceCount'', JNum (of_nat (length (kc_namespaces c)))),
              (''namespaces'', JArr (map (namespace_json \<circ> buildNamespaceInfo) (kc_namespaces c))),
              (''nodes'', JArr (map (node_json \<circ> buildNodeInfo) (kc_nodes c)))]), w))"

definition handleNamespaces :: "'t server \<Rightarrow> handler" where
  "handleNamespaces s rq w =
     (case sv_cache s of
        None \<Rightarrow> (writeJSON StatusServiceUnavailable (error_body ''cluster cache not available''), w)
      | Some c \<Rightarrow> (writeJSON StatusOK (JArr (map (namespace_json \<circ> buildNamespaceInfo) (kc_namespaces c))), w))"

definition handleNodes :: "'t server \<Rightarrow> handler" where
  "handleNodes s rq w =
     (case sv_cache s of
        None \<Rightarrow> (writeJSON StatusServiceUnavailable (error_body ''cluster cache not available''), w)
      | Some c \<Rightarrow> (writeJSON StatusOK (JArr (map (node_json \<circ> buildNodeInfo) (kc_nodes c))), w))"

section \<open>Routing\<close>

datatype endpoint =
    EpMe | EpCluster | EpNamespaces | EpNodes | EpHealth
  | EpCreateProject | EpListProjects | EpGetProject string | EpUpdateProject string | EpDeleteProject string
  | EpCreateSource string | EpListSources string | EpGetSource string string | EpDeleteSource string string
  | EpCosts string | EpAddMember string | EpListMembers string | EpRemoveMember string string
  | EpOther "string list"

text \<open>The routes under \<open>/api/v1\<close>.\<close>

definition project_root :: "string \<Rightarrow> string \<Rightarrow> endpoint option" where
  "project_root mt p =
     (if mt = ''GET'' then Some (EpGetProject p) else if mt = ''PUT'' then Some (EpUpdateProject p)
      else if mt = ''DELETE'' then Some (EpDeleteProject p) else None)"

text \<open>The subrouter of a project is mounted, so that its \<open>/\<close> is found with and without a slash at the end of the path.\<close>

fun project_route :: "string \<Rightarrow> string \<Rightarrow> string list \<Rightarrow> endpoint option" where
  "project_route mt p [] = project_root mt p"
| "project_route mt p [x] =
     (if x = '''' then project_root mt p
      else if x = ''sources'' \<and> mt = ''POST'' then Some (EpCreateSource p)
      else if x = ''sources'' \<and> mt = ''GET'' then Some (EpListSources p)
      else if x = ''costs'' \<and> mt = ''GET'' then Some (EpCosts p)
      else if x = ''members'' \<and> mt = ''POST'' then Some (EpAddMember p)
      else if x = ''members'' \<and> mt = ''GET'' then Some (EpListMembers p)
      else None)"
| "project_route mt p [x, y] =
     (if x = ''sources'' \<and> mt = ''GET'' then Some (EpGetSource p y)
      else if x = ''sources'' \<and> mt = ''DELETE'' then Some (EpDeleteSource p y)
      else if x = ''members'' \<and> mt = ''DELETE'' then Some (EpRemoveMember p y)
      else None)"
| "project_route mt p _ = None"

lemmas [simp] = project_root_def

fun api_route :: "string \<Rightarrow> string list \<Rightarrow> endpoint option" where
  "api_route mt [x] =
     (if x = ''projects'' \<and> mt = ''POST'' then Some EpCreateProject
      else if mt \<noteq> ''GET'' then None
      else if x = ''me'' then Some EpMe
      else if x = ''cluster'' then Some EpCluster
      else if x = ''namespaces'' then Some EpNamespaces
      else if x = ''nodes'' then Some EpNodes
      else if x = ''health'' then Some EpHealth
      else if x = ''projects'' then Some EpListProjects
      else if x \<in> {''stream'', ''allocation'', ''assets'', ''cloudcost'', ''customcost'', ''plugins''}
        then Some (EpOther [x])
      else None)"
| "api_route mt (x # y # rest) =
     (if x = ''projects'' then project_route mt y rest
      else if x = ''plugins'' then Some (EpOther (x # y # rest))
      else None)"
| "api_route mt [] = None"

text \<open>The URL parameters a route binds, and its handler.\<close>

fun endpoint_params :: "endpoint \<Rightarrow> (string \<times> string) list" where
  "endpoint_params (EpGetProject p) = [(''projectID'', p)]"
| "endpoint_params (EpUpdateProject p) = [(''projectID'', p)]"
| "endpoint_params (EpDeleteProject p) = [(''projectID'', p)]"
| "endpoint_params (EpCreateSource p) = [(''projectID'', p)]"
| "endpoint_params (EpListSources p) = [(''projectID'', p)]"
| "endpoint_params (EpGetSource p s) = [(''projectID'', p), (''sourceID'', s)]"
| "endpoint_params (EpDeleteSource p s) = [(''projectID'', p), (''sourceID'', s)]"
| "endpoint_params (EpCosts p) = [(''projectID'', p)]"
| "endpoint_params (EpAddMember p) = [(''projectID'', p)]"
| "endpoint_params (EpListMembers p) = [(''projectID'', p)]"
| "endpoint_params (EpRemoveMember p s) = [(''projectID'', p), (''subjectID'', s)]"
| "endpoint_params _ = []"

fun endpoint_handler :: "'t server \<Rightarrow> endpoint \<Rightarrow> handler" where
  "endpoint_handler s EpMe = handleMe s"
| "endpoint_handler s EpCluster = handleClusterSummary s"
| "endpoint_handler s EpNamespaces = handleNamespaces s"
| "endpoint_handler s EpNodes = handleNodes s"
| "endpoint_handler s EpHealth = handleDetailedHealth s"
| "endpoint_handler s EpCreateProject = handleCreateProject s"
| "endpoint_handler s EpListProjects = handleListProjects s"
| "endpoint_handler s (EpGetProject _) = handleGetProject s"
| "endpoint_handler s (EpUpdateProject _) = handleUpdateProject s"
| "endpoint_handler s (EpDeleteProject _) = handleDeleteProject s"
| "endpoint_handler s (EpCreateSource _) = handleCreateCostSource s"
| "endpoint_handler s (EpListSources _) = handleListCostSources s"
| "endpoint_handler s (EpGetSource _ _) = handleGetCostSource s"
| "endpoint_handler s (EpDeleteSource _ _) = handleDeleteCostSource s"
| "endpoint_handler s (EpCosts _) = handleGetProjectCosts s"
| "endpoint_handler s (EpAddMember _) = handleAddProjectMember s"
| "endpoint_handler s (EpListMembers _) = handleListProjectMembers s"
| "endpoint_handler s (EpRemoveMember _ _) = handleRemoveProjectMember s"
| "endpoint_handler s (EpOther path) = (\<lambda>rq w. (sv_other s path rq, w))"

definition not_found :: response where
  "not_found = \<lparr>rs_status = StatusNotFound, rs_body = JNull, rs_location = None, rs_cookies = []\<rparr>"

text \<open>A path that exists for another method is answered 405.\<close>

definition unrouted :: "string list \<Rightarrow> response" where
  "unrouted path =
     (if list_ex (\<lambda>mt. api_route mt path \<noteq> None) [''GET'', ''POST'', ''PUT'', ''DELETE'']
      then not_found\<lparr>rs_status := 405\<rparr> else not_found)"

definition api :: "'t server \<Rightarrow> string \<Rightarrow> string list \<Rightarrow> handler" where
  "api s mt path rq w =
     (case api_route mt path of
        None \<Rightarrow> (unrouted path, w)
      | Some ep \<Rightarrow> endpoint_handler s ep (rq\<lparr>rq_params := endpoint_params ep\<rparr>) w)"

text \<open>
  \<open>routes\<close>: the middleware of the \<open>/api/v1\<close> group is installed only when authentication is
  configured; nothing else stands in front of its handlers.
\<close>

definition api_v1 :: "'t server \<Rightarrow> string \<Rightarrow> string list \<Rightarrow> handler" where
  "api_v1 s mt path =
     (case sv_auth s of
        None \<Rightarrow> api s mt path
      | Some m \<Rightarrow> if IsDisabled m then api s mt path
                  else guarded (Middleware m (sv_env s)) (api s mt path))"

fun serve :: "'t server \<Rightarrow> string \<Rightarrow> string list \<Rightarrow> handler" where
  "serve s mt (a # b # path) rq w =
     (if a = ''api'' \<and> b = ''v1'' then api_v1 s mt path rq w else (sv_other s (a # b # path) rq, w))"
| "serve s mt [x] rq w =
     (if mt = ''GET'' \<and> x = ''healthz'' then handleHealthz s rq w
      else if mt = ''GET'' \<and> x = ''readyz'' then handleReadyz s rq w
      else case sv_auth s of
        None \<Rightarrow> (sv_other s [x] rq, w)
      | Some m \<Rightarrow>
          if mt = ''GET'' \<and> x = ''login'' then HandleLogin m (w_calls w) rq w
          else if mt = ''GET'' \<and> x = ''callback'' then HandleCallback m (sv_env s) rq w
          else if mt = ''GET'' \<and> x = ''logout'' then HandleLogout m rq w
          else (sv_other s [x] rq, w))"
| "serve s mt [] rq w = (sv_other s [] rq, w)"

end
