(* ===== verification/Server_Laws.thy ===== *)
theory Server_Laws
  imports Server
begin

text \<open>
  What the server promises: a request that is refused or fails leaves the tables as they were, every
  request keeps the schema invariant, the tables change only for a valid session or a login, and
  what a client reads back is what it wrote; and what it does not do: the role checks of
  \<open>Rbac\<close> stand in front of no handler.
\<close>

section \<open>Store calls of the handlers\<close>

lemma query_rows_frame: "query_rows e sel w = (r, w') \<Longrightarrow> w_db w' = w_db w"
  by (cases r) (auto dest: query_rows_Inr query_rows_Inl)

lemma CreateProject_Inl: "CreateProject e p w = (Inl err, w') \<Longrightarrow> w_db w' = w_db w"
  by (auto simp: CreateProject_def Let_def map_sum_Inl ensure_id_def newID_def now_def
      split: prod.splits if_splits dest!: exec_Inl)

lemma UpdateProject_Inl: "UpdateProject e p w = (Inl err, w') \<Longrightarrow> w_db w' = w_db w"
  by (auto simp: UpdateProject_def Let_def map_sum_Inl now_def split: prod.splits dest!: exec_Inl)

lemma CreateCostSource_Inl: "CreateCostSource e p w = (Inl err, w') \<Longrightarrow> w_db w' = w_db w"
  by (auto simp: CreateCostSource_def Let_def map_sum_Inl ensure_id_def newID_def now_def
      split: prod.splits if_splits dest!: exec_Inl)

lemma delete_Inl:
  "DeleteProject e i w = (Inl err, w') \<Longrightarrow> w_db w' = w_db w"
  "DeleteCostSource e i w = (Inl err, w') \<Longrightarrow> w_db w' = w_db w"
  "SetProjectRole e pr w = (Inl err, w') \<Longrightarrow> w_db w' = w_db w"
  "RemoveProjectRole e p st x w = (Inl err, w') \<Longrightarrow> w_db w' = w_db w"
  by (simp_all add: write_defs exec_Inl)

lemmas write_Inl = CreateProject_Inl UpdateProject_Inl CreateCostSource_Inl delete_Inl

lemma read_frame:
  "GetProject e i w = (r1, w') \<Longrightarrow> w_db w' = w_db w"
  "ListProjects e w = (r2, w') \<Longrightarrow> w_db w' = w_db w"
  "GetCostSource e i w = (r3, w') \<Longrightarrow> w_db w' = w_db w"
  "ListCostSources e i w = (r4, w') \<Longrightarrow> w_db w' = w_db w"
  "ListProjectRoles e i w = (r5, w') \<Longrightarrow> w_db w' = w_db w"
  "AggregateCosts e q w = (r6, w') \<Longrightarrow> w_db w' = w_db w"
  unfolding read_defs by (erule query_rows_frame)+

lemma status_writeJSON [simp]: "rs_status (writeJSON c v) = c"
  by (simp add: writeJSON_def)

lemma status_server_error [simp]: "rs_status (server_error m) = StatusInternalServerError"
  by (simp add: server_error_def)

section \<open>Reading handlers\<close>

lemmas reading_defs =
  handleGetProject_def handleListProjects_def handleListCostSources_def handleGetCostSource_def
  handleListProjectMembers_def handleGetProjectCosts_def

lemma reading_handlers:
  "w_db (snd (handleGetProject s rq w)) = w_db w"
  "w_db (snd (handleListProjects s rq w)) = w_db w"
  "w_db (snd (handleListCostSources s rq w)) = w_db w"
  "w_db (snd (handleGetCostSource s rq w)) = w_db w"
  "w_db (snd (handleListProjectMembers s rq w)) = w_db w"
  "w_db (snd (handleGetProjectCosts s rq w)) = w_db w"
  by (auto simp: reading_defs split: prod.splits sum.splits option.splits dest!: read_frame)

lemma plain_handlers:
  "w_db (snd (handleMe s rq w)) = w_db w"
  "w_db (snd (handleHealthz s rq w)) = w_db w"
  "w_db (snd (handleReadyz s rq w)) = w_db w"
  "w_db (snd (handleDetailedHealth s rq w)) = w_db w"
  "w_db (snd (handleClusterSummary s rq w)) = w_db w"
  "w_db (snd (handleNamespaces s rq w)) = w_db w"
  "w_db (snd (handleNodes s rq w)) = w_db w"
  "w_db (snd (HandleLogin m k rq w)) = w_db w"
  "w_db (snd (HandleLogout m rq w)) = w_db w"
  by (simp_all add: handleMe_def HandleUserInfo_def handleHealthz_def handleReadyz_def handleDetailedHealth_def
      handleClusterSummary_def handleNamespaces_def handleNodes_def HandleLogin_def HandleLogout_def Let_def
      split: option.splits)

section \<open>Writing handlers\<close>

text \<open>
  The contract of a writing handler: either it answers an error and the tables are unchanged, or it
  answers a success and the tables are the result of one store operation of a set \<open>S\<close>.
\<close>

definition outcome :: "env \<Rightarrow> store_op set \<Rightarrow> world \<Rightarrow> response \<times> world \<Rightarrow> bool" where
  "outcome e S w res \<longleftrightarrow>
     rs_status (fst res) \<ge> 400 \<and> w_db (snd res) = w_db w
   \<or> rs_status (fst res) < 400 \<and> (\<exists>op w1. op \<in> S \<and> w_db w1 = w_db w \<and> snd res = store_step e op w1)"

lemma outcome_error: "rs_status rs \<ge> 400 \<Longrightarrow> w_db w' = w_db w \<Longrightarrow> outcome e S w (rs, w')"
  by (simp add: outcome_def)

lemma outcome_fails: "outcome e S w res \<Longrightarrow> rs_status (fst res) \<ge> 400 \<Longrightarrow> w_db (snd res) = w_db w"
  by (auto simp: outcome_def)

text \<open>The last step of every writing handler: the store call and the two answers.\<close>

lemma outcome_call:
  assumes "w_db w1 = w_db w" and "op \<in> S" and "snd (f w1) = store_step e op w1"
    and "\<And>err w'. f w1 = (Inl err, w') \<Longrightarrow> w_db w' = w_db w1"
    and "\<And>x. rs_status (good x) < 400" and "400 \<le> rs_status bad"
  shows "outcome e S w (case f w1 of (Inl err, w') \<Rightarrow> (bad, w') | (Inr x, w') \<Rightarrow> (good x, w'))"
proof (cases "f w1")
  case (Pair r w')
  show ?thesis
  proof (cases r)
    case (Inl err)
    from assms(4) [OF Pair [unfolded Inl]] assms(1) have "w_db w' = w_db w" by simp
    with assms(6) show ?thesis unfolding Pair Inl prod.case sum.case by (rule outcome_error)
  next
    case (Inr x)
    have "w' = store_step e op w1" using Pair assms(3) by simp
    then have "\<exists>op w1. op \<in> S \<and> w_db w1 = w_db w \<and> w' = store_step e op w1"
      using assms(1,2) by blast
    then show ?thesis
      unfolding outcome_def Pair Inr prod.case sum.case fst_conv snd_conv using assms(5) by blast
  qed
qed

lemma create_project_outcome:
  "outcome (sv_env s) {OpCreateProject p | p. p_id p = ''''} w (handleCreateProject s rq w)"
proof (cases "Option.bind (object_fields (rq_body rq)) (\<lambda>kvs.
             Option.bind (decode_field text_value ''name'' kvs '''') (\<lambda>name.
             Option.bind (decode_field text_value ''description'' kvs '''') (\<lambda>desc. Some (name, desc))))")
  case None
  then show ?thesis by (simp add: handleCreateProject_def outcome_error status_defs)
next
  case (Some r)
  obtain name desc where r: "r = (name, desc)" by (cases r)
  let ?p = "\<lparr>p_id = '''', p_name = name, p_description = desc, p_created = 0, p_updated = 0\<rparr>"
  have "outcome (sv_env s) {OpCreateProject p | p. p_id p = ''''} w
    (case CreateProject (sv_env s) ?p w of
       (Inl err, w) \<Rightarrow> (server_error ''failed to create project'', w)
     | (Inr p, w) \<Rightarrow> (writeJSON StatusCreated (project_json (sv_time s) p), w))"
    by (rule outcome_call [OF refl, where op = "OpCreateProject ?p"])
      (simp_all add: status_defs CreateProject_Inl)
  then show ?thesis
    unfolding handleCreateProject_def Some r option.case prod.case
    by (simp add: outcome_error status_defs)
qed

lemma update_project_outcome:
  "outcome (sv_env s) {OpUpdateProject p | p. \<exists>q \<in> set (t_projects (w_db w)). p_id q = p_id p} w (handleUpdateProject s rq w)"
proof -
  obtain r w1 where g: "GetProject (sv_env s) (URLParam ''projectID'' rq) w = (r, w1)" by fastforce
  note db = read_frame(1) [OF g]
  show ?thesis
  proof (cases r)
    case (Inl err)
    with g db show ?thesis by (simp add: handleUpdateProject_def outcome_error status_defs)
  next
    case (Inr o1)
    show ?thesis
    proof (cases o1)
      case None
      with g db Inr show ?thesis by (simp add: handleUpdateProject_def outcome_error status_defs)
    next
      case (Some p)
      have "find_row p_id (URLParam ''projectID'' rq) (t_projects (w_db w)) = Some p"
        using query_rows_Inr [OF g [unfolded Inr GetProject_def]] Some by simp
      from find_row_Some [OF this] have p: "p \<in> set (t_projects (w_db w))" ..
      show ?thesis
      proof (cases "Option.bind (object_fields (rq_body rq)) (\<lambda>kvs.
                  Option.bind (decode_field text_pointer ''name'' kvs None) (\<lambda>name.
                  Option.bind (decode_field text_pointer ''description'' kvs None) (\<lambda>desc. Some (name, desc))))")
        case None
        with g Inr Some db show ?thesis by (simp add: handleUpdateProject_def outcome_error status_defs)
      next
        case req: (Some r)
        obtain name desc where r: "r = (name, desc)" by (cases r)
        define q where "q = (let existing = (case name of None \<Rightarrow> p | Some n \<Rightarrow> p\<lparr>p_name := n\<rparr>)
            in (case desc of None \<Rightarrow> existing | Some d \<Rightarrow> existing\<lparr>p_description := d\<rparr>))"
        have "p_id q = p_id p" by (simp add: q_def split: option.split)
        with p have op: "OpUpdateProject q \<in> {OpUpdateProject p | p. \<exists>q \<in> set (t_projects (w_db w)). p_id q = p_id p}"
          by force
        have "handleUpdateProject s rq w = (case UpdateProject (sv_env s) q w1 of
            (Inl err, w) \<Rightarrow> (server_error ''failed to update project'', w)
          | (Inr p, w) \<Rightarrow> (writeJSON StatusOK (project_json (sv_time s) p), w))"
          unfolding handleUpdateProject_def g Inr Some req r q_def Let_def option.case prod.case sum.case ..
        also have "outcome (sv_env s) {OpUpdateProject p | p. \<exists>q \<in> set (t_projects (w_db w)). p_id q = p_id p} w \<dots>"
          by (rule outcome_call [OF db op]) (simp_all add: status_defs UpdateProject_Inl)
        finally show ?thesis .
      qed
    qed
  qed
qed

lemma delete_project_outcome:
  "outcome (sv_env s) {OpDeleteProject (URLParam ''projectID'' rq)} w (handleDeleteProject s rq w)"
  unfolding handleDeleteProject_def
  by (rule outcome_call [OF refl]) (auto simp: status_defs dest: delete_Inl)

lemma create_source_outcome:
  "outcome (sv_env s) {OpCreateCostSource c | c. cs_project c = URLParam ''projectID'' rq \<and> cs_id c = ''''} w
     (handleCreateCostSource s rq w)"
proof (cases "Option.bind (object_fields (rq_body rq)) (\<lambda>kvs.
             Option.bind (decode_field text_value ''type'' kvs '''') (\<lambda>ty.
             Option.bind (decode_field text_value ''name'' kvs '''') (\<lambda>name.
             Option.bind (decode_field raw_value ''config'' kvs None) (\<lambda>config.
             Option.bind (decode_field bool_pointer ''enabled'' kvs None) (\<lambda>enabled.
               Some (ty, name, config, enabled))))))")
  case None
  then show ?thesis by (simp add: handleCreateCostSource_def outcome_error status_defs)
next
  case (Some r)
  obtain ty name config enabled where r: "r = (ty, name, config, enabled)" by (cases r)
  let ?c = "\<lparr>cs_id = '''', cs_project = URLParam ''projectID'' rq, cs_type = ty, cs_name = name,
       cs_config = config, cs_enabled = (case enabled of None \<Rightarrow> True | Some b \<Rightarrow> b),
       cs_collected = None, cs_created = 0, cs_updated = 0\<rparr>"
  have "outcome (sv_env s) {OpCreateCostSource c | c. cs_project c = URLParam ''projectID'' rq \<and> cs_id c = ''''} w
    (case CreateCostSource (sv_env s) ?c w of
       (Inl err, w) \<Rightarrow> (server_error ''failed to create cost source'', w)
     | (Inr c, w) \<Rightarrow> (writeJSON StatusCreated (cost_source_json (sv_time s) c), w))"
    by (rule outcome_call [OF refl, where op = "OpCreateCostSource ?c"])
      (simp_all add: status_defs CreateCostSource_Inl)
  then show ?thesis
    unfolding handleCreateCostSource_def Some r option.case prod.case
    by (simp add: outcome_error status_defs)
qed

lemma delete_source_outcome:
  "outcome (sv_env s) {OpDeleteCostSource (URLParam ''sourceID'' rq)} w (handleDeleteCostSource s rq w)"
  unfolding handleDeleteCostSource_def
  by (rule outcome_call [OF refl]) (auto simp: status_defs dest: delete_Inl)

lemma add_member_outcome:
  "outcome (sv_env s) {OpSetProjectRole r | r. pr_project r = URLParam ''projectID'' rq} w (handleAddProjectMember s rq w)"
proof (cases "Option.bind (object_fields (rq_body rq)) (\<lambda>kvs.
             Option.bind (decode_field text_value ''subjectType'' kvs '''') (\<lambda>st.
             Option.bind (decode_field text_value ''subjectId'' kvs '''') (\<lambda>subj.
             Option.bind (decode_field text_value ''role'' kvs '''') (\<lambda>role. Some (st, subj, role)))))")
  case None
  then show ?thesis by (simp add: handleAddProjectMember_def outcome_error status_defs)
next
  case (Some r)
  obtain st subj role where r: "r = (st, subj, role)" by (cases r)
  show ?thesis
    unfolding handleAddProjectMember_def Some r option.case prod.case Let_def
    by (rule outcome_call [OF refl, where op = "OpSetProjectRole
          \<lparr>pr_project = URLParam ''projectID'' rq, pr_subject_type = st, pr_subject = subj, pr_role = role\<rparr>"])
      (simp_all add: status_defs delete_Inl)
qed

lemma remove_member_outcome:
  "outcome (sv_env s) {OpRemoveProjectRole (URLParam ''projectID'' rq) st (URLParam ''subjectID'' rq) | st. True} w
     (handleRemoveProjectMember s rq w)"
  unfolding handleRemoveProjectMember_def Let_def
  by (rule outcome_call [OF refl, where op = "OpRemoveProjectRole (URLParam ''projectID'' rq)
        (if QueryGet ''subjectType'' rq = '''' then SubjectUser else QueryGet ''subjectType'' rq)
        (URLParam ''subjectID'' rq)"])
    (auto simp: status_defs dest: delete_Inl)

section \<open>The API as one operation\<close>

text \<open>The store operations an endpoint may perform.\<close>

fun endpoint_ops :: "endpoint \<Rightarrow> tables \<Rightarrow> store_op set" where
  "endpoint_ops EpCreateProject d = {OpCreateProject p | p. p_id p = ''''}"
| "endpoint_ops (EpUpdateProject i) d = {OpUpdateProject p | p. \<exists>q \<in> set (t_projects d). p_id q = p_id p}"
| "endpoint_ops (EpDeleteProject i) d = {OpDeleteProject i}"
| "endpoint_ops (EpCreateSource i) d = {OpCreateCostSource c | c. cs_project c = i \<and> cs_id c = ''''}"
| "endpoint_ops (EpDeleteSource i j) d = {OpDeleteCostSource j}"
| "endpoint_ops (EpAddMember i) d = {OpSetProjectRole r | r. pr_project r = i}"
| "endpoint_ops (EpRemoveMember i j) d = {OpRemoveProjectRole i st j | st. True}"
| "endpoint_ops _ d = {}"

lemma URLParam_bound:
  "URLParam k (rq\<lparr>rq_params := ps\<rparr>) = (case map_of ps k of None \<Rightarrow> '''' | Some v \<Rightarrow> v)"
  by (simp add: URLParam_def)

lemma endpoint_effect:
  "w_db (snd (endpoint_handler s ep (rq\<lparr>rq_params := endpoint_params ep\<rparr>) w)) = w_db w
   \<or> outcome (sv_env s) (endpoint_ops ep (w_db w)) w (endpoint_handler s ep (rq\<lparr>rq_params := endpoint_params ep\<rparr>) w)"
proof (cases ep)
  case EpCreateProject
  then show ?thesis
    using create_project_outcome [of s w "rq\<lparr>rq_params := endpoint_params ep\<rparr>"] by simp
next
  case (EpUpdateProject i)
  then show ?thesis
    using update_project_outcome [of s w "rq\<lparr>rq_params := endpoint_params ep\<rparr>"] by simp
next
  case (EpDeleteProject i)
  then show ?thesis
    using delete_project_outcome [of s "rq\<lparr>rq_params := endpoint_params ep\<rparr>" w] by (simp add: URLParam_bound)
next
  case (EpCreateSource i)
  then show ?thesis
    using create_source_outcome [of s "rq\<lparr>rq_params := endpoint_params ep\<rparr>" w] by (simp add: URLParam_bound)
next
  case (EpDeleteSource i j)
  then show ?thesis
    using delete_source_outcome [of s "rq\<lparr>rq_params := endpoint_params ep\<rparr>" w] by (simp add: URLParam_bound)
next
  case (EpAddMember i)
  then show ?thesis
    using add_member_outcome [of s "rq\<lparr>rq_params := endpoint_params ep\<rparr>" w] by (simp add: URLParam_bound)
next
  case (EpRemoveMember i j)
  then show ?thesis
    using remove_member_outcome [of s "rq\<lparr>rq_params := endpoint_params ep\<rparr>" w] by (simp add: URLParam_bound)
qed (simp_all add: reading_handlers plain_handlers)

lemma outcome_tables:
  "outcome e S w res \<Longrightarrow> w_db (snd res) = w_db w
     \<or> rs_status (fst res) < 400 \<and> (\<exists>op w1. op \<in> S \<and> w_db w1 = w_db w \<and> snd res = store_step e op w1)"
  by (auto simp: outcome_def)

text \<open>What a request to the API does to the tables.\<close>

lemma api_effect:
  obtains (same) "w_db (snd (api s mt path rq w)) = w_db w"
  | (step) ep op w1 where "api_route mt path = Some ep" "rs_status (fst (api s mt path rq w)) < 400"
      "op \<in> endpoint_ops ep (w_db w)" "w_db w1 = w_db w" "snd (api s mt path rq w) = store_step (sv_env s) op w1"
proof (cases "api_route mt path")
  case None
  then show thesis by (intro same) (simp add: api_def)
next
  case (Some ep)
  then have run: "api s mt path rq w = endpoint_handler s ep (rq\<lparr>rq_params := endpoint_params ep\<rparr>) w"
    by (simp add: api_def)
  from endpoint_effect [of s ep rq w, folded run] show thesis
    using same step [OF Some] by (auto dest: outcome_tables)
qed

lemma endpoint_ops_global_free: "op \<in> endpoint_ops ep d \<Longrightarrow> global_free op"
  by (cases ep) (auto simp: global_free_def)

lemma api_fails: "rs_status (fst (api s mt path rq w)) \<ge> 400 \<Longrightarrow> w_db (snd (api s mt path rq w)) = w_db w"
  by (cases rule: api_effect [of s mt path rq w]) simp_all

text \<open>
  C21: a request to the API that is answered with an error status leaves the tables as they were:
  refused by the session middleware, unknown route, malformed or incomplete body, missing object, or
  a failing store, where a failing driver call has executed nothing (as \<open>Store\<close> says of its faults).
\<close>

theorem failed_request_changes_nothing:
  assumes "400 \<le> rs_status (fst (api_v1 s mt path rq w))"
  shows "w_db (snd (api_v1 s mt path rq w)) = w_db w"
proof (cases "sv_auth s")
  case None
  with assms show ?thesis by (simp add: api_v1_def api_fails)
next
  case (Some m)
  show ?thesis
  proof (cases "IsDisabled m")
    case True
    with Some assms show ?thesis by (simp add: api_v1_def api_fails)
  next
    case False
    then have run: "api_v1 s mt path = guarded (Middleware m (sv_env s)) (api s mt path)"
      using Some by (simp add: api_v1_def)
    show ?thesis
    proof (rule ccontr)
      assume c: "w_db (snd (api_v1 s mt path rq w)) \<noteq> w_db w"
      then obtain rq' w1 where g: "guarded (Middleware m (sv_env s)) (api s mt path) rq w = api s mt path rq' w1"
        and db: "w_db w1 = w_db w"
        using session.change_passed [of m "sv_env s" "api s mt path" rq w] unfolding run by blast
      have "w_db (snd (api s mt path rq' w1)) = w_db w1"
        using assms unfolding run g by (rule api_fails)
      with c db show False unfolding run g by simp
    qed
  qed
qed

section \<open>Sessions in front of the API\<close>

text \<open>
  C5: with authentication enabled, the tables change only for a login callback or for a request under
  \<open>/api/v1\<close> whose cookie decodes to a session that has not expired.
\<close>

theorem change_needs_session:
  assumes "sv_auth s = Some m" and "\<not> IsDisabled m"
    and "w_db (snd (serve s mt path rq w)) \<noteq> w_db w"
  shows "path = [''callback''] \<or> (\<exists>v sess. Cookie sessionCookieName rq = Some v \<and> decodeSession m v = Some sess
      \<and> e_clock (sv_env s) (w_ticks w) \<le> sd_expires sess)"
proof (cases "(s, mt, path, rq, w)" rule: serve.cases)
  case (1 s' mt' a b path' rq' w')
  with assms(3) have api: "path = ''api'' # ''v1'' # path'" "w_db (snd (api_v1 s mt path' rq w)) \<noteq> w_db w"
    by (auto split: if_splits)
  with assms(1,2) have "w_db (snd (guarded (Middleware m (sv_env s)) (api s mt path') rq w)) \<noteq> w_db w"
    by (simp add: api_v1_def)
  then obtain rq1 w1 where "Middleware m (sv_env s) rq w = (Inr rq1, w1)"
    by (rule session.change_passed)
  then obtain v sess where "Cookie sessionCookieName rq = Some v" "decodeSession m v = Some sess"
    "e_clock (sv_env s) (w_ticks w) \<le> sd_expires sess"
    using assms(2) unfolding IsDisabled_def by (rule Middleware_outcome)
  then show ?thesis by blast
next
  case (2 s' mt' x rq' w')
  with assms(1,3) show ?thesis
    by (auto simp: plain_handlers split: if_splits)
next
  case (3 s' mt' rq' w')
  with assms(3) show ?thesis by simp
qed

section \<open>The schema invariant under requests\<close>

definition served_ok :: "tables \<Rightarrow> bool" where
  "served_ok d \<longleftrightarrow> db_inv d \<and> ''_global'' \<notin> project_ids d"

lemma provisionUser_Inl: "provisionUser e sub em nm gs w = (Inl err, w') \<Longrightarrow> w_db w' = w_db w"
proof -
  assume p: "provisionUser e sub em nm gs w = (Inl err, w')"
  obtain r1 w1 where g1: "GetUserByOIDCSubject e sub w = (r1, w1)" by fastforce
  have d1: "w_db w1 = w_db w" using query_rows_frame [OF g1 [unfolded GetUserByOIDCSubject_def]] .
  obtain r2 w2 where g2: "GetUserByEmail e em w1 = (r2, w2)" by fastforce
  have d2: "w_db w2 = w_db w1" using query_rows_frame [OF g2 [unfolded GetUserByEmail_def]] .
  let ?u = "\<lparr>u_id = '''', u_email = em, u_display = (if nm = '''' then em else nm), u_subject = sub, u_created = 0\<rparr>"
  obtain r3 w3 where c: "CreateUser e ?u w2 = (r3, w3)" by fastforce
  have d3: "r3 = Inl x \<Longrightarrow> w_db w3 = w_db w2" for x using c CreateUser_Inl by blast
  show ?thesis
    using p g1 g2 c d1 d2 d3
    by (auto simp: provisionUser_def Let_def split: sum.splits option.splits)
qed

text \<open>The store operations of a login keep what holds of the tables.\<close>

lemma CreateUser_keeps:
  assumes "served_ok (w_db w)"
  shows "served_ok (w_db (snd (CreateUser e u w)))"
  using assms unfolding served_ok_def
  by (simp add: CreateUser_def Let_def case_prod_beta exec_stmt_inv exec_keeps_out)

lemma syncGroup_keeps:
  assumes "served_ok (w_db w)"
  shows "served_ok (w_db (syncGroup e c u w))"
proof -
  have ids: "''_global'' \<notin> project_ids (w_db w) \<Longrightarrow> ''_global'' \<notin> project_ids (w_db (snd (AddGroupMember e g u w)))"
    "''_global'' \<notin> project_ids (w_db w) \<Longrightarrow> ''_global'' \<notin> project_ids (w_db (snd (CreateGroup e g' w)))" for g g' w
    by (simp_all add: AddGroupMember_def CreateGroup_def Let_def case_prod_beta exec_keeps_out)
  show ?thesis
    using assms unfolding served_ok_def
    by (cases rule: syncGroup_cases [of e c u w]) (simp_all add: ids AddGroupMember_inv CreateGroup_inv)
qed

lemma sync_groups_keeps: "served_ok (w_db w) \<Longrightarrow> served_ok (w_db (sync_groups e cs u w))"
  by (induction e cs u w rule: sync_groups.induct) (simp_all add: syncGroup_keeps)

lemma provision_keeps:
  assumes "served_ok (w_db w)"
  shows "served_ok (w_db (snd (provisionUser e sub em nm gs w)))"
proof (cases "provisionUser e sub em nm gs w")
  case (Pair r w')
  show ?thesis
  proof (cases r)
    case (Inl err)
    with Pair provisionUser_Inl assms show ?thesis by fastforce
  next
    case (Inr u)
    with Pair have "provisionUser e sub em nm gs w = (Inr u, w')" by simp
    then show ?thesis
    proof (cases rule: provisionUser_cases)
      case known
      with Pair assms show ?thesis by simp
    next
      case email
      with Pair assms show ?thesis by simp
    next
      case (created w1)
      have "project_ids (w_db w1) \<subseteq> project_ids (w_db w)"
        using created(3) by (rule stmt_project_ids)
      with insert_user_inv [OF created(3)] assms have "served_ok (w_db w1)"
        unfolding served_ok_def by blast
      with Pair created(7) show ?thesis by (simp add: sync_groups_keeps)
    qed
  qed
qed

lemma callback_keeps:
  assumes "served_ok (w_db w)"
  shows "served_ok (w_db (snd (HandleCallback m e rq w)))"
proof -
  have session: "served_ok (w_db (snd (callback_session m e c rq w)))" for c
    using provision_keeps [OF assms, of e "cl_subject c" "cl_email c" "cl_name c" "cl_groups c"]
    by (simp add: callback_session_def case_prod_beta now_def Let_def split: sum.split option.split)
  have "served_ok (w_db (snd (callback_token m e rq w)))"
    using session assms by (simp add: callback_token_def Let_def split: option.split)
  with assms show ?thesis
    by (simp add: HandleCallback_def Let_def case_prod_beta split: option.split)
qed

lemma api_keeps:
  assumes "served_ok (w_db w)" and "\<And>n. e_uuid (sv_env s) n \<noteq> ''_global''"
  shows "served_ok (w_db (snd (api s mt path rq w)))"
proof (cases rule: api_effect [of s mt path rq w])
  case same
  with assms show ?thesis by simp
next
  case (step ep op w1)
  have "db_inv (w_db (store_step (sv_env s) op w1))"
    using assms(1) step(4) by (intro store_step_inv) (simp add: served_ok_def)
  moreover have "''_global'' \<notin> project_ids (w_db (store_step (sv_env s) op w1))"
    using assms step(4) endpoint_ops_global_free [OF step(3)] by (intro store_step_ids) (simp_all add: served_ok_def)
  ultimately show ?thesis using step(5) by (simp add: served_ok_def)
qed

lemma api_v1_keeps:
  assumes "served_ok (w_db w)" and "\<And>n. e_uuid (sv_env s) n \<noteq> ''_global''"
  shows "served_ok (w_db (snd (api_v1 s mt path rq w)))"
proof -
  have plain: "served_ok (w_db (snd (api s mt path rq w)))" by (rule api_keeps) (rule assms)+
  show ?thesis
  proof (cases "sv_auth s")
    case None
    with plain show ?thesis by (simp add: api_v1_def)
  next
    case (Some m)
    have "served_ok (w_db (snd (guarded (Middleware m (sv_env s)) (api s mt path) rq w)))"
      by (rule session.preserves [where P = served_ok]) (rule api_keeps, assumption, rule assms, rule assms)
    with plain Some show ?thesis by (simp add: api_v1_def)
  qed
qed

lemma serve_keeps:
  assumes "served_ok (w_db w)" and "\<And>n. e_uuid (sv_env s) n \<noteq> ''_global''"
  shows "served_ok (w_db (snd (serve s mt path rq w)))"
proof (cases "(s, mt, path, rq, w)" rule: serve.cases)
  case (1 s' mt' a b path' rq' w')
  with assms api_v1_keeps [OF assms] show ?thesis by auto
next
  case (2 s' mt' x rq' w')
  with assms show ?thesis by (auto simp: plain_handlers callback_keeps split: option.splits)
next
  case (3 s' mt' rq' w')
  with assms show ?thesis by simp
qed

fun serve_all :: "'t server \<Rightarrow> (string \<times> string list \<times> request) list \<Rightarrow> world \<Rightarrow> world" where
  "serve_all s [] w = w"
| "serve_all s ((mt, path, rq) # reqs) w = serve_all s reqs (snd (serve s mt path rq w))"

lemma serve_all_keeps:
  assumes "\<And>n. e_uuid (sv_env s) n \<noteq> ''_global''"
  shows "served_ok (w_db w) \<Longrightarrow> served_ok (w_db (serve_all s reqs w))"
proof (induction reqs arbitrary: w)
  case (Cons r reqs)
  obtain mt path rq where r: "r = (mt, path, rq)" by (cases r)
  have "served_ok (w_db (snd (serve s mt path rq w)))"
    using Cons.prems assms by (rule serve_keeps)
  with Cons.IH r show ?case by simp
qed simp

text \<open>
  after any sequence of requests to a server that started on the empty database, logins included, the
  schema's constraints hold, and no session is a platform administrator.
\<close>

theorem server_keeps_schema:
  assumes "\<And>n. e_uuid (sv_env s) n \<noteq> ''_global''"
  shows "db_inv (w_db (serve_all s reqs init_world))
    \<and> \<not> fst (isPlatformAdmin (NewRBAC (sql_role_api e) dis) sess (serve_all s reqs init_world))"
proof -
  have "served_ok (w_db (serve_all s reqs init_world))"
    using assms
  proof (rule serve_all_keeps)
    show "served_ok (w_db init_world)"
      using db_inv_empty by (simp add: served_ok_def init_world_def project_ids_def) (simp add: empty_tables_def)
  qed
  then have ok: "db_inv (w_db (serve_all s reqs init_world))"
    "''_global'' \<notin> project_ids (w_db (serve_all s reqs init_world))"
    by (simp_all add: served_ok_def)
  then have "\<not> admin_grant (w_db (serve_all s reqs init_world)) sess" by (intro no_global_no_admin)
  with sql_roles.admin_check(2) [of e dis sess "serve_all s reqs init_world"] ok(1) show ?thesis
    by (metis prod.collapse)
qed

section \<open>A sample server for the witnesses\<close>

definition sample_server :: "string server" where
  "sample_server = \<lparr>sv_auth = Some sample_manager, sv_env = sample_env, sv_time = int_text, sv_cache = None,
     sv_proxy_healthy = None, sv_other = (\<lambda>_ _. not_found)\<rparr>"

definition create_request :: request where
  "create_request = session_request\<lparr>rq_body := Some (JObj [(''name'', JStr ''web'')])\<rparr>"

theorem server_keeps_schema_witness:
  "db_inv (w_db (serve_all sample_server
     [(''POST'', [''api'', ''v1'', ''projects''], create_request), (''GET'', [''callback''], callback_request)] init_world))"
proof -
  have "\<And>n. e_uuid (sv_env sample_server) n \<noteq> ''_global''"
    by (simp add: sample_server_def sample_env_def)
  from server_keeps_schema [OF this] show ?thesis by blast
qed

section \<open>Reading back what was written\<close>

lemma handleCreateProject_created:
  assumes "handleCreateProject s rq w = (rs, w1)" and "rs_status rs = StatusCreated"
  obtains p p' where "CreateProject (sv_env s) p w = (Inr p', w1)" and "rs_body rs = project_json (sv_time s) p'"
    and "p_name p \<noteq> ''''"
proof (cases "Option.bind (object_fields (rq_body rq)) (\<lambda>kvs.
             Option.bind (decode_field text_value ''name'' kvs '''') (\<lambda>name.
             Option.bind (decode_field text_value ''description'' kvs '''') (\<lambda>desc. Some (name, desc))))")
  case None
  with assms show thesis by (auto simp: handleCreateProject_def status_defs)
next
  case (Some r)
  obtain name desc where r: "r = (name, desc)" by (cases r)
  let ?p = "\<lparr>p_id = '''', p_name = name, p_description = desc, p_created = 0, p_updated = 0\<rparr>"
  obtain res w2 where c: "CreateProject (sv_env s) ?p w = (res, w2)" by fastforce
  have run: "handleCreateProject s rq w =
     (if name = '''' then (writeJSON StatusBadRequest (error_body ''name is required''), w)
      else (case res of Inl err \<Rightarrow> (server_error ''failed to create project'', w2)
            | Inr p \<Rightarrow> (writeJSON StatusCreated (project_json (sv_time s) p), w2)))"
    unfolding handleCreateProject_def Some r option.case prod.case c by (cases res) simp_all
  with assms have named: "name \<noteq> ''''" by (auto simp: status_defs)
  show thesis
  proof (cases res)
    case (Inl err)
    with run assms named show thesis by (simp add: status_defs)
  next
    case (Inr p')
    with run assms(1) named c show thesis by (intro that [of ?p p']) (auto simp: writeJSON_def)
  qed
qed

text \<open>
  C38: a project created over the API can be read over the API: the answer to reading the identifier in the 201 answer
  is 200 with the project of that answer, its two times as the columns of the database keep them (PostgreSQL
  cuts them to microseconds), and with the very same body where they keep all of it, as on SQLite; and the
  identifier was not in use before.
\<close>

theorem project_http_roundtrip:
  assumes "api s ''POST'' [''projects''] rq w = (rs, w1)" and "rs_status rs = StatusCreated"
    and "\<not> e_fault (sv_env s) (w_calls w1)"
  shows "\<exists>p. rs_body rs = project_json (sv_time s) p \<and> p_name p \<noteq> '''' \<and> p_id p \<notin> project_ids (w_db w)
    \<and> fst (api s ''GET'' [''projects'', p_id p] rq2 w1)
        = writeJSON StatusOK (project_json (sv_time s) (keep_project (sv_env s) p))
    \<and> (keeps_all (sv_env s) \<longrightarrow> fst (api s ''GET'' [''projects'', p_id p] rq2 w1) = writeJSON StatusOK (rs_body rs))"
proof -
  have "handleCreateProject s (rq\<lparr>rq_params := []\<rparr>) w = (rs, w1)"
    using assms(1) by (simp add: api_def)
  then obtain p p' where c: "CreateProject (sv_env s) p w = (Inr p', w1)"
    and body: "rs_body rs = project_json (sv_time s) p'" and name: "p_name p \<noteq> ''''"
    using assms(2) by (rule handleCreateProject_created)
  note cp = CreateProject_Inr [OF c]
  let ?row = "keep_project (sv_env s) p'"
  have "find_row p_id (p_id p') (t_projects (w_db w1)) = Some ?row"
    using insert_project_find [OF cp(1)] by simp
  then obtain w2 where g: "GetProject (sv_env s) (p_id p') w1 = (Inr (Some ?row), w2)"
    using assms(3) by (simp add: GetProject_def query_rows_def driver_call_def)
  have read: "fst (api s ''GET'' [''projects'', p_id p'] rq2 w1) = writeJSON StatusOK (project_json (sv_time s) ?row)"
    by (simp add: api_def handleGetProject_def URLParam_bound g)
  have "p_id p' \<notin> project_ids (w_db w)"
    using cp(1) by (auto simp: stmt_insert_project_def split: if_splits)
  with read body name cp(2) show ?thesis by (intro exI [where x = p']) simp
qed

lemma sample_create:
  "api sample_server ''POST'' [''projects''] create_request init_world
     = (writeJSON StatusCreated (project_json int_text
          \<lparr>p_id = ''id-0'', p_name = ''web'', p_description = '''', p_created = 0, p_updated = 0\<rparr>),
        snd (api sample_server ''POST'' [''projects''] create_request init_world))"
  by (simp add: api_def handleCreateProject_def create_request_def session_request_def object_fields_def
      same_key_def lower_def CreateProject_def stmt_insert_project_def project_ids_def sample_server_def Itoa_0 run_defs)

theorem project_http_roundtrip_witness:
  "\<exists>p. p_name p \<noteq> '''' \<and> fst (api sample_server ''GET'' [''projects'', p_id p] session_request
      (snd (api sample_server ''POST'' [''projects''] create_request init_world)))
     = writeJSON StatusOK (project_json int_text p)"
proof -
  have st: "rs_status (writeJSON StatusCreated (project_json int_text
      \<lparr>p_id = ''id-0'', p_name = ''web'', p_description = '''', p_created = 0, p_updated = 0\<rparr>)) = StatusCreated"
    by simp
  have nf: "\<not> e_fault (sv_env sample_server) n" for n by (simp add: sample_server_def sample_env_def)
  have tm: "sv_time sample_server = int_text" by (simp add: sample_server_def)
  have kept: "keep_project (sv_env sample_server) p = p" for p
    by (simp add: sample_server_def keep_all sample_keeps)
  from project_http_roundtrip [OF sample_create st nf, of session_request] obtain p where "p_name p \<noteq> ''''"
    "fst (api sample_server ''GET'' [''projects'', p_id p] session_request
       (snd (api sample_server ''POST'' [''projects''] create_request init_world)))
      = writeJSON StatusOK (project_json int_text (keep_project (sv_env sample_server) p))"
    unfolding tm by blast
  then show ?thesis unfolding kept by blast
qed

text \<open>What a successful update did.\<close>

lemma handleUpdateProject_ok:
  assumes "handleUpdateProject s rq w = (rs, w1)" and "rs_status rs = StatusOK"
  obtains p kvs name desc q w2 p' where
    "find_row p_id (URLParam ''projectID'' rq) (t_projects (w_db w)) = Some p"
    and "object_fields (rq_body rq) = Some kvs"
    and "decode_field text_pointer ''name'' kvs None = Some name"
    and "decode_field text_pointer ''description'' kvs None = Some desc"
    and "q = p\<lparr>p_name := (case name of None \<Rightarrow> p_name p | Some n \<Rightarrow> n),
               p_description := (case desc of None \<Rightarrow> p_description p | Some d \<Rightarrow> d)\<rparr>"
    and "w_db w2 = w_db w" and "UpdateProject (sv_env s) q w2 = (Inr p', w1)"
proof -
  let ?id = "URLParam ''projectID'' rq"
  obtain r w2 where g: "GetProject (sv_env s) ?id w = (r, w2)" by fastforce
  note db = read_frame(1) [OF g]
  obtain o1 where o1: "r = Inr o1"
    using assms g by (cases r) (auto simp: handleUpdateProject_def status_defs)
  obtain p where p: "o1 = Some p"
    using assms g o1 by (cases o1) (auto simp: handleUpdateProject_def status_defs)
  have row: "find_row p_id ?id (t_projects (w_db w)) = Some p"
    using query_rows_Inr [OF g [unfolded o1 GetProject_def]] p by simp
  obtain kvs name desc where d: "object_fields (rq_body rq) = Some kvs"
    "decode_field text_pointer ''name'' kvs None = Some name"
    "decode_field text_pointer ''description'' kvs None = Some desc"
  proof (cases "Option.bind (object_fields (rq_body rq)) (\<lambda>kvs.
                  Option.bind (decode_field text_pointer ''name'' kvs None) (\<lambda>name.
                  Option.bind (decode_field text_pointer ''description'' kvs None) (\<lambda>desc. Some (name, desc))))")
    case None
    with assms g o1 p show ?thesis by (auto simp: handleUpdateProject_def status_defs)
  next
    case (Some x)
    then show ?thesis using that by (auto simp: bind_eq_Some_conv)
  qed
  let ?q = "p\<lparr>p_name := (case name of None \<Rightarrow> p_name p | Some n \<Rightarrow> n),
               p_description := (case desc of None \<Rightarrow> p_description p | Some d \<Rightarrow> d)\<rparr>"
  have q: "(let existing = (case name of None \<Rightarrow> p | Some n \<Rightarrow> p\<lparr>p_name := n\<rparr>)
            in (case desc of None \<Rightarrow> existing | Some d \<Rightarrow> existing\<lparr>p_description := d\<rparr>)) = ?q"
    by (cases name; cases desc) simp_all
  obtain res w3 where u: "UpdateProject (sv_env s) ?q w2 = (res, w3)" by fastforce
  have run: "handleUpdateProject s rq w = (case res of
      Inl err \<Rightarrow> (server_error ''failed to update project'', w3)
    | Inr p \<Rightarrow> (writeJSON StatusOK (project_json (sv_time s) p), w3))"
    using g o1 p d q u by (cases res) (simp_all add: handleUpdateProject_def Let_def)
  with assms obtain p' where "res = Inr p'" "w3 = w1" by (cases res) (auto simp: status_defs)
  with that [OF row d refl db] u show thesis by blast
qed

text \<open>
  a successful update over the API sets the name and the description that the body gives and keeps
  what it leaves out, keeps the creation time, and changes no other project.
\<close>

theorem update_sets_given_fields:
  assumes "api s ''PUT'' [''projects'', i] rq w = (rs, w1)" and "rs_status rs = StatusOK"
    and "find_row p_id i (t_projects (w_db w)) = Some p" and "object_fields (rq_body rq) = Some kvs"
  shows "\<exists>name desc t. decode_field text_pointer ''name'' kvs None = Some name
    \<and> decode_field text_pointer ''description'' kvs None = Some desc
    \<and> find_row p_id i (t_projects (w_db w1)) = Some (p\<lparr>
         p_name := (case name of None \<Rightarrow> p_name p | Some n \<Rightarrow> n),
         p_description := (case desc of None \<Rightarrow> p_description p | Some d \<Rightarrow> d), p_updated := t\<rparr>)
    \<and> (j \<noteq> i \<longrightarrow> find_row p_id j (t_projects (w_db w1)) = find_row p_id j (t_projects (w_db w)))"
proof -
  let ?rq = "rq\<lparr>rq_params := [(''projectID'', i)]\<rparr>"
  have id: "URLParam ''projectID'' ?rq = i" by (simp add: URLParam_bound)
  have "handleUpdateProject s ?rq w = (rs, w1)" using assms(1) by (simp add: api_def)
  then obtain p0 kvs0 name desc q w2 p' where u:
    "find_row p_id (URLParam ''projectID'' ?rq) (t_projects (w_db w)) = Some p0"
    "object_fields (rq_body ?rq) = Some kvs0"
    "decode_field text_pointer ''name'' kvs0 None = Some name"
    "decode_field text_pointer ''description'' kvs0 None = Some desc"
    "q = p0\<lparr>p_name := (case name of None \<Rightarrow> p_name p0 | Some n \<Rightarrow> n),
            p_description := (case desc of None \<Rightarrow> p_description p0 | Some d \<Rightarrow> d)\<rparr>"
    "w_db w2 = w_db w" "UpdateProject (sv_env s) q w2 = (Inr p', w1)"
    using assms(2) by (rule handleUpdateProject_ok)
  from u(1,2) assms(3,4) id have same: "p0 = p" "kvs0 = kvs" by simp_all
  have pid: "p_id p = i" using find_row_Some [OF assms(3)] ..
  then have qid: "p_id q = i" using u(5) same by simp
  note st = update_project_find [OF UpdateProject_Inr(1) [OF u(7)]]
  have "find_row p_id i (t_projects (w_db w1)) = Some (p\<lparr>
         p_name := (case name of None \<Rightarrow> p_name p | Some n \<Rightarrow> n),
         p_description := (case desc of None \<Rightarrow> p_description p | Some d \<Rightarrow> d), p_updated := e_time (sv_env s) (p_updated p')\<rparr>)"
    using st [of i] assms(3) pid qid u(6) unfolding u(5) same(1) by simp
  moreover have "j \<noteq> i \<longrightarrow> find_row p_id j (t_projects (w_db w1)) = find_row p_id j (t_projects (w_db w))"
  proof
    assume "j \<noteq> i"
    with st [of j] qid u(6) show "find_row p_id j (t_projects (w_db w1)) = find_row p_id j (t_projects (w_db w))"
      using find_row_Some [of p_id j "t_projects (w_db w)"]
      by (cases "find_row p_id j (t_projects (w_db w))") auto
  qed
  ultimately show ?thesis using u(3,4) same by blast
qed

definition rename_request :: request where
  "rename_request = session_request\<lparr>rq_body := Some (JObj [(''name'', JStr ''api'')])\<rparr>"

theorem update_sets_given_fields_witness:
  "\<exists>t. find_row p_id ''p1'' (t_projects (w_db (snd (api sample_server ''PUT'' [''projects'', ''p1''] rename_request sample_world))))
     = Some (sample_project\<lparr>p_name := ''api'', p_updated := t\<rparr>)"
proof -
  let ?res = "api sample_server ''PUT'' [''projects'', ''p1''] rename_request sample_world"
  have ok: "rs_status (fst ?res) = StatusOK"
    by (simp add: api_def handleUpdateProject_def rename_request_def session_request_def object_fields_def
      same_key_def lower_def UpdateProject_def GetProject_def URLParam_def stmt_update_project_def project_ids_def
      find_row_def sample_server_def sample_defs)
  have row: "find_row p_id ''p1'' (t_projects (w_db sample_world)) = Some sample_project"
    by (simp add: sample_world_def sample_db_def find_row_def sample_project_def)
  have body: "object_fields (rq_body rename_request) = Some [(''name'', JStr ''api'')]"
    by (simp add: rename_request_def object_fields_def)
  have fields: "decode_field text_pointer ''name'' [(''name'', JStr ''api'')] None = Some (Some ''api'')"
    "decode_field text_pointer ''description'' [(''name'', JStr ''api'')] None = Some None"
    by (simp_all add: same_key_def lower_def)
  from update_sets_given_fields [OF prod.collapse [symmetric] ok row body, of "''p1''"] fields
  show ?thesis by auto
qed

section \<open>What stands in front of the handlers\<close>

lemma Middleware_passes:
  assumes "\<not> am_disabled m" and "Cookie sessionCookieName rq = Some v" and "decodeSession m v = Some sess"
    and "e_clock e (w_ticks w) \<le> sd_expires sess"
  shows "Middleware m e rq w = (Inr (rq\<lparr>rq_session := Some sess\<rparr>), w\<lparr>w_ticks := Suc (w_ticks w)\<rparr>)"
  using assms by (simp add: Middleware_def now_def)

lemma serve_session:
  assumes "sv_auth s = Some m" and "\<not> IsDisabled m"
    and "Cookie sessionCookieName rq = Some v" and "decodeSession m v = Some sess"
    and "e_clock (sv_env s) (w_ticks w) \<le> sd_expires sess"
  shows "serve s mt (''api'' # ''v1'' # path) rq w
    = api s mt path (rq\<lparr>rq_session := Some sess\<rparr>) (w\<lparr>w_ticks := Suc (w_ticks w)\<rparr>)"
  using assms Middleware_passes [of m rq v sess "sv_env s" w]
  by (simp add: api_v1_def guarded_def IsDisabled_def)

lemma DeleteProject_gone:
  assumes "\<not> e_fault e (w_calls w)"
  obtains w' where "DeleteProject e i w = (Inr (), w')" and "i \<notin> project_ids (w_db w')"
proof -
  obtain d' where d: "stmt_delete_project i (w_db w) = Inr d'"
    by (simp add: stmt_delete_project_def)
  then have "i \<notin> project_ids d'"
    by (auto simp: stmt_delete_project_def cascade_sources_def project_ids_def delete_rows_def split: if_splits)
  with assms d that show thesis by (simp add: DeleteProject_def exec_def driver_call_def)
qed

text \<open>
  C28: no role stands in front of the API: with authentication enabled, any request with a valid session
  deletes any project, whatever the tables grant to the session's user.
\<close>

theorem any_session_deletes:
  assumes "sv_auth s = Some m" and "\<not> IsDisabled m"
    and "Cookie sessionCookieName rq = Some v" and "decodeSession m v = Some sess"
    and "e_clock (sv_env s) (w_ticks w) \<le> sd_expires sess" and "\<not> e_fault (sv_env s) (w_calls w)"
  shows "rs_status (fst (serve s ''DELETE'' [''api'', ''v1'', ''projects'', i] rq w)) = StatusOK
    \<and> i \<notin> project_ids (w_db (snd (serve s ''DELETE'' [''api'', ''v1'', ''projects'', i] rq w)))"
proof -
  have "\<not> e_fault (sv_env s) (w_calls (w\<lparr>w_ticks := Suc (w_ticks w)\<rparr>))" using assms(6) by simp
  then obtain w' where d: "DeleteProject (sv_env s) i (w\<lparr>w_ticks := Suc (w_ticks w)\<rparr>) = (Inr (), w')"
    and gone: "i \<notin> project_ids (w_db w')" by (rule DeleteProject_gone)
  have "serve s ''DELETE'' [''api'', ''v1'', ''projects'', i] rq w
      = (writeJSON StatusOK (JObj [(''status'', JStr ''deleted'')]), w')"
    unfolding serve_session [OF assms(1-5)]
    by (simp add: api_def handleDeleteProject_def URLParam_bound d)
  with gone show ?thesis by simp
qed

text \<open>A session that the role check refuses, and what the server lets it do.\<close>

lemma sample_session:
  "sv_auth sample_server = Some sample_manager" "\<not> IsDisabled sample_manager"
  "Cookie sessionCookieName session_request = Some ''tok''"
  "decodeSession sample_manager ''tok'' = Some login_session"
  "e_clock (sv_env sample_server) 0 \<le> sd_expires login_session"
  "\<not> e_fault (sv_env sample_server) n"
proof -
  show "decodeSession sample_manager ''tok'' = Some login_session" by (rule sample_decoded)
qed (simp_all add: sample_server_def IsDisabled_def sample_manager_def Cookie_def session_request_def
      sample_env_def login_session_def sessionMaxAge_def hour_def minute_def second_def)

lemma ticks_0 [simp]: "w_ticks init_world = 0" "w_ticks sample_world = 0"
  by (simp_all add: sample_world_def init_world_def)

theorem any_session_deletes_witness:
  "\<not> fst (hasSufficientRole (NewRBAC (sql_role_api (faultless sample_env)) False) login_session ''p1'' RoleViewer sample_world)
   \<and> ''p1'' \<in> project_ids (w_db sample_world)
   \<and> ''p1'' \<notin> project_ids (w_db (snd (serve sample_server ''DELETE'' [''api'', ''v1'', ''projects'', ''p1'']
        session_request sample_world)))"
proof -
  have "\<not> fst (hasSufficientRole (NewRBAC (sql_role_api (faultless sample_env)) False) login_session ''p1'' RoleViewer sample_world)"
    by (simp add: sql_reliable.check_exact permitted_def admin_grant_def direct_role_def group_grant_def
        claim_grant_def login_session_def sample_world_def sample_db_def find_row_def role_key_def empty_tables_def)
  moreover have "''p1'' \<in> project_ids (w_db sample_world)" by (simp add: sample_defs project_ids_def)
  ultimately show ?thesis
    using any_session_deletes [OF sample_session(1-4), of sample_world "''p1''"] sample_session(5,6) by simp
qed

text \<open>
  the routes of a single cost source ignore the project in their path: under the path of any other
  project the same request gives the same answer and has the same effect, deletion included.
\<close>

theorem source_routes_ignore_project:
  "api s mt [''projects'', p, ''sources'', j] rq w = api s mt [''projects'', q, ''sources'', j] rq w"
  by (simp add: api_def unrouted_def handleGetCostSource_def handleDeleteCostSource_def URLParam_bound)

theorem failed_request_changes_nothing_witness:
  "w_db (snd (api_v1 sample_server ''DELETE'' [''projects'', ''p1''] (session_request\<lparr>rq_cookies := []\<rparr>) sample_world))
     = w_db sample_world"
proof (rule failed_request_changes_nothing)
  show "400 \<le> rs_status (fst (api_v1 sample_server ''DELETE'' [''projects'', ''p1'']
      (session_request\<lparr>rq_cookies := []\<rparr>) sample_world))"
    by (simp add: api_v1_def sample_session(1,2) guarded_def Middleware_def Cookie_def session_request_def status_defs)
      (simp add: sample_manager_def status_defs)
qed

theorem change_needs_session_witness:
  "\<exists>v sess. Cookie sessionCookieName session_request = Some v \<and> decodeSession sample_manager v = Some sess
     \<and> e_clock (sv_env sample_server) (w_ticks sample_world) \<le> sd_expires sess"
proof -
  let ?run = "serve sample_server ''DELETE'' [''api'', ''v1'', ''projects'', ''p1''] session_request sample_world"
  obtain w' where d: "DeleteProject (sv_env sample_server) ''p1'' (sample_world\<lparr>w_ticks := Suc 0\<rparr>) = (Inr (), w')"
    and gone: "''p1'' \<notin> project_ids (w_db w')"
    using sample_session(6) by (rule DeleteProject_gone)
  have "snd ?run = w'"
    using sample_session(5) serve_session [OF sample_session(1-4), of sample_world]
    by (simp add: api_def handleDeleteProject_def URLParam_bound d)
  moreover have "''p1'' \<in> project_ids (w_db sample_world)" by (simp add: sample_defs project_ids_def)
  ultimately have "w_db (snd ?run) \<noteq> w_db sample_world" using gone by metis
  from change_needs_session [OF sample_session(1,2) this] show ?thesis by simp
qed


end
