(* ===== verification/Updates.thy ===== *)
theory Updates
  imports Server_Laws
begin

text \<open>
  Updates of a project that overlap: \<open>handleUpdateProject\<close> of \<open>internal/server/projects.go\<close> reads the project, changes
  it in memory and writes it back, without a transaction around the two calls of the store. A thread is one such
  request; between its two steps other threads, and any other operation of the store, may run.

  Lemmas: the two steps in a row are the handler; no interleaving breaks the schema; and two updates that
  overlap lose the change of one of them, although both are answered 200.
\<close>

section \<open>The two halves of the handler\<close>

datatype update = Asked request | Held project | Replied response

definition read_project :: "'t server \<Rightarrow> request \<Rightarrow> world \<Rightarrow> update \<times> world" where
  "read_project s rq w =
     (case GetProject (sv_env s) (URLParam ''projectID'' rq) w of
        (Inl err, w) \<Rightarrow> (Replied (server_error ''failed to get project''), w)
      | (Inr None, w) \<Rightarrow> (Replied (writeJSON StatusNotFound (error_body ''project not found'')), w)
      | (Inr (Some existing), w) \<Rightarrow>
          (case Option.bind (object_fields (rq_body rq)) (\<lambda>kvs.
                  Option.bind (decode_field text_pointer ''name'' kvs None) (\<lambda>name.
                  Option.bind (decode_field text_pointer ''description'' kvs None) (\<lambda>desc. Some (name, desc)))) of
             None \<Rightarrow> (Replied (writeJSON StatusBadRequest (error_body ''invalid request body'')), w)
           | Some (name, desc) \<Rightarrow>
               let existing = (case name of None \<Rightarrow> existing | Some n \<Rightarrow> existing\<lparr>p_name := n\<rparr>);
                   existing = (case desc of None \<Rightarrow> existing | Some d \<Rightarrow> existing\<lparr>p_description := d\<rparr>)
               in (Held existing, w)))"

definition write_project :: "'t server \<Rightarrow> project \<Rightarrow> world \<Rightarrow> update \<times> world" where
  "write_project s p w =
     (case UpdateProject (sv_env s) p w of
        (Inl err, w) \<Rightarrow> (Replied (server_error ''failed to update project''), w)
      | (Inr p, w) \<Rightarrow> (Replied (writeJSON StatusOK (project_json (sv_time s) p)), w))"

fun update_step :: "'t server \<Rightarrow> update \<Rightarrow> world \<Rightarrow> update \<times> world" where
  "update_step s (Asked rq) w = read_project s rq w"
| "update_step s (Held p) w = write_project s p w"
| "update_step s (Replied rs) w = (Replied rs, w)"

text \<open>With nobody between them the two steps are the handler.\<close>

lemma update_alone:
  "(case update_step s (Asked rq) w of (u, w) \<Rightarrow> update_step s u w)
     = (case handleUpdateProject s rq w of (rs, w) \<Rightarrow> (Replied rs, w))"
proof -
  obtain r w1 where g: "GetProject (sv_env s) (URLParam ''projectID'' rq) w = (r, w1)" by fastforce
  let ?fields = "Option.bind (object_fields (rq_body rq)) (\<lambda>kvs.
      Option.bind (decode_field text_pointer ''name'' kvs None) (\<lambda>name.
      Option.bind (decode_field text_pointer ''description'' kvs None) (\<lambda>desc. Some (name, desc))))"
  show ?thesis
    by (cases r; cases "projr r"; cases ?fields)
      (auto simp: g read_project_def write_project_def handleUpdateProject_def Let_def split: prod.split sum.split)
qed

section \<open>Interleaving\<close>

record updates =
  us_world :: world
  us_threads :: "update list"

inductive updates_step :: "'t server \<Rightarrow> updates \<Rightarrow> updates \<Rightarrow> bool" for s where
  turn: "i < length (us_threads x) \<Longrightarrow> update_step s (us_threads x ! i) (us_world x) = (u, w) \<Longrightarrow>
    updates_step s x (x\<lparr>us_threads := (us_threads x)[i := u], us_world := w\<rparr>)"
| other: "updates_step s x (x\<lparr>us_world := store_step (sv_env s) op (us_world x)\<rparr>)"

inductive_cases updates_stepE: "updates_step s x y"

abbreviation updates_run :: "'t server \<Rightarrow> updates \<Rightarrow> updates \<Rightarrow> bool" where
  "updates_run s \<equiv> (updates_step s)\<^sup>*\<^sup>*"

lemma update_step_inv:
  assumes "update_step s u w = (u', w')" and "db_inv (w_db w)"
  shows "db_inv (w_db w')"
proof (cases u)
  case (Asked rq)
  obtain r w1 where g: "GetProject (sv_env s) (URLParam ''projectID'' rq) w = (r, w1)" by fastforce
  with Asked assms(1) have "w' = w1"
    by (auto simp: read_project_def Let_def split: sum.splits option.splits)
  with assms(2) read_frame(1) [OF g] show ?thesis by simp
next
  case (Held p)
  obtain r w1 where u: "UpdateProject (sv_env s) p w = (r, w1)" by fastforce
  with Held assms(1) have "w' = w1" by (auto simp: write_project_def split: sum.splits)
  with store_step_inv [OF assms(2), of "sv_env s" "OpUpdateProject p"] u show ?thesis by simp
qed (use assms in simp)

interpretation update_steps: step_invariant "updates_step s" "\<lambda>x. db_inv (w_db (us_world x))" for s
  by unfold_locales (auto elim!: updates_stepE simp: update_step_inv store_step_inv)

lemma updates_keep_schema:
  "updates_run s x y \<Longrightarrow> db_inv (w_db (us_world x)) \<Longrightarrow> db_inv (w_db (us_world y))"
  by (rule update_steps.run_keeps)

section \<open>A lost update\<close>

definition update_request :: "string \<Rightarrow> string \<Rightarrow> request" where
  "update_request key v = \<lparr>rq_params = [(''projectID'', ''p1'')], rq_query = [], rq_cookies = [],
     rq_body = Some (JObj [(key, JStr v)]), rq_session = None\<rparr>"

lemma turn_run:
  "updates_step s x y \<Longrightarrow> updates_run s y z \<Longrightarrow> updates_run s x z"
  by (rule converse_rtranclp_into_rtranclp)

lemma read_sample:
  assumes "find_row p_id ''p1'' (t_projects (w_db w)) = Some p"
  shows "update_step sample_server (Asked (update_request ''name'' v)) w = (Held (p\<lparr>p_name := v\<rparr>), w\<lparr>w_calls := Suc (w_calls w)\<rparr>)"
    and "update_step sample_server (Asked (update_request ''description'' v)) w
      = (Held (p\<lparr>p_description := v\<rparr>), w\<lparr>w_calls := Suc (w_calls w)\<rparr>)"
  using assms by (simp_all add: read_project_def update_request_def GetProject_def URLParam_def object_fields_def same_key_def
      lower_def sample_server_def sample_env_def query_rows_def driver_call_def)

text \<open>
  C37: Two updates of a project at once, one giving it a new name and one a new description: both read the project,
  then both write it. Both are answered 200, and in the end the project has the new description and its old name.
\<close>

theorem lost_update_reachable:
  "\<exists>x r1 r2 t. updates_run sample_server \<lparr>us_world = sample_world,
       us_threads = [Asked (update_request ''name'' ''api''), Asked (update_request ''description'' ''new'')]\<rparr> x
     \<and> us_threads x = [Replied r1, Replied r2] \<and> rs_status r1 = StatusOK \<and> rs_status r2 = StatusOK
     \<and> find_row p_id ''p1'' (t_projects (w_db (us_world x))) = Some (sample_project\<lparr>p_description := ''new'', p_updated := t\<rparr>)
     \<and> p_name sample_project \<noteq> ''api''"
proof -
  let ?s = sample_server
  let ?a = "sample_project\<lparr>p_name := ''api''\<rparr>" and ?b = "sample_project\<lparr>p_description := ''new''\<rparr>"
  let ?w1 = "sample_world\<lparr>w_calls := Suc (w_calls sample_world)\<rparr>"
  let ?w2 = "?w1\<lparr>w_calls := Suc (w_calls ?w1)\<rparr>"
  have row: "find_row p_id ''p1'' (t_projects (w_db sample_world)) = Some sample_project"
    by (simp add: sample_world_def sample_db_def find_row_def sample_project_def)
  obtain r1 w3 where w3: "update_step ?s (Held ?a) ?w2 = (Replied r1, w3)" "rs_status r1 = StatusOK"
    "t_projects (w_db w3) = [?a\<lparr>p_updated := 0\<rparr>, sample_project\<lparr>p_id := ''p2'', p_name := ''db''\<rparr>]"
    "w_calls w3 = 3" "w_ticks w3 = 1"
    by (simp add: write_project_def UpdateProject_def stmt_update_project_def project_ids_def update_rows_def
        sample_server_def sample_defs)
  obtain r2 w4 t where w4: "update_step ?s (Held ?b) w3 = (Replied r2, w4)" "rs_status r2 = StatusOK"
    "t_projects (w_db w4) = [?b\<lparr>p_updated := t\<rparr>, sample_project\<lparr>p_id := ''p2'', p_name := ''db''\<rparr>]"
    using w3(3) by (simp add: write_project_def UpdateProject_def stmt_update_project_def project_ids_def update_rows_def
        sample_server_def sample_env_def sample_project_def now_def exec_def driver_call_def Let_def)
  have step: "updates_step ?s \<lparr>us_world = w, us_threads = [u, v]\<rparr> \<lparr>us_world = w', us_threads = [u', v]\<rparr>"
    if "update_step ?s u w = (u', w')" for u v w u' w'
    using updates_step.turn [of 0 "\<lparr>us_world = w, us_threads = [u, v]\<rparr>" ?s u' w'] that by simp
  have step2: "updates_step ?s \<lparr>us_world = w, us_threads = [u, v]\<rparr> \<lparr>us_world = w', us_threads = [u, v']\<rparr>"
    if "update_step ?s v w = (v', w')" for u v w v' w'
    using updates_step.turn [of 1 "\<lparr>us_world = w, us_threads = [u, v]\<rparr>" ?s v' w'] that by simp
  have "updates_run ?s \<lparr>us_world = sample_world,
       us_threads = [Asked (update_request ''name'' ''api''), Asked (update_request ''description'' ''new'')]\<rparr>
     \<lparr>us_world = w4, us_threads = [Replied r1, Replied r2]\<rparr>"
    by (rule turn_run [OF step [OF read_sample(1) [OF row]]], rule turn_run [OF step2 [OF read_sample(2)]],
        simp add: row, rule turn_run [OF step [OF w3(1)]], rule turn_run [OF step2 [OF w4(1)]], rule rtranclp.rtrancl_refl)
  moreover have "find_row p_id ''p1'' (t_projects (w_db w4)) = Some (?b\<lparr>p_updated := t\<rparr>)"
    by (simp add: w4(3) find_row_def sample_project_def)
  ultimately show ?thesis using w3(2) w4(2)
    by (intro exI [where x = "\<lparr>us_world = w4, us_threads = [Replied r1, Replied r2]\<rparr>"] exI [where x = r1] exI [where x = r2]
        exI [where x = t]) (simp add: sample_project_def)
qed

end
