(* ===== verification/Logins.thy ===== *)
theory Logins
  imports Server_Laws
begin

text \<open>
  Logins that overlap: \<open>provisionUser\<close> and \<open>syncGroup\<close> of \<open>internal/auth/auth.go\<close> make their calls to the store one
  by one, without a transaction, so other logins, and any other operation of the store, may run between two of
  them. A thread is one login, by the claims of its token and where it is.

  Lemmas: a thread that runs alone does what \<open>provisionUser\<close> does, and every thread ends; whatever the
  interleaving, a login ends with an account of its subject or its address, and where a subject keeps its address,
  logins with one address end with one account; and of two first logins at once one fails.
  The last section follows one login from the login page to the session.
\<close>

section \<open>A login, call by call\<close>

datatype stage =
    BySubject | ByEmail | Creating
  | Syncing user "string list" | MakingGroup user string "string list" | JoiningGroup user string "string list"
  | Provisioned "store_error + user"

fun login_step :: "env \<Rightarrow> claims \<Rightarrow> stage \<Rightarrow> world \<Rightarrow> stage \<times> world" where
  "login_step e c BySubject w =
     (case GetUserByOIDCSubject e (cl_subject c) w of
        (Inl err, w) \<Rightarrow> (Provisioned (Inl err), w)
      | (Inr (Some u), w) \<Rightarrow> (Provisioned (Inr u), w)
      | (Inr None, w) \<Rightarrow> (ByEmail, w))"
| "login_step e c ByEmail w =
     (case GetUserByEmail e (cl_email c) w of
        (Inl err, w) \<Rightarrow> (Provisioned (Inl err), w)
      | (Inr (Some u), w) \<Rightarrow> (Provisioned (Inr u), w)
      | (Inr None, w) \<Rightarrow> (Creating, w))"
| "login_step e c Creating w =
     (let displayName = (if cl_name c = '''' then cl_email c else cl_name c) in
      case CreateUser e \<lparr>u_id = '''', u_email = cl_email c, u_display = displayName,
                          u_subject = cl_subject c, u_created = 0\<rparr> w of
        (Inl err, w) \<Rightarrow> (Provisioned (Inl err), w)
      | (Inr u, w) \<Rightarrow> (Syncing u (cl_groups c), w))"
| "login_step e c (Syncing u []) w = (Provisioned (Inr u), w)"
| "login_step e c (Syncing u (g # gs)) w =
     (case GetGroupByOIDCClaim e g w of
        (Inl err, w) \<Rightarrow> (Syncing u gs, w)
      | (Inr (Some gr), w) \<Rightarrow> (JoiningGroup u (g_id gr) gs, w)
      | (Inr None, w) \<Rightarrow> (MakingGroup u g gs, w))"
| "login_step e c (MakingGroup u g gs) w =
     (case CreateGroup e \<lparr>g_id = '''', g_name = g, g_claim = g, g_created = 0\<rparr> w of
        (Inl err, w) \<Rightarrow> (Syncing u gs, w)
      | (Inr gr, w) \<Rightarrow> (JoiningGroup u (g_id gr) gs, w))"
| "login_step e c (JoiningGroup u g gs) w = (Syncing u gs, snd (AddGroupMember e g (u_id u) w))"
| "login_step e c (Provisioned r) w = (Provisioned r, w)"

fun login_steps :: "nat \<Rightarrow> env \<Rightarrow> claims \<Rightarrow> stage \<Rightarrow> world \<Rightarrow> stage \<times> world" where
  "login_steps 0 e c st w = (st, w)"
| "login_steps (Suc n) e c st w = (let (st, w) = login_step e c st w in login_steps n e c st w)"

text \<open>The calls a thread has left at most.\<close>

fun calls_left :: "claims \<Rightarrow> stage \<Rightarrow> nat" where
  "calls_left c BySubject = 3 * length (cl_groups c) + 4"
| "calls_left c ByEmail = 3 * length (cl_groups c) + 3"
| "calls_left c Creating = 3 * length (cl_groups c) + 2"
| "calls_left c (Syncing u gs) = 3 * length gs + 1"
| "calls_left c (MakingGroup u g gs) = 3 * length gs + 3"
| "calls_left c (JoiningGroup u g gs) = 3 * length gs + 2"
| "calls_left c (Provisioned r) = 0"

lemma calls_left_0: "calls_left c st = 0 \<longleftrightarrow> (\<exists>r. st = Provisioned r)"
  by (cases st) auto

lemma login_step_progress:
  "login_step e c st w = (st', w') \<Longrightarrow> (\<exists>r. st = Provisioned r) \<and> st' = st \<or> calls_left c st' < calls_left c st"
  by (induction e c st w rule: login_step.induct) (auto simp: Let_def split: prod.splits sum.splits option.splits)

lemma steps_end: "calls_left c st \<le> n \<Longrightarrow> \<exists>r w'. login_steps n e c st w = (Provisioned r, w')"
proof (induction n arbitrary: st w)
  case (Suc n)
  obtain st' w' where s: "login_step e c st w = (st', w')" by fastforce
  have "calls_left c st' \<le> n"
    using Suc.prems login_step_progress [OF s] calls_left_0 [of c st] by fastforce
  from Suc.IH [OF this] s show ?case by simp
qed (simp add: calls_left_0)

lemma steps_provisioned [simp]: "login_steps n e c (Provisioned r) w = (Provisioned r, w)"
  by (induction n) simp_all

lemma steps_sync:
  "calls_left c (Syncing u gs) \<le> n \<Longrightarrow>
   login_steps n e c (Syncing u gs) w = (Provisioned (Inr u), sync_groups e gs (u_id u) w)"
proof (induction gs arbitrary: n w)
  case Nil
  then obtain m where "n = Suc m" by (cases n) auto
  then show ?case by simp
next
  case (Cons g gs)
  then obtain m where n: "n = Suc (Suc (Suc m))" and m: "3 * length gs + 1 \<le> m"
    by (cases n rule: nat.exhaust [case_names Z S]; cases "n - 1"; cases "n - 2") auto
  note IH = Cons.IH [of m] Cons.IH [of "Suc m"] Cons.IH [of "Suc (Suc m)"]
  let ?new = "\<lparr>g_id = '''', g_name = g, g_claim = g, g_created = 0\<rparr>"
  obtain r w1 where g1: "GetGroupByOIDCClaim e g w = (r, w1)" by fastforce
  show ?case
  proof (cases r)
    case (Inl err)
    with g1 n m IH show ?thesis by (simp add: syncGroup_def)
  next
    case (Inr found)
    obtain r2 w2 where g2: "CreateGroup e ?new w1 = (r2, w2)" by fastforce
    with g1 n m IH Inr show ?thesis
      by (cases found; cases r2) (simp_all add: syncGroup_def)
  qed
qed

text \<open>A login that nobody interrupts is \<open>provisionUser\<close>.\<close>

lemma login_alone:
  "login_steps (calls_left c BySubject) e c BySubject w
     = (let (r, w) = provisionUser e (cl_subject c) (cl_email c) (cl_name c) (cl_groups c) w in (Provisioned r, w))"
proof -
  obtain r1 w1 where g1: "GetUserByOIDCSubject e (cl_subject c) w = (r1, w1)" by fastforce
  obtain r2 w2 where g2: "GetUserByEmail e (cl_email c) w1 = (r2, w2)" by fastforce
  obtain r3 w3 where g3: "CreateUser e \<lparr>u_id = '''', u_email = cl_email c,
      u_display = (if cl_name c = '''' then cl_email c else cl_name c), u_subject = cl_subject c, u_created = 0\<rparr> w2 = (r3, w3)"
    by fastforce
  define m where "m = 3 * length (cl_groups c) + 1"
  have n: "calls_left c BySubject = Suc (Suc (Suc m))" by (simp add: m_def)
  have sync: "login_steps m e c (Syncing u (cl_groups c)) w = (Provisioned (Inr u), sync_groups e (cl_groups c) (u_id u) w)" for u w
    by (rule steps_sync) (simp add: m_def)
  show ?thesis
  proof (cases r1)
    case (Inl err)
    with g1 show ?thesis unfolding n by (simp add: provisionUser_def)
  next
    case r1: (Inr o1)
    show ?thesis
    proof (cases o1)
      case (Some u)
      with g1 r1 show ?thesis unfolding n by (simp add: provisionUser_def)
    next
      case o1: None
      show ?thesis
      proof (cases r2)
        case (Inl err)
        with g1 g2 r1 o1 show ?thesis unfolding n by (simp add: provisionUser_def)
      next
        case r2: (Inr o2)
        show ?thesis
          by (cases o2; cases r3)
            (use g1 g2 g3 r1 o1 r2 sync in \<open>simp_all add: n provisionUser_def Let_def del: calls_left.simps(1)\<close>)
      qed
    qed
  qed
qed

section \<open>Interleaving\<close>

text \<open>Logins arrive with any claims; whatever else the program does with the store runs between their calls.\<close>

record logins =
  lg_world :: world
  lg_threads :: "(claims \<times> stage) list"

fun creates_user :: "store_op \<Rightarrow> bool" where
  "creates_user (OpCreateUser u) = True"
| "creates_user _ = False"

inductive logins_step :: "env \<Rightarrow> logins \<Rightarrow> logins \<Rightarrow> bool" for e where
  arrive: "logins_step e x (x\<lparr>lg_threads := lg_threads x @ [(c, BySubject)]\<rparr>)"
| call: "i < length (lg_threads x) \<Longrightarrow> lg_threads x ! i = (c, st) \<Longrightarrow>
    login_step e c st (lg_world x) = (st', w) \<Longrightarrow>
    logins_step e x (x\<lparr>lg_threads := (lg_threads x)[i := (c, st')], lg_world := w\<rparr>)"
| other: "\<not> creates_user op \<Longrightarrow> logins_step e x (x\<lparr>lg_world := store_step e op (lg_world x)\<rparr>)"

inductive_cases logins_stepE: "logins_step e x y"

abbreviation logins_run :: "env \<Rightarrow> logins \<Rightarrow> logins \<Rightarrow> bool" where
  "logins_run e \<equiv> (logins_step e)\<^sup>*\<^sup>*"

text \<open>The tokens seen so far: a login stays in the list when it has ended.\<close>

definition tokens :: "logins \<Rightarrow> claims set" where
  "tokens x = fst ` set (lg_threads x)"

section \<open>Rows of users stay\<close>

lemma stmt_users:
  "stmt_insert_project p d = Inr d' \<Longrightarrow> t_users d' = t_users d"
  "stmt_insert_source cs d = Inr d' \<Longrightarrow> t_users d' = t_users d"
  "stmt_insert_group g d = Inr d' \<Longrightarrow> t_users d' = t_users d"
  "stmt_insert_member i j d = Inr d' \<Longrightarrow> t_users d' = t_users d"
  "stmt_upsert_role pr d = Inr d' \<Longrightarrow> t_users d' = t_users d"
  "stmt_insert_budget b d = Inr d' \<Longrightarrow> t_users d' = t_users d"
  "stmt_insert_record r d = Inr d' \<Longrightarrow> t_users d' = t_users d"
  "stmt_update_project i nm ds t d = Inr d' \<Longrightarrow> t_users d' = t_users d"
  "stmt_update_source i nm cf en t d = Inr d' \<Longrightarrow> t_users d' = t_users d"
  "stmt_update_collected i t t' d = Inr d' \<Longrightarrow> t_users d' = t_users d"
  "stmt_update_budget i l wt t d = Inr d' \<Longrightarrow> t_users d' = t_users d"
  "stmt_delete_source i d = Inr d' \<Longrightarrow> t_users d' = t_users d"
  "stmt_delete_project i d = Inr d' \<Longrightarrow> t_users d' = t_users d"
  "stmt_delete_member i j d = Inr d' \<Longrightarrow> t_users d' = t_users d"
  "stmt_delete_role i st j d = Inr d' \<Longrightarrow> t_users d' = t_users d"
  "stmt_delete_budget i d = Inr d' \<Longrightarrow> t_users d' = t_users d"
  by (auto simp: stmt_insert_project_def stmt_insert_source_def stmt_insert_group_def stmt_insert_member_def
      stmt_upsert_role_def stmt_insert_budget_def stmt_insert_record_def stmt_update_project_def stmt_update_source_def
      stmt_update_collected_def stmt_update_budget_def stmt_delete_source_def stmt_delete_project_def
      stmt_delete_member_def stmt_delete_role_def stmt_delete_budget_def cascade_sources_def Let_def split: if_splits)

lemmas exec_users = stmt_users [THEN exec_frame [where f = t_users]]

lemma insert_loop_users:
  "insert_records_loop e rs tx w = (Inr tx', w') \<Longrightarrow> t_users tx' = t_users tx"
proof (induction e rs tx w arbitrary: w' rule: insert_records_loop.induct)
  case (2 e r rs tx w)
  then show ?case
    by (auto simp: Let_def split: prod.splits if_splits sum.splits dest: stmt_users(7))
qed simp

lemma InsertCostRecords_users: "t_users (w_db (snd (InsertCostRecords e rs w))) = t_users (w_db w)"
  using insert_loop_world [of e rs "w_db w" "snd (driver_call e (snd (driver_call e w)))"] insert_loop_users
  by (fastforce simp: InsertCostRecords_def driver_call_def split: sum.splits prod.splits)

lemma store_step_users:
  "\<not> creates_user op \<Longrightarrow> t_users (w_db (store_step e op w)) = t_users (w_db w)"
  by (cases op) (simp_all add: write_defs Let_def case_prod_beta InsertCostRecords_users exec_users
      ensure_id_def newID_def now_def)

section \<open>One account per address\<close>

fun stage_user :: "stage \<Rightarrow> user option" where
  "stage_user (Syncing u gs) = Some u"
| "stage_user (MakingGroup u g gs) = Some u"
| "stage_user (JoiningGroup u g gs) = Some u"
| "stage_user (Provisioned (Inr u)) = Some u"
| "stage_user _ = None"

text \<open>The account of a user: all its columns but the time of creation, which the column may have rounded.\<close>

definition is_account :: "user \<Rightarrow> user_row \<Rightarrow> bool" where
  "is_account u r \<longleftrightarrow> u_id u = ur_id r \<and> u_email u = ur_email r \<and> u_display u = ur_display r
     \<and> u_subject u = null_text (ur_subject r)"

text \<open>The account a login goes on with is in the table, found by the subject or by the address of its token.\<close>

definition account_for :: "claims \<Rightarrow> user_row list \<Rightarrow> user \<Rightarrow> bool" where
  "account_for c rows u \<longleftrightarrow> (\<exists>r \<in> set rows. is_account u r
     \<and> (ur_subject r = Some (cl_subject c) \<or> ur_email r = cl_email c))"

definition thread_ok :: "user_row list \<Rightarrow> claims \<times> stage \<Rightarrow> bool" where
  "thread_ok rows = (\<lambda>(c, st). case stage_user st of None \<Rightarrow> True | Some u \<Rightarrow> account_for c rows u)"

definition logins_inv :: "logins \<Rightarrow> bool" where
  "logins_inv x \<longleftrightarrow> db_inv (w_db (lg_world x))
     \<and> list_all (thread_ok (t_users (w_db (lg_world x)))) (lg_threads x)"

text \<open>No subject changes its address: neither among the tokens \<open>cs\<close> nor from a stored account to a token.\<close>

definition one_address :: "claims set \<Rightarrow> user_row list \<Rightarrow> bool" where
  "one_address cs rows \<longleftrightarrow>
     (\<forall>c \<in> cs. (\<forall>c' \<in> cs. cl_subject c' = cl_subject c \<longrightarrow> cl_email c' = cl_email c)
        \<and> (\<forall>r \<in> set rows. ur_subject r = Some (cl_subject c) \<longrightarrow> ur_email r = cl_email c))"

lemma account_forI:
  "r \<in> set rows \<Longrightarrow> is_account u r \<Longrightarrow> ur_subject r = Some (cl_subject c) \<or> ur_email r = cl_email c \<Longrightarrow>
   account_for c rows u"
  unfolding account_for_def by blast

lemma account_for_mono: "account_for c rows u \<Longrightarrow> set rows \<subseteq> set rows' \<Longrightarrow> account_for c rows' u"
  unfolding account_for_def by blast

lemma thread_ok_mono: "thread_ok rows th \<Longrightarrow> set rows \<subseteq> set rows' \<Longrightarrow> thread_ok rows' th"
  by (cases th; cases "stage_user (snd th)") (auto simp: thread_ok_def intro: account_for_mono)

lemma scan_is_account [simp]: "is_account (scan_user r) r"
  by (simp add: is_account_def scan_user_def)

lemma kept_is_account: "is_account u (keep_user e (user_row_of u))"
  by (simp add: is_account_def user_row_of_def nullString_def null_text_def)

lemma lookup_found:
  assumes "query_rows e (\<lambda>d. map_option scan_user (find_row key k (t_users d))) w = (Inr (Some u), w1)"
  obtains r where "r \<in> set (t_users (w_db w))" "key r = k" "u = scan_user r"
proof -
  from query_rows_Inr [OF assms] obtain r where "find_row key k (t_users (w_db w)) = Some r" "u = scan_user r"
    by (cases "find_row key k (t_users (w_db w))") auto
  with find_row_Some that show thesis by metis
qed

text \<open>What one call of a login does to the users, and with what it goes on.\<close>

lemma login_step_outcome:
  assumes "login_step e c st w = (st', w')"
  obtains (kept) "t_users (w_db w') = t_users (w_db w)" "stage_user st' = stage_user st"
  | (failed) "t_users (w_db w') = t_users (w_db w)" "stage_user st' = None"
  | (subject) r where "t_users (w_db w') = t_users (w_db w)" "stage_user st' = Some (scan_user r)"
      "r \<in> set (t_users (w_db w))" "ur_subject r = Some (cl_subject c)"
  | (email) r where "t_users (w_db w') = t_users (w_db w)" "stage_user st' = Some (scan_user r)"
      "r \<in> set (t_users (w_db w))" "ur_email r = cl_email c"
  | (created) u where "t_users (w_db w') = t_users (w_db w) @ [keep_user e (user_row_of u)]" "stage_user st' = Some u"
      "u_email u = cl_email c" "u_subject u = cl_subject c"
proof (cases st)
  case BySubject
  obtain r w1 where g: "GetUserByOIDCSubject e (cl_subject c) w = (r, w1)" by fastforce
  have db: "w_db w1 = w_db w"
    by (rule query_rows_frame [OF g [unfolded GetUserByOIDCSubject_def]])
  have out: "w' = w1" "stage_user st' = (case r of Inl err \<Rightarrow> None | Inr found \<Rightarrow> found)"
    using assms BySubject g by (auto split: sum.splits option.splits)
  show thesis
  proof (cases "stage_user st'")
    case (Some u)
    with out have "r = Inr (Some u)" by (cases r) simp_all
    from lookup_found [OF g [unfolded GetUserByOIDCSubject_def this]] obtain r' where
      r': "r' \<in> set (t_users (w_db w))" "ur_subject r' = Some (cl_subject c)" "u = scan_user r'" .
    show thesis
      by (rule subject [of r']) (simp_all add: r' Some out(1) db)
  next
    case None
    show thesis
      by (rule failed) (simp_all add: None out(1) db)
  qed
next
  case ByEmail
  obtain r w1 where g: "GetUserByEmail e (cl_email c) w = (r, w1)" by fastforce
  have db: "w_db w1 = w_db w"
    by (rule query_rows_frame [OF g [unfolded GetUserByEmail_def]])
  have out: "w' = w1" "stage_user st' = (case r of Inl err \<Rightarrow> None | Inr found \<Rightarrow> found)"
    using assms ByEmail g by (auto split: sum.splits option.splits)
  show thesis
  proof (cases "stage_user st'")
    case (Some u)
    with out have "r = Inr (Some u)" by (cases r) simp_all
    from lookup_found [OF g [unfolded GetUserByEmail_def this]] obtain r' where
      r': "r' \<in> set (t_users (w_db w))" "ur_email r' = cl_email c" "u = scan_user r'" .
    show thesis
      by (rule email [of r']) (simp_all add: r' Some out(1) db)
  next
    case None
    show thesis
      by (rule failed) (simp_all add: None out(1) db)
  qed
next
  case Creating
  let ?u = "\<lparr>u_id = '''', u_email = cl_email c, u_display = (if cl_name c = '''' then cl_email c else cl_name c),
      u_subject = cl_subject c, u_created = 0\<rparr>"
  obtain r w1 where g: "CreateUser e ?u w = (r, w1)" by fastforce
  show thesis
  proof (cases r)
    case (Inl err)
    with assms Creating g have "w' = w1" "stage_user st' = None" by (auto simp: Let_def)
    with CreateUser_Inl [OF g [unfolded Inl]] failed show thesis by simp
  next
    case (Inr u)
    note cu = CreateUser_Inr [OF g [unfolded Inr]]
    from assms Creating g Inr have "st' = Syncing u (cl_groups c)" "w' = w1" by (simp_all add: Let_def)
    with cu insert_user_rows [OF cu(1)] created show thesis by simp
  qed
next
  case (Syncing u gs)
  have "t_users (w_db w') = t_users (w_db w) \<and> stage_user st' = stage_user st"
  proof (cases gs)
    case (Cons g gs')
    obtain r w1 where g: "GetGroupByOIDCClaim e g w = (r, w1)" by fastforce
    with GetGroupByOIDCClaim_db [of e g w] have "w_db w1 = w_db w" by simp
    with assms Syncing Cons g show ?thesis
      by (auto split: sum.splits option.splits)
  qed (use assms Syncing in auto)
  then show thesis using kept by simp
next
  case (MakingGroup u g gs)
  let ?g = "\<lparr>g_id = '''', g_name = g, g_claim = g, g_created = 0\<rparr>"
  obtain r w1 where c: "CreateGroup e ?g w = (r, w1)" by fastforce
  with CreateGroup_users [of e ?g w] have "t_users (w_db w1) = t_users (w_db w)" by simp
  with assms MakingGroup c have "t_users (w_db w') = t_users (w_db w) \<and> stage_user st' = stage_user st"
    by (auto split: sum.splits)
  then show thesis using kept by simp
next
  case (JoiningGroup u g gs)
  with assms have "st' = Syncing u gs" "w' = snd (AddGroupMember e g (u_id u) w)" by auto
  with JoiningGroup show thesis using kept by simp
next
  case (Provisioned r)
  with assms show thesis using kept by simp
qed

lemma login_step_db:
  assumes "login_step e c st w = (st', w')"
  shows "w_db w' = w_db w \<or> (\<exists>u. w' = snd (CreateUser e u w)) \<or> (\<exists>g. w' = snd (CreateGroup e g w))
    \<or> (\<exists>g u. w' = snd (AddGroupMember e g u w))"
proof (cases st)
  case BySubject
  obtain r w1 where "GetUserByOIDCSubject e (cl_subject c) w = (r, w1)" by fastforce
  with assms BySubject query_rows_frame [OF this [unfolded GetUserByOIDCSubject_def]] show ?thesis
    by (auto split: sum.splits option.splits)
next
  case ByEmail
  obtain r w1 where "GetUserByEmail e (cl_email c) w = (r, w1)" by fastforce
  with assms ByEmail query_rows_frame [OF this [unfolded GetUserByEmail_def]] show ?thesis
    by (auto split: sum.splits option.splits)
next
  case Creating
  let ?u = "\<lparr>u_id = '''', u_email = cl_email c, u_display = (if cl_name c = '''' then cl_email c else cl_name c),
      u_subject = cl_subject c, u_created = 0\<rparr>"
  obtain r w1 where g: "CreateUser e ?u w = (r, w1)" by fastforce
  with assms Creating have "w' = w1" by (auto simp: Let_def split: sum.splits)
  with g have "w' = snd (CreateUser e ?u w)" by simp
  then show ?thesis by blast
next
  case (Syncing u gs)
  show ?thesis
  proof (cases gs)
    case (Cons g gs')
    obtain r w1 where g: "GetGroupByOIDCClaim e g w = (r, w1)" by fastforce
    with GetGroupByOIDCClaim_db [of e g w] have "w_db w1 = w_db w" by simp
    with assms Syncing Cons g show ?thesis
      by (auto split: sum.splits option.splits)
  qed (use assms Syncing in auto)
next
  case (MakingGroup u g gs)
  let ?g = "\<lparr>g_id = '''', g_name = g, g_claim = g, g_created = 0\<rparr>"
  obtain r w1 where c: "CreateGroup e ?g w = (r, w1)" by fastforce
  with assms MakingGroup have "w' = w1" by (auto split: sum.splits)
  with c have "w' = snd (CreateGroup e ?g w)" by simp
  then show ?thesis by blast
qed (use assms in auto)

lemma login_step_db_inv:
  assumes "login_step e c st w = (st', w')" and "db_inv (w_db w)"
  shows "db_inv (w_db w')"
  using login_step_db [OF assms(1)] store_step_inv [OF assms(2), of e "OpCreateUser _"]
    CreateGroup_inv [OF assms(2)] AddGroupMember_inv [OF assms(2)] assms(2) by auto

lemma login_step_ok:
  assumes "login_step e c st w = (st', w')" and "thread_ok (t_users (w_db w)) (c, st)"
  shows "thread_ok (t_users (w_db w')) (c, st')" and "set (t_users (w_db w)) \<subseteq> set (t_users (w_db w'))"
  using assms(1)
proof (atomize (full), cases rule: login_step_outcome)
  case (subject r)
  then show "thread_ok (t_users (w_db w')) (c, st') \<and> set (t_users (w_db w)) \<subseteq> set (t_users (w_db w'))"
    by (simp add: thread_ok_def account_forI [of r])
next
  case (email r)
  then show "thread_ok (t_users (w_db w')) (c, st') \<and> set (t_users (w_db w)) \<subseteq> set (t_users (w_db w'))"
    by (simp add: thread_ok_def account_forI [of r])
next
  case (created u)
  then show "thread_ok (t_users (w_db w')) (c, st') \<and> set (t_users (w_db w)) \<subseteq> set (t_users (w_db w'))"
    using account_forI [of "keep_user e (user_row_of u)" "t_users (w_db w')" u c] kept_is_account [of u e]
    by (auto simp: thread_ok_def user_row_of_def)
qed (use assms in \<open>simp_all add: thread_ok_def\<close>)

lemma login_step_address:
  assumes "login_step e c st w = (st', w')" and "one_address cs (t_users (w_db w))" and "c \<in> cs"
  shows "one_address cs (t_users (w_db w'))"
  using assms(1)
proof (cases rule: login_step_outcome)
  case (created u)
  have same: "cl_email c' = cl_email c" if "c' \<in> cs" "cl_subject c' = cl_subject c" for c'
    using assms(2,3) that unfolding one_address_def by blast
  show ?thesis
    unfolding one_address_def
  proof (intro ballI conjI impI)
    fix c1 c2 assume "c1 \<in> cs" "c2 \<in> cs" "cl_subject c2 = cl_subject c1"
    with assms(2) show "cl_email c2 = cl_email c1" unfolding one_address_def by blast
  next
    fix c1 row assume c1: "c1 \<in> cs" "row \<in> set (t_users (w_db w'))" "ur_subject row = Some (cl_subject c1)"
    show "ur_email row = cl_email c1"
    proof (cases "row \<in> set (t_users (w_db w))")
      case True
      with c1 assms(2) show ?thesis unfolding one_address_def by blast
    next
      case False
      with c1(2) created(1) have row: "row = keep_user e (user_row_of u)" by simp
      with c1(3) created(4) have "cl_subject c1 = cl_subject c"
        by (simp add: user_row_of_def nullString_def split: if_splits)
      with row created(3) same [OF c1(1)] show ?thesis by (simp add: user_row_of_def)
    qed
  qed
qed (use assms in simp_all)

lemma logins_step_inv: "logins_step e x y \<Longrightarrow> logins_inv x \<Longrightarrow> logins_inv y"
proof (erule logins_stepE)
  fix c
  assume "logins_inv x" "y = x\<lparr>lg_threads := lg_threads x @ [(c, BySubject)]\<rparr>"
  then show "logins_inv y" by (simp add: logins_inv_def thread_ok_def)
next
  fix i c st st' w
  assume inv: "logins_inv x" and y: "y = x\<lparr>lg_threads := (lg_threads x)[i := (c, st')], lg_world := w\<rparr>"
    and i: "i < length (lg_threads x)" "lg_threads x ! i = (c, st)" and s: "login_step e c st (lg_world x) = (st', w)"
  let ?rows = "t_users (w_db (lg_world x))"
  from inv have ok: "db_inv (w_db (lg_world x))" "list_all (thread_ok ?rows) (lg_threads x)"
    by (simp_all add: logins_inv_def)
  with i have "thread_ok ?rows (c, st)" by (metis list_all_length)
  note step = login_step_ok [OF s this]
  have "list_all (thread_ok (t_users (w_db w))) ((lg_threads x)[i := (c, st')])"
    using ok(2) thread_ok_mono [OF _ step(2)] step(1) set_update_subset_insert [of "lg_threads x" i "(c, st')"]
    by (auto simp: list_all_iff)
  with login_step_db_inv [OF s ok(1)] y show "logins_inv y" by (simp add: logins_inv_def)
next
  fix op
  assume "logins_inv x" "y = x\<lparr>lg_world := store_step e op (lg_world x)\<rparr>" "\<not> creates_user op"
  then show "logins_inv y" by (simp add: logins_inv_def store_step_users store_step_inv)
qed

interpretation login_steps: step_invariant "logins_step e" logins_inv for e
  by unfold_locales (rule logins_step_inv)

text \<open>As long as only tokens of \<open>cs\<close> arrive, no account is stored with another address for one of their subjects.\<close>

lemma tokens_step: "logins_step e x y \<Longrightarrow> tokens x \<subseteq> tokens y"
proof (erule logins_stepE)
  fix i c st st' w
  assume y: "y = x\<lparr>lg_threads := (lg_threads x)[i := (c, st')], lg_world := w\<rparr>"
    and i: "i < length (lg_threads x)" "lg_threads x ! i = (c, st)"
  have "map fst ((lg_threads x)[i := (c, st')]) = map fst (lg_threads x)"
    using i by (simp add: map_update list_update_same_conv)
  with y have "map fst (lg_threads y) = map fst (lg_threads x)" by simp
  then show "tokens x \<subseteq> tokens y" unfolding tokens_def by (metis list.set_map order_refl)
qed (auto simp: tokens_def)

lemma address_step:
  assumes "logins_step e x y" and "tokens x \<subseteq> cs \<longrightarrow> one_address cs (t_users (w_db (lg_world x)))"
  shows "tokens y \<subseteq> cs \<longrightarrow> one_address cs (t_users (w_db (lg_world y)))"
proof
  assume "tokens y \<subseteq> cs"
  with tokens_step [OF assms(1)] assms(2) have cs: "tokens x \<subseteq> cs" "one_address cs (t_users (w_db (lg_world x)))"
    by auto
  show "one_address cs (t_users (w_db (lg_world y)))"
    using assms(1)
  proof (rule logins_stepE)
    fix i c st st' w
    assume y: "y = x\<lparr>lg_threads := (lg_threads x)[i := (c, st')], lg_world := w\<rparr>"
      and i: "i < length (lg_threads x)" "lg_threads x ! i = (c, st)" and s: "login_step e c st (lg_world x) = (st', w)"
    from i have "c \<in> tokens x" unfolding tokens_def by (metis fst_conv image_eqI nth_mem)
    with cs(1) login_step_address [OF s cs(2)] y show ?thesis by auto
  qed (use cs in \<open>simp_all add: store_step_users\<close>)
qed

interpretation address_steps: step_invariant "logins_step e"
    "\<lambda>x. tokens x \<subseteq> cs \<longrightarrow> one_address cs (t_users (w_db (lg_world x)))" for e cs
  by unfold_locales (rule address_step)

lemma account_address:
  assumes "one_address cs rows" and "c \<in> cs" and "account_for c rows u"
  obtains r where "r \<in> set rows" "is_account u r" "ur_email r = cl_email c"
  using assms unfolding account_for_def one_address_def by blast

text \<open>
  C30: However logins overlap with each other and with all other work on the store, and whatever calls fail: a login
  that ends with an account ends with one that is in the table and has the subject or the e-mail address of
  its token. If no subject has changed its address, that is, the tokens of one subject carry one address, and
  an account stored before for their subject has it too, then the account has the address of the token, and
  two logins end with the same account exactly when their tokens carry the same address.
\<close>

theorem one_account_per_address:
  assumes "logins_run e \<lparr>lg_world = w, lg_threads = []\<rparr> x" and "db_inv (w_db w)"
    and "(c, Provisioned (Inr u)) \<in> set (lg_threads x)" and "(c', Provisioned (Inr u')) \<in> set (lg_threads x)"
  shows "account_for c (t_users (w_db (lg_world x))) u
    \<and> (one_address (tokens x) (t_users (w_db w)) \<longrightarrow>
         u_email u = cl_email c \<and> (u_id u' = u_id u \<longleftrightarrow> cl_email c' = cl_email c))"
proof (intro conjI impI)
  let ?rows = "t_users (w_db (lg_world x))"
  have "logins_inv x"
    using login_steps.run_keeps [OF assms(1)] assms(2) by (simp add: logins_inv_def)
  then have keys: "distinct (map ur_email ?rows)" "distinct (map ur_id ?rows)"
    and ths: "list_all (thread_ok ?rows) (lg_threads x)"
    by (simp_all add: logins_inv_def db_inv_def keys_inv_def)
  from ths assms(3,4) have found: "account_for c ?rows u" "account_for c' ?rows u'"
    unfolding list_all_iff thread_ok_def by fastforce+
  show "account_for c ?rows u" by (rule found(1))
  assume "one_address (tokens x) (t_users (w_db w))"
  with address_steps.run_keeps [OF assms(1), of "tokens x"] have one: "one_address (tokens x) ?rows" by simp
  have "c \<in> tokens x" "c' \<in> tokens x" using assms(3,4) unfolding tokens_def by force+
  then obtain r r' where r: "r \<in> set ?rows" "is_account u r" "ur_email r = cl_email c"
    and r': "r' \<in> set ?rows" "is_account u' r'" "ur_email r' = cl_email c'"
    using account_address [OF one] found by metis
  show "u_email u = cl_email c" using r by (simp add: is_account_def)
  have inj: "inj_on ur_email (set ?rows)" "inj_on ur_id (set ?rows)" using keys by (simp_all add: distinct_map)
  have "ur_email r' = ur_email r \<longleftrightarrow> r' = r" and "ur_id r' = ur_id r \<longleftrightarrow> r' = r"
    by (rule inj_on_eq_iff [OF inj(1) r'(1) r(1)], rule inj_on_eq_iff [OF inj(2) r'(1) r(1)])
  with r(2,3) r'(2,3) show "u_id u' = u_id u \<longleftrightarrow> cl_email c' = cl_email c" by (simp add: is_account_def)
qed

section \<open>Two first logins at once\<close>

definition first_claims :: claims where
  "first_claims = \<lparr>cl_email = ''c@d'', cl_name = ''C'', cl_groups = [], cl_subject = ''s2''\<rparr>"

abbreviation first_step :: "stage \<Rightarrow> world \<Rightarrow> stage \<times> world" where
  "first_step \<equiv> login_step sample_env first_claims"

lemma first_lookups:
  assumes "t_users (w_db w) = []"
  shows "first_step BySubject w = (ByEmail, w\<lparr>w_calls := Suc (w_calls w)\<rparr>)"
    and "first_step ByEmail w = (Creating, w\<lparr>w_calls := Suc (w_calls w)\<rparr>)"
  using assms by (simp_all add: GetUserByOIDCSubject_def GetUserByEmail_def query_rows_def driver_call_def
      sample_env_def find_row_def)

lemma first_create:
  assumes "t_users (w_db w) = []"
  obtains u w' where "first_step Creating w = (Syncing u [], w')" "t_users (w_db w') = [user_row_of u]"
    "u_email u = ''c@d''" "u_subject u = ''s2''"
proof -
  let ?u = "\<lparr>u_id = ''id-'' @ Itoa (w_ids w), u_email = ''c@d'', u_display = ''C'', u_subject = ''s2'',
      u_created = int (w_ticks w)\<rparr>"
  obtain st w' where step: "first_step Creating w = (st, w')" by fastforce
  then have "st = Syncing ?u [] \<and> t_users (w_db w') = [user_row_of ?u]"
    using assms by (auto simp: first_claims_def CreateUser_def ensure_id_def newID_def now_def exec_def driver_call_def
      sample_env_def stmt_insert_user_def user_row_of_def nullString_def user_ids_def subjects_def keep_user_def Let_def)
  with step that show thesis by simp
qed

lemma second_create:
  assumes "t_users (w_db w) = [user_row_of u]" and "u_email u = ''c@d''"
  obtains w' where "first_step Creating w = (Provisioned (Inl UniqueViolation), w')"
  using assms by (simp add: first_claims_def CreateUser_def ensure_id_def newID_def now_def exec_def driver_call_def
      sample_env_def stmt_insert_user_def user_row_of_def Let_def)

lemma known_lookup:
  assumes "t_users (w_db w) = [user_row_of u]" and "u_subject u = ''s2''"
  shows "first_step BySubject w = (Provisioned (Inr u), w\<lparr>w_calls := Suc (w_calls w)\<rparr>)"
proof -
  have "find_row ur_subject (Some ''s2'') [user_row_of u] = Some (user_row_of u)"
    using assms(2) by (simp add: find_row_singleton user_row_of_def nullString_def)
  with assms(1) show ?thesis
    by (simp add: first_claims_def GetUserByOIDCSubject_def query_rows_def driver_call_def sample_env_def)
qed

abbreviation two_logins :: "stage \<Rightarrow> stage \<Rightarrow> world \<Rightarrow> logins" where
  "two_logins st st' w \<equiv> \<lparr>lg_world = w, lg_threads = [(first_claims, st), (first_claims, st')]\<rparr>"

lemma two_logins_step:
  "first_step st w = (st1, w1) \<Longrightarrow> logins_step sample_env (two_logins st st' w) (two_logins st1 st' w1)"
  "first_step st' w = (st1, w1) \<Longrightarrow> logins_step sample_env (two_logins st st' w) (two_logins st st1 w1)"
  using logins_step.call [of 0 "two_logins st st' w" first_claims st sample_env st1 w1]
    logins_step.call [of 1 "two_logins st st' w" first_claims st' sample_env st1 w1] by simp_all

lemma two_arrive:
  "logins_run sample_env \<lparr>lg_world = w, lg_threads = []\<rparr> (two_logins BySubject BySubject w)"
proof -
  have "logins_step sample_env \<lparr>lg_world = w, lg_threads = []\<rparr>
      \<lparr>lg_world = w, lg_threads = [(first_claims, BySubject)]\<rparr>"
    using logins_step.arrive [of sample_env "\<lparr>lg_world = w, lg_threads = []\<rparr>" first_claims] by simp
  moreover have "logins_step sample_env \<lparr>lg_world = w, lg_threads = [(first_claims, BySubject)]\<rparr>
      (two_logins BySubject BySubject w)"
    using logins_step.arrive [of sample_env "\<lparr>lg_world = w, lg_threads = [(first_claims, BySubject)]\<rparr>" first_claims] by simp
  ultimately show ?thesis by (meson converse_rtranclp_into_rtranclp rtranclp.rtrancl_refl)
qed

lemma init_users: "t_users (w_db init_world) = []"
  by (simp add: init_world_def empty_tables_def)

text \<open>One after the other the two get the same account.\<close>

lemma logins_in_turn:
  obtains u x where "logins_run sample_env \<lparr>lg_world = init_world, lg_threads = []\<rparr> x"
    "lg_threads x = [(first_claims, Provisioned (Inr u)), (first_claims, Provisioned (Inr u))]"
proof -
  let ?w1 = "init_world\<lparr>w_calls := Suc (w_calls init_world)\<rparr>"
  let ?w2 = "?w1\<lparr>w_calls := Suc (w_calls ?w1)\<rparr>"
  have users: "t_users (w_db ?w1) = []" "t_users (w_db ?w2) = []" using init_users by simp_all
  from first_create [OF users(2)] obtain u w3 where c: "first_step Creating ?w2 = (Syncing u [], w3)"
    "t_users (w_db w3) = [user_row_of u]" "u_subject u = ''s2''" by metis
  note run = two_arrive [of init_world]
    two_logins_step(1) [OF first_lookups(1) [OF init_users]]
    two_logins_step(1) [OF first_lookups(2) [OF users(1)]]
    two_logins_step(1) [OF c(1)]
    two_logins_step(1) [of "Syncing u []" w3 "Provisioned (Inr u)" w3]
    two_logins_step(2) [OF known_lookup [OF c(2,3)]]
  have "logins_run sample_env \<lparr>lg_world = init_world, lg_threads = []\<rparr>
      (two_logins (Provisioned (Inr u)) (Provisioned (Inr u)) (w3\<lparr>w_calls := Suc (w_calls w3)\<rparr>))"
    by (rule rtranclp.rtrancl_into_rtrancl, rule rtranclp.rtrancl_into_rtrancl, rule rtranclp.rtrancl_into_rtrancl,
        rule rtranclp.rtrancl_into_rtrancl, rule rtranclp.rtrancl_into_rtrancl, rule run(1), rule run(2), rule run(3),
        rule run(4), rule run(5), simp, rule run(6))
  then show thesis by (rule that) simp
qed

theorem one_account_per_address_witness:
  "\<exists>u (x :: logins). (first_claims, Provisioned (Inr u)) \<in> set (lg_threads x) \<and> u_email u = ''c@d''
     \<and> account_for first_claims (t_users (w_db (lg_world x))) u"
proof -
  obtain u x where run: "logins_run sample_env \<lparr>lg_world = init_world, lg_threads = []\<rparr> x"
    and ths: "lg_threads x = [(first_claims, Provisioned (Inr u)), (first_claims, Provisioned (Inr u))]"
    using logins_in_turn .
  have inv: "db_inv (w_db init_world)" using db_inv_empty by (simp add: init_world_def)
  have steady: "one_address (tokens x) (t_users (w_db init_world))"
    by (simp add: one_address_def tokens_def ths init_users)
  have mem: "(first_claims, Provisioned (Inr u)) \<in> set (lg_threads x)" by (simp add: ths)
  from one_account_per_address [OF run inv mem mem] steady
  have "u_email u = ''c@d''" "account_for first_claims (t_users (w_db (lg_world x))) u"
    by (simp_all add: first_claims_def)
  with mem show ?thesis by blast
qed

text \<open>
  C35: Of two first logins of one person at the same time, one fails with a violated uniqueness constraint although
  no call to the database fails: both look the person up before either has stored the account. \<open>HandleCallback\<close>
  answers it with status 500.
\<close>

theorem first_logins_collide:
  "\<exists>u x. logins_run sample_env \<lparr>lg_world = init_world, lg_threads = []\<rparr> x
     \<and> lg_threads x = [(first_claims, Provisioned (Inr u)), (first_claims, Provisioned (Inl UniqueViolation))]
     \<and> (\<forall>n. \<not> e_fault sample_env n)"
proof -
  let ?w1 = "init_world\<lparr>w_calls := Suc (w_calls init_world)\<rparr>"
  let ?w2 = "?w1\<lparr>w_calls := Suc (w_calls ?w1)\<rparr>"
  let ?w3 = "?w2\<lparr>w_calls := Suc (w_calls ?w2)\<rparr>"
  let ?w4 = "?w3\<lparr>w_calls := Suc (w_calls ?w3)\<rparr>"
  have users: "t_users (w_db ?w1) = []" "t_users (w_db ?w2) = []" "t_users (w_db ?w3) = []" "t_users (w_db ?w4) = []"
    using init_users by simp_all
  from first_create [OF users(4)] obtain u w5 where c: "first_step Creating ?w4 = (Syncing u [], w5)"
    "t_users (w_db w5) = [user_row_of u]" "u_email u = ''c@d''" by metis
  from second_create [OF c(2,3)] obtain w6 where f: "first_step Creating w5 = (Provisioned (Inl UniqueViolation), w6)" .
  note run = two_arrive [of init_world]
    two_logins_step(1) [OF first_lookups(1) [OF init_users]]
    two_logins_step(2) [OF first_lookups(1) [OF users(1)]]
    two_logins_step(1) [OF first_lookups(2) [OF users(2)]]
    two_logins_step(2) [OF first_lookups(2) [OF users(3)]]
    two_logins_step(1) [OF c(1)]
    two_logins_step(2) [OF f]
    two_logins_step(1) [of "Syncing u []" w6 "Provisioned (Inr u)" w6]
  have "logins_run sample_env \<lparr>lg_world = init_world, lg_threads = []\<rparr>
      (two_logins (Provisioned (Inr u)) (Provisioned (Inl UniqueViolation)) w6)"
    by (rule rtranclp.rtrancl_into_rtrancl, rule rtranclp.rtrancl_into_rtrancl, rule rtranclp.rtrancl_into_rtrancl,
        rule rtranclp.rtrancl_into_rtrancl, rule rtranclp.rtrancl_into_rtrancl, rule rtranclp.rtrancl_into_rtrancl,
        rule rtranclp.rtrancl_into_rtrancl, rule run(1), rule run(2), rule run(3),
        rule run(4), rule run(5), rule run(6), rule run(7), rule run(8), simp)
  then show ?thesis by (intro exI conjI) (assumption, simp, simp add: sample_env_def)
qed

lemma callback_provision_failed:
  "provisionUser e (cl_subject c) (cl_email c) (cl_name c) (cl_groups c) w = (Inl err, w') \<Longrightarrow>
   rs_status (fst (callback_session m e c rq w)) = StatusInternalServerError"
  by (simp add: callback_session_def writeJSON_def)

section \<open>From the login page to the session\<close>

text \<open>\<open>rand.Read\<close> fills the whole buffer when it does not fail.\<close>

definition random_ok :: "'t idp \<Rightarrow> bool" where
  "random_ok i \<longleftrightarrow> (\<forall>k n b. im_random i k n = Some b \<longrightarrow> length b = n)"

lemma generateState_Some:
  assumes "random_ok i" and "generateState i k = Some s"
  obtains b where "im_random i k 32 = Some b" "s = EncodeToString b" "length s = 44" "list_all cookie_char s"
proof (cases "im_random i k 32")
  case (Some b)
  with assms have "s = EncodeToString b" "length b = 32" by (simp_all add: generateState_def random_ok_def)
  with Some that [of b] show thesis by (simp add: length_EncodeToString EncodeToString_cookie)
qed (use assms in \<open>simp add: generateState_def\<close>)

text \<open>Two logins have the same state only for the same random bytes.\<close>

lemma states_differ:
  "generateState i k = Some s \<Longrightarrow> generateState i k' = Some s \<Longrightarrow> im_random i k' 32 = im_random i k 32"
  by (auto simp: generateState_def split: option.splits)

lemma HandleLogin_cookie:
  assumes "HandleLogin m k rq w = (rs, w')" and "ck \<in> set (rs_cookies rs)"
  shows "\<not> am_disabled m" and "generateState (am_idp m) k = Some (ck_value ck)" and "w' = w"
    and "ck_name ck = stateCookieName" and "rs_status rs = StatusFound"
    and "rs_location rs = Some (im_auth_url (am_idp m) (ck_value ck))"
  using assms by (auto simp: HandleLogin_def writeJSON_def SetCookie_def Redirect_def split: if_splits option.splits)

lemma HandleCallback_completes:
  assumes "\<not> am_disabled m" and "Cookie stateCookieName rq = Some v" and "QueryGet ''state'' rq = v" and "v \<noteq> ''''"
    and "QueryGet ''code'' rq = code" and "code \<noteq> ''''" and "im_exchange (am_idp m) code = Some (Some raw)"
    and "im_verify (am_idp m) raw = Some tok" and "im_claims (am_idp m) tok = Some c"
    and "provisionUser e (cl_subject c) (cl_email c) (cl_name c) (cl_groups c) w = (Inr u, w1)"
    and "encodeSession m \<lparr>sd_user = u_id u, sd_email = u_email u, sd_display = u_display u,
           sd_groups = cl_groups c, sd_expires = e_clock e (w_ticks w1) + sessionMaxAge\<rparr> = Some sv"
  shows "HandleCallback m e rq w =
     (SetCookie (clear_cookie stateCookieName)
        (SetCookie \<lparr>ck_name = sessionCookieName, ck_value = sv, ck_max_age = sessionMaxAge div second\<rparr> (Redirect ''/'')),
      w1\<lparr>w_ticks := Suc (w_ticks w1)\<rparr>)"
  using assms by (simp add: HandleCallback_def callback_token_def callback_session_def now_def)

text \<open>
  C39: A login that starts at the login page is completed: the state in its cookie is 44 characters of which none
  is changed by being put in a cookie, and is the one sent to the provider; if the browser comes back with both and
  with a code the provider accepts, and the account can be provisioned and the session encoded, it is sent to the
  front page with a session cookie, and the cookie passes the middleware until 24 hours later.
\<close>

theorem login_completes:
  assumes "random_ok (am_idp m)" and "codec_ok m"
    and "HandleLogin m k rq0 w0 = (rs, w0')" and "ck \<in> set (rs_cookies rs)"
    and "Cookie stateCookieName rq = Some (ck_value ck)" and "QueryGet ''state'' rq = ck_value ck"
    and "QueryGet ''code'' rq = code" and "code \<noteq> ''''" and "im_exchange (am_idp m) code = Some (Some raw)"
    and "im_verify (am_idp m) raw = Some tok" and "im_claims (am_idp m) tok = Some c"
    and "provisionUser e (cl_subject c) (cl_email c) (cl_name c) (cl_groups c) w = (Inr u, w1)"
    and "encodeSession m \<lparr>sd_user = u_id u, sd_email = u_email u, sd_display = u_display u,
           sd_groups = cl_groups c, sd_expires = e_clock e (w_ticks w1) + sessionMaxAge\<rparr> = Some sv"
    and "Cookie sessionCookieName rq2 = Some sv" and "e_clock e2 (w_ticks w2) \<le> e_clock e (w_ticks w1) + sessionMaxAge"
  shows "rs_location rs = Some (im_auth_url (am_idp m) (ck_value ck)) \<and> length (ck_value ck) = 44
    \<and> list_all cookie_char (ck_value ck)
    \<and> (\<exists>rs' w' s. HandleCallback m e rq w = (rs', w') \<and> rs_status rs' = StatusFound \<and> rs_location rs' = Some ''/''
        \<and> \<lparr>ck_name = sessionCookieName, ck_value = sv, ck_max_age = sessionMaxAge div second\<rparr> \<in> set (rs_cookies rs')
        \<and> w_db w' = w_db w1 \<and> sd_user s = u_id u
        \<and> fst (Middleware m e2 rq2 w2) = Inr (rq2\<lparr>rq_session := Some s\<rparr>))"
proof -
  note login = HandleLogin_cookie [OF assms(3,4)]
  obtain b where state: "length (ck_value ck) = 44" "list_all cookie_char (ck_value ck)"
    using generateState_Some [OF assms(1) login(2)] .
  then have "ck_value ck \<noteq> ''''" by auto
  note cb = HandleCallback_completes [OF login(1) assms(5,6) this assms(7-13)]
  note dec = decode_encode [OF assms(2,13)]
  have "fst (Middleware m e2 rq2 w2) = Inr (rq2\<lparr>rq_session := Some \<lparr>sd_user = u_id u, sd_email = u_email u,
      sd_display = u_display u, sd_groups = cl_groups c, sd_expires = e_clock e (w_ticks w1) + sessionMaxAge\<rparr>\<rparr>)"
    using login(1) dec assms(14,15) by (simp add: Middleware_def now_def)
  with cb state login(6) show ?thesis
    by (simp add: SetCookie_def Redirect_def) (metis session_data.select_convs(1))
qed

definition login_state :: string where
  "login_state = EncodeToString (replicate 32 0)"

definition return_request :: request where
  "return_request = \<lparr>rq_params = [], rq_query = [(''state'', login_state), (''code'', ''s2'')],
     rq_cookies = [(stateCookieName, login_state)], rq_body = None, rq_session = None\<rparr>"

theorem login_completes_witness:
  "\<exists>rs' w'. HandleCallback sample_manager sample_env return_request init_world = (rs', w')
     \<and> rs_location rs' = Some ''/'' \<and> length login_state = 44"
proof -
  let ?ck = "\<lparr>ck_name = stateCookieName, ck_value = login_state, ck_max_age = 300\<rparr>"
  let ?u = "\<lparr>u_id = ''id-0'', u_email = ''c@d'', u_display = ''C'', u_subject = ''s2'', u_created = 0\<rparr>"
  have rand: "random_ok (am_idp sample_manager)" by (simp add: random_ok_def sample_manager_def sample_idp_def)
  obtain rs where login: "HandleLogin sample_manager 0 return_request init_world = (rs, init_world)" "?ck \<in> set (rs_cookies rs)"
    by (simp add: HandleLogin_def generateState_def sample_manager_def sample_idp_def login_state_def SetCookie_def)
  have rq: "Cookie stateCookieName return_request = Some (ck_value ?ck)" "QueryGet ''state'' return_request = ck_value ?ck"
    "QueryGet ''code'' return_request = ''s2''" "''s2'' \<noteq> ''''"
    by (simp_all add: return_request_def Cookie_def QueryGet_def)
  have pu: "provisionUser sample_env (cl_subject sample_claims) (cl_email sample_claims) (cl_name sample_claims)
      (cl_groups sample_claims) init_world = (Inr ?u, login_world)"
    using sample_login by (simp only: sample_claims_def claims.simps login_world_def)
  have enc: "encodeSession sample_manager \<lparr>sd_user = u_id ?u, sd_email = u_email ?u, sd_display = u_display ?u,
      sd_groups = cl_groups sample_claims, sd_expires = e_clock sample_env (w_ticks login_world) + sessionMaxAge\<rparr> = Some ''tok''"
    using sample_encoded by (simp only: sample_claims_def claims.simps user.simps login_session_def)
  have sess: "Cookie sessionCookieName session_request = Some ''tok''" by (simp add: session_request_def Cookie_def)
  have time: "e_clock sample_env (w_ticks init_world) \<le> e_clock sample_env (w_ticks login_world) + sessionMaxAge"
    by (simp add: sample_env_def init_world_def sessionMaxAge_def hour_def minute_def second_def)
  from login_completes [OF rand sample_codec_ok login rq sample_idp_facts pu enc sess time]
  show ?thesis by auto
qed

end
