(* ===== verification/Scheduler_Laws.thy ===== *)
theory Scheduler_Laws
  imports Scheduler
begin

text \<open>
  What the scheduler promises: a pass never panics, keeps the schema invariant, only adds
  cost records and stamps collection times, and stamps only sources it is meant to visit; a source is
  stamped only after its records are stored, and its next window starts after the last one ended.
\<close>

section \<open>Frame of a pass\<close>

definition restamped :: "cost_source \<Rightarrow> cost_source \<Rightarrow> bool" where
  "restamped a b \<longleftrightarrow> b = a\<lparr>cs_collected := cs_collected b, cs_updated := cs_updated b\<rparr>"

lemma restamped_refl: "restamped a a"
  by (simp add: restamped_def)

lemma restamped_fields:
  assumes "restamped a b"
  shows "cs_id b = cs_id a" "cs_enabled b = cs_enabled a" "cs_type b = cs_type a" "cs_project b = cs_project a"
proof -
  from assms obtain t u where "b = a\<lparr>cs_collected := t, cs_updated := u\<rparr>"
    unfolding restamped_def by blast
  then show "cs_id b = cs_id a" "cs_enabled b = cs_enabled a" "cs_type b = cs_type a" "cs_project b = cs_project a"
    by simp_all
qed

lemma restampedI: "b = a\<lparr>cs_collected := t, cs_updated := u\<rparr> \<Longrightarrow> restamped a b"
  by (simp add: restamped_def)

lemma restamped_trans: "restamped a b \<Longrightarrow> restamped b c \<Longrightarrow> restamped a c"
proof -
  assume "restamped a b" "restamped b c"
  then obtain t u t' u' where "b = a\<lparr>cs_collected := t, cs_updated := u\<rparr>" "c = b\<lparr>cs_collected := t', cs_updated := u'\<rparr>"
    unfolding restamped_def by blast
  then show "restamped a c" by (intro restampedI [where t = t' and u = u']) simp
qed

text \<open>The rows of the sources before and after: only those in \<open>W\<close> may be stamped.\<close>

definition stamped_in :: "string set \<Rightarrow> cost_source \<Rightarrow> cost_source \<Rightarrow> bool" where
  "stamped_in W a b \<longleftrightarrow> b = a \<or> cs_id a \<in> W \<and> restamped a b"

lemma stamped_in_trans: "stamped_in W a b \<Longrightarrow> stamped_in W b c \<Longrightarrow> stamped_in W a c"
  using restamped_trans restamped_fields(1) by (auto simp: stamped_in_def)

lemma stamped_in_restamped: "stamped_in W a b \<Longrightarrow> restamped a b"
  by (auto simp: stamped_in_def restamped_refl)

definition pass_frame :: "string set \<Rightarrow> tables \<Rightarrow> tables \<Rightarrow> bool" where
  "pass_frame W d d' \<longleftrightarrow>
     t_projects d' = t_projects d \<and> t_users d' = t_users d \<and> t_groups d' = t_groups d
   \<and> t_members d' = t_members d \<and> t_roles d' = t_roles d \<and> t_budgets d' = t_budgets d
   \<and> list_all2 (stamped_in W) (t_sources d) (t_sources d')
   \<and> (\<exists>rows. t_records d' = t_records d @ rows)"

lemma pass_frame_refl: "pass_frame W d d"
  by (simp add: pass_frame_def list_all2_refl stamped_in_def)

lemma pass_frame_trans: "pass_frame W d d' \<Longrightarrow> pass_frame W d' d'' \<Longrightarrow> pass_frame W d d''"
proof -
  assume a: "pass_frame W d d'" and b: "pass_frame W d' d''"
  have la: "list_all2 (stamped_in W) (t_sources d) (t_sources d')"
    and lb: "list_all2 (stamped_in W) (t_sources d') (t_sources d'')"
    using a b by (simp_all add: pass_frame_def)
  have "list_all2 (stamped_in W) (t_sources d) (t_sources d'')"
    by (rule list_all2_trans [OF _ la lb]) (rule stamped_in_trans)
  moreover obtain r1 r2 where "t_records d' = t_records d @ r1" "t_records d'' = t_records d' @ r2"
    using a b unfolding pass_frame_def by blast
  ultimately show ?thesis using a b by (simp add: pass_frame_def)
qed

section \<open>The contract on the scheduler's operations\<close>

definition pass_good :: "(cost_source \<Rightarrow> bool) \<Rightarrow> string set \<Rightarrow> 'm pass \<Rightarrow> bool" where
  "pass_good wanted W s \<longleftrightarrow> db_inv (w_db (ps_world s))
     \<and> (case ps_hub s of None \<Rightarrow> True | Some h \<Rightarrow> hub_inv h)
     \<and> (\<forall>src \<in> set (t_sources (w_db (ps_world s))). wanted src \<longrightarrow> cs_id src \<in> W)"

definition pass_rel :: "string set \<Rightarrow> 'm pass \<Rightarrow> 'm pass \<Rightarrow> bool" where
  "pass_rel W s s' \<longleftrightarrow> pass_frame W (w_db (ps_world s)) (w_db (ps_world s'))
     \<and> (ps_hub s' = None \<longleftrightarrow> ps_hub s = None)"

interpretation passes: pass_contract "pass_good wanted W" "pass_rel W"
  for wanted :: "cost_source \<Rightarrow> bool" and W :: "string set"
  by unfold_locales (auto simp: pass_rel_def intro: pass_frame_refl pass_frame_trans)

text \<open>A predicate on sources that does not look at the stamps.\<close>

definition stamp_blind :: "(cost_source \<Rightarrow> bool) \<Rightarrow> bool" where
  "stamp_blind wanted \<longleftrightarrow> (\<forall>a b. restamped a b \<longrightarrow> wanted b = wanted a)"

lemma good_after:
  assumes "pass_good wanted W s" and "stamp_blind wanted" and "db_inv (w_db w')"
    and "pass_frame W (w_db (ps_world s)) (w_db w')"
  shows "pass_good wanted W (s\<lparr>ps_world := w'\<rparr>) \<and> pass_rel W s (s\<lparr>ps_world := w'\<rparr>)"
proof -
  have "cs_id b \<in> W" if b: "b \<in> set (t_sources (w_db w'))" "wanted b" for b
  proof -
    have "list_all2 (\<lambda>b a. stamped_in W a b) (t_sources (w_db w')) (t_sources (w_db (ps_world s)))"
      using assms(4) by (simp add: pass_frame_def list_all2_conv_all_nth)
    from list_all2_mem [OF this b(1)] obtain a where a: "a \<in> set (t_sources (w_db (ps_world s)))" "restamped a b"
      by (blast dest: stamped_in_restamped)
    with assms(2) b(2) have "wanted a" by (simp add: stamp_blind_def)
    with a assms(1) show ?thesis by (simp add: pass_good_def restamped_fields)
  qed
  with assms(1,3,4) show ?thesis by (simp add: pass_good_def pass_rel_def)
qed

lemma same_tables_frame: "w_db w' = w_db w \<Longrightarrow> pass_frame W (w_db w) (w_db w')"
  by (simp add: pass_frame_refl)

lemma read_clock_good:
  "pass_good wanted W s \<Longrightarrow> pass_good wanted W (snd (read_clock e s)) \<and> pass_rel W s (snd (read_clock e s))"
  by (simp add: read_clock_def now_def pass_good_def pass_rel_def pass_frame_refl)

lemma publishEvent_meets: "meets (pass_good wanted W) (pass_rel W) (publishEvent e marshal ty name payload)"
proof (rule passes.meetsI)
  fix s :: "'a pass" assume g: "pass_good wanted W s"
  show "\<exists>t. publishEvent e marshal ty name payload s = Some t \<and> pass_good wanted W t \<and> pass_rel W s t"
  proof (cases "ps_hub s")
    case None
    with g show ?thesis by (simp add: publishEvent_def pass_rel_def pass_frame_refl)
  next
    case (Some h)
    with g have "hub_inv h" by (simp add: pass_good_def)
    let ?ev = "\<lparr>ev_type = ty, ev_topic = ''cost.collection'', ev_time = e_clock e (w_ticks (ps_world s)),
        ev_source = name, ev_payload = payload\<rparr>"
    obtain h' where h': "Publish marshal ?ev h = Some h'" "hub_inv h'"
      using Publish_ok [OF \<open>hub_inv h\<close>] by blast
    have "publishEvent e marshal ty name payload s
        = Some (snd (read_clock e s)\<lparr>ps_hub := Some h'\<rparr>)"
      using Some h'(1) by (simp add: publishEvent_def read_clock_def now_def NewEvent_def)
    moreover have "pass_good wanted W (snd (read_clock e s)\<lparr>ps_hub := Some h'\<rparr>)"
      and "pass_rel W s (snd (read_clock e s)\<lparr>ps_hub := Some h'\<rparr>)"
      using read_clock_good [OF g, of e] h'(2) Some by (simp_all add: pass_good_def pass_rel_def)
    ultimately show ?thesis by blast
  qed
qed

lemma insert_records_frame:
  assumes "db_inv (w_db w)"
  shows "db_inv (w_db (snd (InsertCostRecords e rs w)))
    \<and> pass_frame W (w_db w) (w_db (snd (InsertCostRecords e rs w)))"
proof (cases "InsertCostRecords e rs w")
  case (Pair r w')
  have "pass_frame W (w_db w) (w_db w')"
  proof (cases r)
    case (Inl err)
    with Pair show ?thesis by (simp add: InsertCostRecords_Inl same_tables_frame)
  next
    case (Inr u)
    with Pair obtain w1 w2 where "insert_records_loop e rs (w_db w) w1 = (Inr (w_db w'), w2)"
      by (auto elim: InsertCostRecords_Inr)
    from insert_loop_rows [OF this] show ?thesis
      by (auto simp: pass_frame_def list_all2_refl stamped_in_def)
  qed
  with InsertCostRecords_inv [OF assms, of e rs] Pair show ?thesis by simp
qed

lemma stamp_rows:
  assumes "i \<in> W"
  shows "list_all2 (stamped_in W) rows (update_rows (\<lambda>s. cs_id s = i)
      (\<lambda>s. s\<lparr>cs_collected := Some t, cs_updated := u\<rparr>) rows)"
  using assms
  by (induction rows) (auto simp: update_rows_Cons stamped_in_def intro: restampedI)

lemma update_collected_frame:
  assumes "db_inv (w_db w)" and "i \<in> W"
  shows "db_inv (w_db (snd (UpdateCostSourceCollectedAt e i t w)))
    \<and> pass_frame W (w_db w) (w_db (snd (UpdateCostSourceCollectedAt e i t w)))"
proof -
  let ?w1 = "snd (now e w)" and ?t = "e_time e t" and ?u = "e_time e (fst (now e w))"
  have step: "UpdateCostSourceCollectedAt e i t w = exec e (stmt_update_collected i ?t ?u) ?w1"
    by (simp add: UpdateCostSourceCollectedAt_def case_prod_beta)
  have stamp: "stmt_update_collected i ?t ?u d = Inr d' \<Longrightarrow> pass_frame W d d'" for d d'
    using stamp_rows [OF assms(2)] by (auto simp: stmt_update_collected_def pass_frame_def)
  have "pass_frame W (w_db w) (w_db (snd (exec e (stmt_update_collected i ?t ?u) ?w1)))"
    using exec_db [of e "stmt_update_collected i ?t ?u" ?w1]
  proof
    assume "w_db (snd (exec e (stmt_update_collected i ?t ?u) ?w1)) = w_db ?w1"
    then show ?thesis by (simp add: pass_frame_refl)
  next
    assume "stmt_update_collected i ?t ?u (w_db ?w1) = Inr (w_db (snd (exec e (stmt_update_collected i ?t ?u) ?w1)))"
    from stamp [OF this] show ?thesis by simp
  qed
  with assms(1) show ?thesis by (simp add: step exec_stmt_inv)
qed

lemma store_collected_meets:
  assumes "stamp_blind wanted" and "cs_id source \<in> W"
  shows "meets (pass_good wanted W) (pass_rel W) (store_collected e marshal source records)"
proof (rule passes.meetsI)
  fix s :: "'a pass" assume g: "pass_good wanted W s"
  then have inv: "db_inv (w_db (ps_world s))" by (simp add: pass_good_def)
  obtain r w1 where ins: "(if length records > 0 then InsertCostRecords e records (ps_world s)
                    else (Inr (), ps_world s)) = (r, w1)" by fastforce
  have w1: "db_inv (w_db w1) \<and> pass_frame W (w_db (ps_world s)) (w_db w1)"
    using ins insert_records_frame [OF inv, of e records W] inv
    by (auto simp: pass_frame_refl split: if_splits)
  note g1 = good_after [OF g assms(1), of w1]
  show "\<exists>t. store_collected e marshal source records s = Some t \<and> pass_good wanted W t \<and> pass_rel W s t"
  proof (cases r)
    case (Inl err)
    with ins g1 w1 show ?thesis by (simp add: store_collected_def)
  next
    case (Inr u)
    let ?s1 = "s\<lparr>ps_world := w1\<rparr>"
    let ?s2 = "snd (read_clock e ?s1)"
    let ?w3 = "snd (UpdateCostSourceCollectedAt e (cs_id source) (fst (read_clock e ?s1)) (ps_world ?s2))"
    let ?s3 = "?s2\<lparr>ps_world := ?w3\<rparr>"
    have g2: "pass_good wanted W ?s2" "pass_rel W ?s1 ?s2"
      using read_clock_good g1 w1 by blast+
    then have "db_inv (w_db (ps_world ?s2))" by (simp add: pass_good_def)
    from update_collected_frame [OF this assms(2)] good_after [OF g2(1) assms(1), of ?w3]
    have g3: "pass_good wanted W ?s3" "pass_rel W ?s2 ?s3" by blast+
    have "pass_rel W s ?s3" using g1 w1 g2 g3 by (blast intro: passes.rel_trans)
    moreover obtain t where "publishEvent e marshal ''collection.complete'' (cs_name source)
         (JObj [(''records'', JStr (Itoa (length records))), (''sourceId'', JStr (cs_id source))]) ?s3 = Some t"
       "pass_good wanted W t" "pass_rel W ?s3 t"
      using passes.meetsD [OF publishEvent_meets g3(1)] by blast
    ultimately show ?thesis
      using ins Inr by (auto simp: store_collected_def case_prod_beta intro: passes.rel_trans)
  qed
qed

lemma collectSource_meets:
  assumes "stamp_blind wanted" and "cs_id source \<in> W"
  shows "meets (pass_good wanted W) (pass_rel W) (collectSource reg e marshal source)"
proof (rule passes.meetsI)
  fix s :: "'a pass" assume g: "pass_good wanted W s"
  show "\<exists>t. collectSource reg e marshal source s = Some t \<and> pass_good wanted W t \<and> pass_rel W s t"
  proof (cases "GetCollector (cs_type source) reg")
    case None
    with g show ?thesis by (simp add: collectSource_def passes.rel_refl)
  next
    case (Some c)
    let ?s1 = "snd (read_clock e s)"
    let ?s2 = "snd (read_clock e ?s1)"
    have g2: "pass_good wanted W ?s2" "pass_rel W s ?s2"
      using g read_clock_good [of wanted W] by (blast intro: passes.rel_trans)+
    let ?out = "co_collect c source (source_window source (fst (read_clock e s)) (fst (read_clock e ?s1)))
        (w_ticks (ps_world ?s2))"
    let ?f = "case ?out of Inl err \<Rightarrow> publishEvent e marshal ''collection.failed'' (cs_name source)
                   (JObj [(''error'', JStr err), (''sourceId'', JStr (cs_id source))])
             | Inr records \<Rightarrow> store_collected e marshal source records"
    have "meets (pass_good wanted W) (pass_rel W) ?f"
      using publishEvent_meets store_collected_meets [OF assms] by (cases ?out) simp_all
    from passes.meetsD [OF this g2(1)] obtain t where "?f ?s2 = Some t" "pass_good wanted W t" "pass_rel W ?s2 t"
      by blast
    with Some g2(2) show ?thesis
      by (cases ?out) (auto simp: collectSource_def case_prod_beta intro: passes.rel_trans)
  qed
qed

lemma collect_sources_meets:
  assumes "stamp_blind wanted"
  shows "(\<And>src. src \<in> set srcs \<Longrightarrow> wanted src \<Longrightarrow> cs_id src \<in> W) \<Longrightarrow>
    meets (pass_good wanted W) (pass_rel W) (collect_sources wanted reg e marshal srcs)"
proof (induction srcs)
  case Nil
  have "collect_sources wanted reg e marshal [] = Some" by (rule ext) simp
  then show ?case by (simp add: passes.meets_Some)
next
  case (Cons src srcs)
  show ?case
  proof (cases "wanted src")
    case True
    have "collect_sources wanted reg e marshal (src # srcs)
        = (\<lambda>s. Option.bind (collectSource reg e marshal src s) (collect_sources wanted reg e marshal srcs))"
      using True by (intro ext) simp
    moreover have "meets (pass_good wanted W) (pass_rel W) (collectSource reg e marshal src)"
      using Cons.prems True by (intro collectSource_meets [OF assms]) simp
    ultimately show ?thesis
      using passes.meets_bind Cons by simp
  next
    case False
    have "collect_sources wanted reg e marshal (src # srcs) = collect_sources wanted reg e marshal srcs"
      using False by (intro ext) simp
    with Cons show ?thesis by simp
  qed
qed

lemma read_good:
  assumes "pass_good wanted W s" and "w_db w' = w_db (ps_world s)"
  shows "pass_good wanted W (s\<lparr>ps_world := w'\<rparr>)" and "pass_rel W s (s\<lparr>ps_world := w'\<rparr>)"
  using assms by (simp_all add: pass_good_def pass_rel_def pass_frame_refl)

lemma collectForProject_meets:
  assumes "stamp_blind wanted"
  shows "meets (pass_good wanted W) (pass_rel W) (collectForProject wanted reg e marshal p)"
proof (rule passes.meetsI)
  fix s :: "'a pass" assume g: "pass_good wanted W s"
  obtain r w1 where l: "ListCostSources e p (ps_world s) = (r, w1)" by fastforce
  then have db: "w_db w1 = w_db (ps_world s)"
    by (metis ListCostSources_def query_rows_db snd_conv)
  note g1 = read_good [OF g db]
  show "\<exists>t. collectForProject wanted reg e marshal p s = Some t \<and> pass_good wanted W t \<and> pass_rel W s t"
  proof (cases r)
    case (Inl err)
    with l g1 show ?thesis by (simp add: collectForProject_def)
  next
    case (Inr srcs)
    have "set srcs \<subseteq> set (t_sources (w_db (ps_world s)))"
      using query_rows_Inr [OF l [unfolded Inr ListCostSources_def]] by auto
    with g have "src \<in> set srcs \<Longrightarrow> wanted src \<Longrightarrow> cs_id src \<in> W" for src
      by (auto simp: pass_good_def)
    from passes.meetsD [OF collect_sources_meets [OF assms this] g1(1)]
    obtain t where "collect_sources wanted reg e marshal srcs (s\<lparr>ps_world := w1\<rparr>) = Some t"
      "pass_good wanted W t" "pass_rel W (s\<lparr>ps_world := w1\<rparr>) t" by blast
    with l Inr g1(2) show ?thesis
      by (auto simp: collectForProject_def intro: passes.rel_trans)
  qed
qed

lemma collect_projects_meets:
  assumes "stamp_blind wanted"
  shows "meets (pass_good wanted W) (pass_rel W) (collect_projects wanted reg e marshal ps)"
proof (induction ps)
  case Nil
  have "collect_projects wanted reg e marshal [] = Some" by (rule ext) simp
  then show ?case by (simp add: passes.meets_Some)
next
  case (Cons p ps)
  have "collect_projects wanted reg e marshal (p # ps)
      = (\<lambda>s. Option.bind (collectForProject wanted reg e marshal (p_id p) s) (collect_projects wanted reg e marshal ps))"
    by (rule ext) simp
  with passes.meets_bind [OF collectForProject_meets [OF assms] Cons] show ?case by simp
qed

lemma collect_pass_meets:
  assumes "stamp_blind wanted"
  shows "meets (pass_good wanted W) (pass_rel W) (collect_pass wanted reg e marshal)"
proof (rule passes.meetsI)
  fix s :: "'a pass" assume g: "pass_good wanted W s"
  obtain r w1 where l: "ListProjects e (ps_world s) = (r, w1)" by fastforce
  then have "w_db w1 = w_db (ps_world s)"
    by (metis ListProjects_def query_rows_db snd_conv)
  note g1 = read_good [OF g this]
  show "\<exists>t. collect_pass wanted reg e marshal s = Some t \<and> pass_good wanted W t \<and> pass_rel W s t"
  proof (cases r)
    case (Inl err)
    with l g1 show ?thesis by (simp add: collect_pass_def)
  next
    case (Inr ps)
    from passes.meetsD [OF collect_projects_meets [OF assms] g1(1)]
    obtain t where "collect_projects wanted reg e marshal ps (s\<lparr>ps_world := w1\<rparr>) = Some t"
      "pass_good wanted W t" "pass_rel W (s\<lparr>ps_world := w1\<rparr>) t" by blast
    with l Inr g1(2) show ?thesis
      by (auto simp: collect_pass_def intro: passes.rel_trans)
  qed
qed

section \<open>A sample collector for the witnesses\<close>

definition new_record :: cost_record where
  "new_record = sample_record\<lparr>cr_id := ''r9''\<rparr>"

definition sample_collector :: collector where
  "sample_collector = \<lparr>co_type = ''kubernetes'', co_collect = (\<lambda>_ _ _. Inr [new_record]), co_validate = (\<lambda>_. None)\<rparr>"

definition sample_registry :: registry where
  "sample_registry = RegisterCollector CostSourceKubernetes sample_collector NewRegistry"

definition sample_pass :: "nat pass" where
  "sample_pass = \<lparr>ps_world = sample_world, ps_hub = None\<rparr>"

lemma sample_get: "GetCollector ''kubernetes'' sample_registry = Some sample_collector"
  by (simp add: GetCollector_def sample_registry_def RegisterCollector_def)

section \<open>What a run of the scheduler does\<close>

definition tick_wants :: "tick \<Rightarrow> cost_source \<Rightarrow> bool" where
  "tick_wants t src \<longleftrightarrow> cs_enabled src \<and>
     (case t of InitialRun \<Rightarrow> True
      | CSPTick \<Rightarrow> cs_type src \<in> {CostSourceAWS, CostSourceAzure, CostSourceGCP}
      | KubernetesTick \<Rightarrow> cs_type src = CostSourceKubernetes)"

lemma run_tick_pass: "run_tick reg e marshal t = collect_pass (tick_wants t) reg e marshal"
proof -
  have w: "tick_wants InitialRun = cs_enabled"
    "tick_wants CSPTick = (\<lambda>s. cs_enabled s \<and> cs_type s \<in> set [CostSourceAWS, CostSourceAzure, CostSourceGCP])"
    "tick_wants KubernetesTick = (\<lambda>s. cs_enabled s \<and> cs_type s \<in> set [CostSourceKubernetes])"
    by (intro ext; simp add: tick_wants_def)+
  show ?thesis
    by (rule ext, cases t) (simp_all only: run_tick.simps collectAll_def collectByTypes_def w)
qed

lemma tick_wants_blind: "stamp_blind (tick_wants t)"
  by (auto simp: stamp_blind_def tick_wants_def restamped_fields split: tick.splits)

lemma tick_wants_enabled: "tick_wants t src \<Longrightarrow> cs_enabled src"
  by (simp add: tick_wants_def)

definition enabled_ids :: "tables \<Rightarrow> string set" where
  "enabled_ids d = cs_id ` {src \<in> set (t_sources d). cs_enabled src}"

lemma enabled_blind: "stamp_blind cs_enabled"
  by (simp add: stamp_blind_def restamped_fields)

text \<open>Goodness for the enabled sources is goodness for what any tick wants.\<close>

lemma good_weaken: "pass_good cs_enabled W s \<Longrightarrow> pass_good (tick_wants t) W s"
  by (auto simp: pass_good_def dest: tick_wants_enabled)

lemma run_tick_enabled: "meets (pass_good cs_enabled W) (pass_rel W) (run_tick reg e marshal t)"
proof (rule passes.meetsI)
  fix s :: "'a pass" assume g: "pass_good cs_enabled W s"
  obtain s' where s': "run_tick reg e marshal t s = Some s'" "pass_good (tick_wants t) W s'" "pass_rel W s s'"
    using passes.meetsD [OF collect_pass_meets [OF tick_wants_blind] good_weaken [OF g], of t reg e marshal]
    unfolding run_tick_pass by blast
  have "pass_good cs_enabled W (s\<lparr>ps_world := ps_world s'\<rparr>)"
    using good_after [OF g enabled_blind, of "ps_world s'"] s'(2,3) by (simp add: pass_good_def pass_rel_def)
  with s'(2) have "pass_good cs_enabled W s'" by (simp add: pass_good_def)
  with s' show "\<exists>t'. run_tick reg e marshal t s = Some t' \<and> pass_good cs_enabled W t' \<and> pass_rel W s t'"
    by blast
qed

lemma run_ticks_enabled: "meets (pass_good cs_enabled W) (pass_rel W) (run_ticks reg e marshal ts)"
proof (induction ts)
  case Nil
  have "run_ticks reg e marshal [] = Some" by (rule ext) simp
  then show ?case by (simp add: passes.meets_Some)
next
  case (Cons t ts)
  have "run_ticks reg e marshal (t # ts) = (\<lambda>s. Option.bind (run_tick reg e marshal t s) (run_ticks reg e marshal ts))"
    by (rule ext) simp
  with passes.meets_bind [OF run_tick_enabled Cons] show ?case by simp
qed

text \<open>
  any sequence of scheduler runs, whatever the collectors return and whatever store operation
  fails, does not panic, keeps the schema invariant and the hub's, and changes nothing but adding
  cost records and stamping the collection time of sources that are enabled.
\<close>

theorem scheduler_run_safe:
  assumes "db_inv (w_db w)" and "hub_inv h"
  shows "\<exists>s'. run_ticks reg e marshal ts \<lparr>ps_world = w, ps_hub = Some h\<rparr> = Some s'
    \<and> db_inv (w_db (ps_world s')) \<and> (\<exists>h'. ps_hub s' = Some h' \<and> hub_inv h')
    \<and> pass_frame (enabled_ids (w_db w)) (w_db w) (w_db (ps_world s'))"
proof -
  have "pass_good cs_enabled (enabled_ids (w_db w)) \<lparr>ps_world = w, ps_hub = Some h\<rparr>"
    using assms by (auto simp: pass_good_def enabled_ids_def)
  from passes.meetsD [OF run_ticks_enabled this]
  obtain s' where "run_ticks reg e marshal ts \<lparr>ps_world = w, ps_hub = Some h\<rparr> = Some s'"
    "pass_good cs_enabled (enabled_ids (w_db w)) s'" "pass_rel (enabled_ids (w_db w)) \<lparr>ps_world = w, ps_hub = Some h\<rparr> s'"
    by blast
  then show ?thesis by (auto simp: pass_good_def pass_rel_def split: option.splits)
qed

theorem scheduler_run_safe_witness:
  "\<exists>s'. run_ticks sample_registry sample_env (\<lambda>_. Some (0::nat)) [InitialRun, KubernetesTick]
        \<lparr>ps_world = sample_world, ps_hub = Some NewHub\<rparr> = Some s' \<and> db_inv (w_db (ps_world s'))"
  using scheduler_run_safe [OF sample_db_inv hub_inv_new] by blast

text \<open>
  a tick of one kind leaves the row of every source it is not meant for as it was: disabled sources,
  and sources of the other types.
\<close>

theorem tick_leaves_others:
  assumes "db_inv (w_db (ps_world s))" and "ps_hub s = Some h" and "hub_inv h"
    and "run_tick reg e marshal t s = Some s'"
    and "src \<in> set (t_sources (w_db (ps_world s)))" and "\<not> tick_wants t src"
  shows "src \<in> set (t_sources (w_db (ps_world s')))"
proof -
  let ?W = "cs_id ` {src \<in> set (t_sources (w_db (ps_world s))). tick_wants t src}"
  have "pass_good (tick_wants t) ?W s"
    using assms(1-3) by (auto simp: pass_good_def)
  from passes.meetsD [OF collect_pass_meets [OF tick_wants_blind] this, of reg e marshal] assms(4)
  have "pass_rel ?W s s'" unfolding run_tick_pass by auto
  then have "list_all2 (stamped_in ?W) (t_sources (w_db (ps_world s))) (t_sources (w_db (ps_world s')))"
    by (simp add: pass_rel_def pass_frame_def)
  from list_all2_mem [OF this assms(5)] obtain b where b: "b \<in> set (t_sources (w_db (ps_world s')))"
    "stamped_in ?W src b" by blast
  have "cs_id src \<notin> ?W"
  proof
    assume "cs_id src \<in> ?W"
    then obtain a where a: "a \<in> set (t_sources (w_db (ps_world s)))" "tick_wants t a" "cs_id a = cs_id src"
      by auto
    moreover have "distinct (map cs_id (t_sources (w_db (ps_world s))))"
      using assms(1) by (simp add: db_inv_def keys_inv_def)
    ultimately have "a = src" using assms(5) by (metis distinct_map inj_onD)
    with a(2) assms(6) show False by simp
  qed
  with b show ?thesis by (simp add: stamped_in_def)
qed

theorem tick_leaves_others_witness:
  "\<exists>s'. run_tick sample_registry sample_env (\<lambda>_. Some (0::nat)) CSPTick
        \<lparr>ps_world = sample_world, ps_hub = Some NewHub\<rparr> = Some s'
     \<and> sample_source \<in> set (t_sources (w_db (ps_world s')))"
proof -
  let ?s = "\<lparr>ps_world = sample_world, ps_hub = Some (NewHub :: nat hub)\<rparr>"
  have inv: "db_inv (w_db (ps_world ?s))" using sample_db_inv by simp
  have "pass_good cs_enabled UNIV ?s"
    using inv hub_inv_new by (simp add: pass_good_def)
  from passes.meetsD [OF run_tick_enabled this]
  obtain s' where r: "run_tick sample_registry sample_env (\<lambda>_. Some (0::nat)) CSPTick ?s = Some s'" by blast
  have mem: "sample_source \<in> set (t_sources (w_db (ps_world ?s)))"
    by (simp add: sample_world_def sample_db_def)
  have "\<not> tick_wants CSPTick sample_source"
    by (simp add: tick_wants_def sample_source_def)
  from tick_leaves_others [OF inv _ hub_inv_new r mem this] r show ?thesis by auto
qed

section \<open>Windows\<close>

lemma publishEvent_tables:
  "publishEvent e marshal ty name payload s = Some s' \<Longrightarrow> w_db (ps_world s') = w_db (ps_world s)"
  by (auto simp: publishEvent_def read_clock_def now_def NewEvent_def split: option.splits)

lemma insert_loop_ticks: "w_ticks (snd (insert_records_loop e rs tx w)) = w_ticks w"
  by (induction e rs tx w rule: insert_records_loop.induct)
    (auto simp: ensure_id_def newID_def driver_call_def split: sum.splits)

lemma InsertCostRecords_ticks: "w_ticks (snd (InsertCostRecords e rs w)) = w_ticks w"
proof -
  have d: "w_ticks (snd (driver_call e w)) = w_ticks w" for w by (simp add: driver_call_def)
  let ?w2 = "snd (driver_call e (snd (driver_call e w)))"
  have "w_ticks (snd (insert_records_loop e rs (w_db ?w2) ?w2)) = w_ticks w"
    by (simp only: insert_loop_ticks d)
  then show ?thesis
    by (simp add: InsertCostRecords_def case_prod_beta Let_def d split: sum.split)
qed

text \<open>The outcomes of \<open>store_collected\<close>: no stamp, or the records stored and the source stamped.\<close>

lemma store_collected_cases:
  assumes "store_collected e marshal source records s = Some s'"
  obtains (unstamped) "t_sources (w_db (ps_world s')) = t_sources (w_db (ps_world s))"
  | (stamped) rows u where "list_all2 (stored_as e) records rows"
      "t_records (w_db (ps_world s')) = t_records (w_db (ps_world s)) @ rows"
      "t_sources (w_db (ps_world s')) = update_rows (\<lambda>x. cs_id x = cs_id source)
         (\<lambda>x. x\<lparr>cs_collected := Some (e_time e (e_clock e (w_ticks (ps_world s)))), cs_updated := u\<rparr>) (t_sources (w_db (ps_world s)))"
proof -
  let ?w = "ps_world s"
  obtain r w1 where ins: "(if length records > 0 then InsertCostRecords e records ?w else (Inr (), ?w)) = (r, w1)"
    by fastforce
  have ticks: "w_ticks w1 = w_ticks ?w"
    using ins InsertCostRecords_ticks [of e records ?w] by (auto split: if_splits)
  show thesis
  proof (cases r)
    case (Inl err)
    with ins have "w_db w1 = w_db ?w" by (auto simp: InsertCostRecords_Inl split: if_splits)
    moreover from assms ins Inl have "s' = s\<lparr>ps_world := w1\<rparr>" by (simp add: store_collected_def)
    ultimately show thesis by (intro unstamped) simp
  next
    case (Inr u)
    obtain rows where rows: "list_all2 (stored_as e) records rows" "w_db w1 = (w_db ?w)\<lparr>t_records := t_records (w_db ?w) @ rows\<rparr>"
    proof (cases "records = []")
      case True
      with ins that [of "[]"] show ?thesis by simp
    next
      case False
      with ins Inr have "InsertCostRecords e records ?w = (Inr u, w1)" by simp
      then show ?thesis using insert_loop_rows that by (blast elim: InsertCostRecords_Inr)
    qed
    let ?s1 = "s\<lparr>ps_world := w1\<rparr>"
    let ?s2 = "snd (read_clock e ?s1)"
    let ?t3 = "fst (read_clock e ?s1)"
    let ?w3 = "snd (UpdateCostSourceCollectedAt e (cs_id source) ?t3 (ps_world ?s2))"
    have t3: "?t3 = e_clock e (w_ticks ?w)" by (simp add: read_clock_def now_def ticks)
    have db2: "w_db (ps_world ?s2) = w_db w1" by (simp add: read_clock_def now_def)
    have "publishEvent e marshal ''collection.complete'' (cs_name source)
        (JObj [(''records'', JStr (Itoa (length records))), (''sourceId'', JStr (cs_id source))]) (?s2\<lparr>ps_world := ?w3\<rparr>) = Some s'"
      using assms ins Inr by (simp add: store_collected_def case_prod_beta Let_def)
    from publishEvent_tables [OF this] have db': "w_db (ps_world s') = w_db ?w3" by simp
    let ?u = "e_time e (fst (now e (ps_world ?s2)))"
    have "?w3 = snd (exec e (stmt_update_collected (cs_id source) (e_time e ?t3) ?u) (snd (now e (ps_world ?s2))))"
      by (simp add: UpdateCostSourceCollectedAt_def case_prod_beta)
    then have "w_db ?w3 = w_db w1 \<or> stmt_update_collected (cs_id source) (e_time e ?t3) ?u (w_db w1) = Inr (w_db ?w3)"
      using exec_db [of e "stmt_update_collected (cs_id source) (e_time e ?t3) ?u" "snd (now e (ps_world ?s2))"] db2 by simp
    then show thesis
    proof
      assume "w_db ?w3 = w_db w1"
      with rows db' show thesis by (intro unstamped) simp
    next
      assume st: "stmt_update_collected (cs_id source) (e_time e ?t3) ?u (w_db w1) = Inr (w_db ?w3)"
      then have "w_db ?w3 = (w_db w1)\<lparr>t_sources := update_rows (\<lambda>x. cs_id x = cs_id source)
         (\<lambda>x. x\<lparr>cs_collected := Some (e_time e ?t3), cs_updated := ?u\<rparr>) (t_sources (w_db w1))\<rparr>"
        by (simp add: stmt_update_collected_def)
      with rows db' t3 show thesis by (intro stamped [of rows ?u]) simp_all
    qed
  qed
qed

text \<open>
  a source gets a new collection time only after the collector succeeded on it and all the records it
  returned are stored; with a clock whose readings advance also as the column keeps them, the window of its
  next collection then begins strictly after the end of this one as the column would keep it. So windows
  overlap by less than the column's unit of time (PostgreSQL keeps microseconds), and not at all where it
  keeps every instant; and the time between the end of a window and the stamp is in no window.
\<close>

theorem stamped_after_stored:
  assumes "collectSource reg e marshal src s = Some s'" and "db_inv (w_db (ps_world s))"
    and "src \<in> set (t_sources (w_db (ps_world s)))"
    and "src' \<in> set (t_sources (w_db (ps_world s')))" and "cs_id src' = cs_id src"
    and "cs_collected src' \<noteq> cs_collected src"
    and "strict_mono (\<lambda>n. e_time e (e_clock e n))"
  shows "\<exists>c records rows window. GetCollector (cs_type src) reg = Some c
    \<and> window = source_window src (e_clock e (w_ticks (ps_world s))) (e_clock e (Suc (w_ticks (ps_world s))))
    \<and> co_collect c src window (Suc (Suc (w_ticks (ps_world s)))) = Inr records
    \<and> list_all2 (stored_as e) records rows
    \<and> t_records (w_db (ps_world s')) = t_records (w_db (ps_world s)) @ rows
    \<and> e_time e (tw_end window) < tw_start (source_window src' t1 t2)"
proof -
  let ?k = "w_ticks (ps_world s)"
  let ?window = "source_window src (e_clock e ?k) (e_clock e (Suc ?k))"
  have dist: "distinct (map cs_id (t_sources (w_db (ps_world s))))"
    using assms(2) by (simp add: db_inv_def keys_inv_def)
  have only: "a = src" if "a \<in> set (t_sources (w_db (ps_world s)))" "cs_id a = cs_id src" for a
    using that dist assms(3) by (metis distinct_map inj_onD)
  have unstamped: False if "t_sources (w_db (ps_world s')) = t_sources (w_db (ps_world s))"
    using only [of src'] that assms(4,5,6) by simp
  obtain c where c: "GetCollector (cs_type src) reg = Some c"
    using assms(1) unstamped by (cases "GetCollector (cs_type src) reg") (auto simp: collectSource_def)
  let ?s2 = "snd (read_clock e (snd (read_clock e s)))"
  have s2: "w_ticks (ps_world ?s2) = Suc (Suc ?k)" "w_db (ps_world ?s2) = w_db (ps_world s)"
    by (simp_all add: read_clock_def now_def)
  have clocks: "fst (read_clock e s) = e_clock e ?k" "fst (read_clock e (snd (read_clock e s))) = e_clock e (Suc ?k)"
    by (simp_all add: read_clock_def now_def)
  have run: "(case co_collect c src ?window (Suc (Suc ?k)) of
      Inl err \<Rightarrow> publishEvent e marshal ''collection.failed'' (cs_name src)
         (JObj [(''error'', JStr err), (''sourceId'', JStr (cs_id src))]) ?s2
    | Inr records \<Rightarrow> store_collected e marshal src records ?s2) = Some s'"
    using assms(1) c clocks s2(1) by (simp add: collectSource_def case_prod_beta)
  obtain records where records: "co_collect c src ?window (Suc (Suc ?k)) = Inr records"
  proof (cases "co_collect c src ?window (Suc (Suc ?k))")
    case (Inl err)
    with run have "publishEvent e marshal ''collection.failed'' (cs_name src)
         (JObj [(''error'', JStr err), (''sourceId'', JStr (cs_id src))]) ?s2 = Some s'" by simp
    from publishEvent_tables [OF this] s2 unstamped show ?thesis by simp
  qed (rule that)
  with run have "store_collected e marshal src records ?s2 = Some s'" by simp
  then show ?thesis
  proof (cases rule: store_collected_cases)
    case unstamped
    with \<open>t_sources (w_db (ps_world s')) = t_sources (w_db (ps_world s)) \<Longrightarrow> False\<close> s2 show ?thesis by simp
  next
    case (stamped rows u)
    from stamped(3) assms(4) obtain a where a: "a \<in> set (t_sources (w_db (ps_world s)))"
      "src' = (if cs_id a = cs_id src then a\<lparr>cs_collected := Some (e_time e (e_clock e (Suc (Suc ?k)))), cs_updated := u\<rparr> else a)"
      unfolding s2 by (auto simp: set_update_rows)
    with assms(5) have "cs_collected src' = Some (e_time e (e_clock e (Suc (Suc ?k))))"
      by (auto split: if_splits)
    then have "tw_start (source_window src' t1 t2) = e_time e (e_clock e (Suc (Suc ?k)))"
      by (simp add: source_window_def)
    moreover have "tw_end ?window = e_clock e (Suc ?k)"
      by (simp add: source_window_def Let_def split: option.splits)
    moreover have "e_time e (e_clock e (Suc ?k)) < e_time e (e_clock e (Suc (Suc ?k)))" using assms(7) by (simp add: strict_mono_def)
    ultimately show ?thesis using c records stamped(1,2) s2 by auto
  qed
qed

lemma sample_collected:
  "collectSource sample_registry sample_env (\<lambda>_. Some (0::nat)) sample_source sample_pass
    = Some (the (collectSource sample_registry sample_env (\<lambda>_. Some (0::nat)) sample_source sample_pass))"
  "t_sources (w_db (ps_world (the (collectSource sample_registry sample_env (\<lambda>_. Some (0::nat)) sample_source sample_pass))))
    = [sample_source\<lparr>cs_collected := Some 2, cs_updated := 3\<rparr>]"
  by (simp_all add: collectSource_def GetCollector_def sample_registry_def RegisterCollector_def sample_collector_def
      sample_pass_def read_clock_def store_collected_def publishEvent_def UpdateCostSourceCollectedAt_def
      stmt_update_collected_def update_rows_def InsertCostRecords_def stmt_insert_record_def id_sets new_record_def
      sample_defs)

theorem stamped_after_stored_witness:
  "\<exists>rows. rows \<noteq> [] \<and> t_records (w_db (ps_world (the (collectSource sample_registry sample_env (\<lambda>_. Some (0::nat))
      sample_source sample_pass)))) = t_records (w_db sample_world) @ rows"
proof -
  let ?src' = "sample_source\<lparr>cs_collected := Some 2, cs_updated := 3\<rparr>"
  have inv: "db_inv (w_db (ps_world sample_pass))" using sample_db_inv by (simp add: sample_pass_def)
  have mem: "sample_source \<in> set (t_sources (w_db (ps_world sample_pass)))"
    by (simp add: sample_pass_def sample_world_def sample_db_def)
  have mem': "?src' \<in> set (t_sources (w_db (ps_world (the (collectSource sample_registry sample_env
      (\<lambda>_. Some (0::nat)) sample_source sample_pass)))))"
    by (simp add: sample_collected(2))
  have same: "cs_id ?src' = cs_id sample_source" by simp
  have ne: "cs_collected ?src' \<noteq> cs_collected sample_source" by (simp add: sample_source_def)
  have clock: "strict_mono (\<lambda>n. e_time sample_env (e_clock sample_env n))" by (simp add: sample_env_def strict_mono_def)
  obtain c records rows window where "GetCollector (cs_type sample_source) sample_registry = Some c"
    and "co_collect c sample_source window (Suc (Suc (w_ticks (ps_world sample_pass)))) = Inr records"
    and rows: "list_all2 (stored_as sample_env) records rows"
    and "t_records (w_db (ps_world (the (collectSource sample_registry sample_env (\<lambda>_. Some (0::nat))
      sample_source sample_pass)))) = t_records (w_db (ps_world sample_pass)) @ rows"
    using stamped_after_stored [OF sample_collected(1) inv mem mem' same ne clock, of 0 0]
    by (elim exE conjE) (rule that; assumption)
  moreover from this(1,2) have "records = [new_record]"
    by (simp add: sample_source_def sample_get) (auto simp: sample_collector_def)
  ultimately show ?thesis by (intro exI [where x = rows]) (auto simp: sample_pass_def)
qed

end
