(* ===== verification/Collectors_Laws.thy ===== *)
theory Collectors_Laws
  imports Collectors Scheduler_Laws
begin

text \<open>
  What a run of the scheduler with the collectors of \<open>main\<close> stores: only Kubernetes records, each for an enabled
  Kubernetes source that was there, with finite costs in dollars; the cloud ticks store nothing at all.
  The proofs use the contract of passes again, now in its partial form and for another relation.
\<close>

section \<open>The contract in its partial form\<close>

definition ends_in :: "('s \<Rightarrow> bool) \<Rightarrow> ('s \<Rightarrow> 's \<Rightarrow> bool) \<Rightarrow> ('s \<Rightarrow> 's option) \<Rightarrow> bool" where
  "ends_in good rel f \<longleftrightarrow> (\<forall>s t. good s \<longrightarrow> f s = Some t \<longrightarrow> good t \<and> rel s t)"

context pass_contract
begin

lemma ends_inI: "(\<And>s t. good s \<Longrightarrow> f s = Some t \<Longrightarrow> good t \<and> rel s t) \<Longrightarrow> ends_in good rel f"
  by (simp add: ends_in_def)

lemma ends_inD: "ends_in good rel f \<Longrightarrow> good s \<Longrightarrow> f s = Some t \<Longrightarrow> good t \<and> rel s t"
  by (simp add: ends_in_def)

lemma ends_in_Some: "ends_in good rel Some"
  by (intro ends_inI) (auto intro: rel_refl)

lemma ends_in_bind:
  assumes "ends_in good rel f" and "ends_in good rel g"
  shows "ends_in good rel (\<lambda>s. Option.bind (f s) g)"
proof (rule ends_inI)
  fix s u assume "good s" and "Option.bind (f s) g = Some u"
  then obtain t where "f s = Some t" "g t = Some u" by (auto simp: bind_eq_Some_conv)
  with \<open>good s\<close> assms show "good u \<and> rel s u" by (meson ends_inD rel_trans)
qed

lemma ends_in_after:
  assumes "\<And>s. good s \<Longrightarrow> good (h s) \<and> rel s (h s)" and "ends_in good rel f"
  shows "ends_in good rel (\<lambda>s. f (h s))"
  using assms by (intro ends_inI) (meson ends_inD rel_trans)

text \<open>A total pass meets its contract when it ends and its partial form holds.\<close>

lemma meets_ends_in: "meets good rel f \<Longrightarrow> ends_in good rel f"
  by (fastforce simp: meets_def ends_in_def)

end

section \<open>What a pass adds\<close>

definition sources_are :: "(cost_source \<Rightarrow> bool) \<Rightarrow> 'm pass \<Rightarrow> bool" where
  "sources_are G s \<longleftrightarrow> list_all G (t_sources (w_db (ps_world s)))"

definition adds_only :: "(cost_record \<Rightarrow> bool) \<Rightarrow> 'm pass \<Rightarrow> 'm pass \<Rightarrow> bool" where
  "adds_only P s s' \<longleftrightarrow>
     (\<exists>rows. t_records (w_db (ps_world s')) = t_records (w_db (ps_world s)) @ rows \<and> list_all P rows)"

interpretation collections: pass_contract "sources_are G" "adds_only P"
  for G :: "cost_source \<Rightarrow> bool" and P :: "cost_record \<Rightarrow> bool"
proof unfold_locales
  show "adds_only P s s" for s :: "'a pass" by (simp add: adds_only_def)
  show "adds_only P s t \<Longrightarrow> adds_only P t u \<Longrightarrow> adds_only P s u" for s t u :: "'a pass"
    unfolding adds_only_def by force
qed

lemma same_db_adds:
  assumes "w_db (ps_world s') = w_db (ps_world s)" and "sources_are G s"
  shows "sources_are G s' \<and> adds_only P s s'"
  using assms by (simp add: sources_are_def adds_only_def)

lemma stmt_update_collected_records: "stmt_update_collected i t u d = Inr d' \<Longrightarrow> t_records d' = t_records d"
  by (auto simp: stmt_update_collected_def)

lemma update_collected_records: "t_records (w_db (snd (UpdateCostSourceCollectedAt e i t w))) = t_records (w_db w)"
  using exec_db [of e "stmt_update_collected i (e_time e t) (e_time e (fst (now e w)))" "snd (now e w)"]
  by (auto simp: UpdateCostSourceCollectedAt_def case_prod_beta dest: stmt_update_collected_records)

lemma store_collected_rows:
  assumes "store_collected e marshal source records s = Some s'"
  shows "\<exists>rows. t_records (w_db (ps_world s')) = t_records (w_db (ps_world s)) @ rows
    \<and> (rows = [] \<or> list_all2 (stored_as e) records rows)"
proof -
  let ?w = "ps_world s"
  obtain r w1 where ins: "(if length records > 0 then InsertCostRecords e records ?w else (Inr (), ?w)) = (r, w1)"
    by fastforce
  obtain rows where rows: "t_records (w_db w1) = t_records (w_db ?w) @ rows" "rows = [] \<or> list_all2 (stored_as e) records rows"
  proof (cases "records = [] \<or> (\<exists>err. r = Inl err)")
    case True
    with ins have "w_db w1 = w_db ?w" by (auto simp: InsertCostRecords_Inl split: if_splits)
    with that [of "[]"] show thesis by simp
  next
    case False
    then obtain u where "InsertCostRecords e records ?w = (Inr u, w1)" using ins by (cases r) auto
    then obtain w2 w3 where "insert_records_loop e records (w_db ?w) w2 = (Inr (w_db w1), w3)"
      by (rule InsertCostRecords_Inr)
    from insert_loop_rows [OF this] that show thesis by auto
  qed
  have "t_records (w_db (ps_world s')) = t_records (w_db w1)"
    using assms ins
    by (auto simp: store_collected_def case_prod_beta Let_def read_clock_def now_def update_collected_records
        dest!: publishEvent_tables split: sum.splits)
  with rows show ?thesis by auto
qed

text \<open>A registry whose records, once stored, all satisfy \<open>P\<close>, for sources that satisfy \<open>G\<close>.\<close>

definition collects :: "env \<Rightarrow> registry \<Rightarrow> (cost_source \<Rightarrow> bool) \<Rightarrow> (cost_record \<Rightarrow> bool) \<Rightarrow> bool" where
  "collects e reg G P \<longleftrightarrow>
     (\<forall>c src window n records r row. GetCollector (cs_type src) reg = Some c \<longrightarrow> G src
        \<longrightarrow> co_collect c src window n = Inr records \<longrightarrow> r \<in> set records \<longrightarrow> stored_as e r row \<longrightarrow> P row)"

lemma collectSource_adds:
  assumes "collects e reg (\<lambda>src. G src \<and> wanted src) P" and "stamp_blind G" and "G src" and "wanted src"
  shows "ends_in (sources_are G) (adds_only P) (collectSource reg e marshal src)"
proof (rule collections.ends_inI)
  fix s t :: "'a pass" assume g: "sources_are G s" and run: "collectSource reg e marshal src s = Some t"
  show "sources_are G t \<and> adds_only P s t"
  proof (cases "GetCollector (cs_type src) reg")
    case None
    with run g show ?thesis by (intro same_db_adds) (simp_all add: collectSource_def)
  next
    case (Some c)
    let ?s2 = "snd (read_clock e (snd (read_clock e s)))"
    have s2: "w_db (ps_world ?s2) = w_db (ps_world s)" by (simp add: read_clock_def now_def)
    let ?out = "co_collect c src (source_window src (fst (read_clock e s)) (fst (read_clock e (snd (read_clock e s)))))
        (w_ticks (ps_world ?s2))"
    show ?thesis
    proof (cases ?out)
      case (Inl err)
      with Some run have "publishEvent e marshal ''collection.failed'' (cs_name src)
          (JObj [(''error'', JStr err), (''sourceId'', JStr (cs_id src))]) ?s2 = Some t"
        by (simp add: collectSource_def case_prod_beta)
      from publishEvent_tables [OF this] s2 g show ?thesis by (intro same_db_adds) simp_all
    next
      case (Inr records)
      with Some run have st: "store_collected e marshal src records ?s2 = Some t"
        by (simp add: collectSource_def case_prod_beta)
      have "list_all P rows" if "list_all2 (stored_as e) records rows" for rows
      proof -
        have "P row" if "stored_as e r row" "r \<in> set records" for r row
          using assms(1) [unfolded collects_def] Some Inr assms(3,4) that by blast
        with that show ?thesis by (auto simp: list_all2_conv_all_nth list_all_length)
      qed
      then have "adds_only P s t" using store_collected_rows [OF st] s2 by (auto simp: adds_only_def)
      moreover have "sources_are G t"
      proof (cases rule: store_collected_cases [OF st])
        case 1
        with g s2 show ?thesis by (simp add: sources_are_def)
      next
        case (2 rows u)
        have "G x \<Longrightarrow> G (x\<lparr>cs_collected := a, cs_updated := b\<rparr>)" for x a b
          using assms(2) restampedI [OF refl] unfolding stamp_blind_def by blast
        with 2(3) g s2 show ?thesis by (auto simp: sources_are_def list_all_iff set_update_rows)
      qed
      ultimately show ?thesis by blast
    qed
  qed
qed

lemma collect_sources_adds:
  assumes "collects e reg (\<lambda>src. G src \<and> wanted src) P" and "stamp_blind G" and "list_all G srcs"
  shows "ends_in (sources_are G) (adds_only P) (collect_sources wanted reg e marshal srcs)"
  using assms(3)
proof (induction srcs)
  case Nil
  have "collect_sources wanted reg e marshal [] = Some" by (rule ext) simp
  then show ?case by (simp add: collections.ends_in_Some)
next
  case (Cons src srcs)
  show ?case
  proof (cases "wanted src")
    case True
    have "collect_sources wanted reg e marshal (src # srcs)
        = (\<lambda>s. Option.bind (collectSource reg e marshal src s) (collect_sources wanted reg e marshal srcs))"
      using True by (intro ext) simp
    moreover have "ends_in (sources_are G) (adds_only P) (collectSource reg e marshal src)"
      using Cons.prems True by (intro collectSource_adds [OF assms(1,2)]) simp_all
    ultimately show ?thesis using collections.ends_in_bind Cons by simp
  next
    case False
    have "collect_sources wanted reg e marshal (src # srcs) = collect_sources wanted reg e marshal srcs"
      using False by (intro ext) simp
    with Cons show ?thesis by simp
  qed
qed

lemma collectForProject_adds:
  assumes "collects e reg (\<lambda>src. G src \<and> wanted src) P" and "stamp_blind G"
  shows "ends_in (sources_are G) (adds_only P) (collectForProject wanted reg e marshal p)"
proof (rule collections.ends_inI)
  fix s t :: "'a pass" assume g: "sources_are G s" and run: "collectForProject wanted reg e marshal p s = Some t"
  obtain r w1 where l: "ListCostSources e p (ps_world s) = (r, w1)" by fastforce
  have db: "w_db w1 = w_db (ps_world s)" using l by (metis ListCostSources_def query_rows_db snd_conv)
  note g1 = same_db_adds [where s' = "s\<lparr>ps_world := w1\<rparr>", simplified, OF db g]
  show "sources_are G t \<and> adds_only P s t"
  proof (cases r)
    case (Inl err)
    with l run g1 show ?thesis by (simp add: collectForProject_def)
  next
    case (Inr srcs)
    have "set srcs \<subseteq> set (t_sources (w_db (ps_world s)))"
      using query_rows_Inr [OF l [unfolded Inr ListCostSources_def]] by auto
    with g have "list_all G srcs" by (auto simp: sources_are_def list_all_iff)
    moreover have "collect_sources wanted reg e marshal srcs (s\<lparr>ps_world := w1\<rparr>) = Some t"
      using l run Inr by (simp add: collectForProject_def)
    ultimately show ?thesis
      using collections.ends_inD [OF collect_sources_adds [OF assms]] g1 collections.rel_trans by blast
  qed
qed

lemma collect_projects_adds:
  assumes "collects e reg (\<lambda>src. G src \<and> wanted src) P" and "stamp_blind G"
  shows "ends_in (sources_are G) (adds_only P) (collect_projects wanted reg e marshal ps)"
proof (induction ps)
  case Nil
  have "collect_projects wanted reg e marshal [] = Some" by (rule ext) simp
  then show ?case by (simp add: collections.ends_in_Some)
next
  case (Cons p ps)
  have "collect_projects wanted reg e marshal (p # ps)
      = (\<lambda>s. Option.bind (collectForProject wanted reg e marshal (p_id p) s) (collect_projects wanted reg e marshal ps))"
    by (rule ext) simp
  with collections.ends_in_bind [OF collectForProject_adds [OF assms] Cons] show ?case by simp
qed

lemma collect_pass_adds:
  assumes "collects e reg (\<lambda>src. G src \<and> wanted src) P" and "stamp_blind G"
  shows "ends_in (sources_are G) (adds_only P) (collect_pass wanted reg e marshal)"
proof (rule collections.ends_inI)
  fix s t :: "'a pass" assume g: "sources_are G s" and run: "collect_pass wanted reg e marshal s = Some t"
  obtain r w1 where l: "ListProjects e (ps_world s) = (r, w1)" by fastforce
  have db: "w_db w1 = w_db (ps_world s)" using l by (metis ListProjects_def query_rows_db snd_conv)
  note g1 = same_db_adds [where s' = "s\<lparr>ps_world := w1\<rparr>", simplified, OF db g]
  show "sources_are G t \<and> adds_only P s t"
  proof (cases r)
    case (Inl err)
    with l run g1 show ?thesis by (simp add: collect_pass_def)
  next
    case (Inr ps)
    then have "collect_projects wanted reg e marshal ps (s\<lparr>ps_world := w1\<rparr>) = Some t"
      using l run by (simp add: collect_pass_def)
    then show ?thesis
      using collections.ends_inD [OF collect_projects_adds [OF assms]] g1 collections.rel_trans by blast
  qed
qed

section \<open>Kubernetes records\<close>

lemma decode_field_keeps:
  assumes "\<And>v x y. dec v x = Some y \<Longrightarrow> Q x \<Longrightarrow> Q y"
  shows "decode_field dec key kvs x = Some y \<Longrightarrow> Q x \<Longrightarrow> Q y"
proof (induction kvs arbitrary: x)
  case (Cons kv kvs)
  then show ?case by (cases kv) (auto simp: bind_eq_Some_conv split: if_splits intro: assms)
qed simp

definition finite_cost :: "float64 \<Rightarrow> bool" where
  "finite_cost x \<longleftrightarrow> (\<exists>q. x = Fin q \<and> is_float q)"

lemma float_value_finite: "float_value v x = Some y \<Longrightarrow> finite_cost x \<Longrightarrow> finite_cost y"
  by (cases v) (auto simp: finite_cost_def dest: number_value_Some)

lemma allocation_finite: "allocation_of j = Some a \<Longrightarrow> finite_cost (TotalCost a)"
proof -
  assume "allocation_of j = Some a"
  then obtain kvs where "decode_field float_value ''totalCost'' kvs (Fin 0) = Some (TotalCost a)"
    by (auto simp: allocation_of_def bind_eq_Some_conv)
  from decode_field_keeps [of float_value finite_cost, OF float_value_finite this]
  show ?thesis by (simp add: finite_cost_def)
qed

text \<open>Every value of the decoded maps came out of the decoder of values.\<close>

definition values_ok :: "('v \<Rightarrow> bool) \<Rightarrow> (string \<times> 'v) list \<Rightarrow> bool" where
  "values_ok Q w \<longleftrightarrow> (\<forall>k v. map_of w k = Some v \<longrightarrow> Q v)"

lemma values_ok_Nil: "values_ok Q []"
  by (simp add: values_ok_def)

lemma map_fields_ok:
  assumes "\<And>j v. dec j = Some v \<Longrightarrow> Q v"
  shows "map_fields dec kvs w = Some w' \<Longrightarrow> values_ok Q w \<Longrightarrow> values_ok Q w'"
proof (induction kvs arbitrary: w)
  case (Cons kv kvs)
  obtain k v where kv: "kv = (k, v)" by (cases kv)
  with Cons.prems(1) obtain a where a: "dec v = Some a" "map_fields dec kvs (AList.update k a w) = Some w'"
    by (auto split: option.splits)
  have "values_ok Q (AList.update k a w)"
    using Cons.prems(2) assms [OF a(1)] by (auto simp: values_ok_def update_conv)
  with Cons.IH [OF a(2)] show ?case .
qed simp

lemma map_value_ok:
  assumes "\<And>j v. dec j = Some v \<Longrightarrow> Q v"
  shows "map_value dec j w = Some w' \<Longrightarrow> values_ok Q w \<Longrightarrow> values_ok Q w'"
  using map_fields_ok [of dec Q] assms by (cases j) (auto simp: values_ok_Nil)

lemma map_elements_ok:
  assumes "\<And>j v. dec j = Some v \<Longrightarrow> Q v"
  shows "map_elements dec js ws = Some ws' \<Longrightarrow> list_all (values_ok Q) ws \<Longrightarrow> list_all (values_ok Q) ws'"
proof (induction js arbitrary: ws ws')
  case (Cons j js)
  let ?w = "case ws of [] \<Rightarrow> [] | w # _ \<Rightarrow> w"
  from Cons.prems(1) obtain w1 ws1 where w1: "map_value dec j ?w = Some w1" "map_elements dec js (tl ws) = Some ws1"
    "ws' = w1 # ws1" by (auto split: option.splits)
  have "values_ok Q ?w" using Cons.prems(2) by (cases ws) (simp_all add: values_ok_Nil)
  with map_value_ok [OF assms w1(1)] have "values_ok Q w1" by simp
  moreover have "list_all (values_ok Q) (tl ws)" using Cons.prems(2) by (cases ws) simp_all
  with Cons.IH [OF w1(2)] have "list_all (values_ok Q) ws1" by simp
  ultimately show ?case using w1(3) by simp
qed simp

lemma maps_value_ok:
  assumes "\<And>j v. dec j = Some v \<Longrightarrow> Q v"
  shows "maps_value dec j ws = Some ws' \<Longrightarrow> list_all (values_ok Q) ws \<Longrightarrow> list_all (values_ok Q) ws'"
  using map_elements_ok [of dec Q] assms by (cases j) auto

lemma response_data_ok:
  assumes "\<And>j v. dec j = Some v \<Longrightarrow> Q v" and "response_data dec j = Some ws"
  shows "list_all (values_ok Q) ws"
proof -
  obtain kvs where "decode_field (maps_value dec) ''data'' kvs [] = Some ws"
    using assms(2) by (auto simp: response_data_def bind_eq_Some_conv)
  from decode_field_keeps [where Q = "list_all (values_ok Q)", OF maps_value_ok [of dec Q, OF assms(1)] this]
  show ?thesis by simp
qed

text \<open>What a stored row says of the source it was collected for.\<close>

definition kubernetes_row :: "env \<Rightarrow> cost_source \<Rightarrow> cost_record \<Rightarrow> bool" where
  "kubernetes_row e src row \<longleftrightarrow> cr_source row = cs_id src \<and> cr_project row = cs_project src
     \<and> cr_provider row = ''kubernetes'' \<and> cr_currency row = ''USD''
     \<and> (\<exists>x. finite_cost x \<and> cr_list row = e_real e x) \<and> cr_net row = cr_list row \<and> cr_amortized row = cr_list row
     \<and> (\<exists>cfg namespace. kubernetes_config_of (cs_config src) = Some cfg
          \<and> cr_provider_id row = ClusterName cfg @ ''/'' @ namespace \<and> cr_service row = ''Kubernetes/'' @ namespace
          \<and> cr_labels_json row = marshal_labels (Some [(''namespace'', namespace), (''cluster'', ClusterName cfg)]))"

lemma collect_kubernetes:
  assumes "CollectKubernetes e source window n = Inr records" and "r \<in> set records"
  obtains cfg namespace alloc where "kubernetes_config_of (cs_config source) = Some cfg"
    and "r = kubernetes_record source cfg window namespace alloc" and "finite_cost (TotalCost alloc)"
proof -
  obtain cfg body dataSets where cfg: "kubernetes_config_of (cs_config source) = Some cfg"
    and data: "Option.bind (ce_decode e body) (response_data allocation_of) = Some dataSets"
    and records: "records = concat (map (namespace_records e source cfg window) dataSets)"
    using assms(1) by (auto simp: CollectKubernetes_def Let_def split: option.splits sum.splits if_splits)
  obtain dataSet namespace alloc where d: "dataSet \<in> set dataSets" "map_of dataSet namespace = Some alloc"
    "r = kubernetes_record source cfg window namespace alloc"
    using assms(2) unfolding records namespace_records_def List.map_filter_def by (auto simp: image_iff)
  obtain j where "response_data allocation_of j = Some dataSets" using data by (auto simp: bind_eq_Some_conv)
  from response_data_ok [where Q = "\<lambda>a. finite_cost (TotalCost a)", OF allocation_finite this] d(1,2)
  have "finite_cost (TotalCost alloc)" by (auto simp: list_all_iff values_ok_def)
  with cfg d(3) that show thesis by blast
qed

lemma kubernetes_record_stored:
  assumes "stored_as e (kubernetes_record src cfg window namespace alloc) row"
    and "kubernetes_config_of (cs_config src) = Some cfg" and "finite_cost (TotalCost alloc)"
  shows "kubernetes_row e src row"
proof -
  obtain i where "row = (keep_record e (kubernetes_record src cfg window namespace alloc))\<lparr>cr_id := i, cr_labels := None,
      cr_labels_json := marshal_labels (cr_labels (kubernetes_record src cfg window namespace alloc))\<rparr>"
    using assms(1) unfolding stored_as_def by blast
  with assms(2,3) show ?thesis by (auto simp: kubernetes_row_def kubernetes_record_def keep_record_def)
qed

lemma main_registry_cases:
  assumes "GetCollector ty (main_registry ce) = Some c" and "co_collect c src window n = Inr records"
  shows "ty = CostSourceKubernetes \<and> CollectKubernetes ce src window n = Inr records \<or> records = []"
  using assms
  by (auto simp: GetCollector_def main_registry_def RegisterCollector_def NewRegistry_def kubernetes_collector_def
      gcp_collector_def azure_collector_def aws_collector_def CollectAWS_def CollectAzure_def CollectGCP_def
      split: if_splits option.splits)

section \<open>Runs with the registry of \<open>main\<close>\<close>

lemma restamped_sym: "restamped a b \<Longrightarrow> restamped b a"
proof -
  assume "restamped a b"
  then obtain t u where "b = a\<lparr>cs_collected := t, cs_updated := u\<rparr>" unfolding restamped_def by blast
  then show "restamped b a" by (simp add: restamped_def)
qed

lemma restamped_row:
  assumes "restamped a b" and "kubernetes_row e b row"
  shows "kubernetes_row e a row"
proof -
  obtain t u where "b = a\<lparr>cs_collected := t, cs_updated := u\<rparr>" using assms(1) unfolding restamped_def by blast
  with assms(2) show ?thesis by (simp add: kubernetes_row_def)
qed

definition one_of :: "cost_source list \<Rightarrow> cost_source \<Rightarrow> bool" where
  "one_of srcs src \<longleftrightarrow> (\<exists>a \<in> set srcs. restamped a src)"

lemma one_of_blind: "stamp_blind (one_of srcs)"
  unfolding stamp_blind_def one_of_def by (meson restamped_sym restamped_trans)

lemma one_of_mem: "list_all (one_of srcs) srcs"
  by (auto simp: list_all_iff one_of_def intro: restamped_refl)

definition collected_for :: "env \<Rightarrow> cost_source list \<Rightarrow> cost_record \<Rightarrow> bool" where
  "collected_for e srcs row \<longleftrightarrow>
     (\<exists>src \<in> set srcs. cs_enabled src \<and> cs_type src = CostSourceKubernetes \<and> kubernetes_row e src row)"

lemma main_collects: "collects e (main_registry ce) (\<lambda>src. one_of srcs src \<and> tick_wants t src) (collected_for e srcs)"
  unfolding collects_def
proof (intro allI impI)
  fix c src window n records r row
  assume c: "GetCollector (cs_type src) (main_registry ce) = Some c" "co_collect c src window n = Inr records"
    and src: "one_of srcs src \<and> tick_wants t src" and r: "r \<in> set records" "stored_as e r row"
  from main_registry_cases [OF c] r(1) have k: "cs_type src = CostSourceKubernetes" "CollectKubernetes ce src window n = Inr records"
    by auto
  from collect_kubernetes [OF k(2) r(1)] r(2) kubernetes_record_stored have row: "kubernetes_row e src row" by metis
  obtain a where a: "a \<in> set srcs" "restamped a src" using src by (auto simp: one_of_def)
  with restamped_row [OF a(2) row] restamped_fields [OF a(2)] k(1) src tick_wants_enabled
  show "collected_for e srcs row" by (auto simp: collected_for_def)
qed

lemma run_ticks_adds:
  "ends_in (sources_are (one_of srcs)) (adds_only (collected_for e srcs)) (run_ticks (main_registry ce) e marshal ts)"
proof (induction ts)
  case Nil
  have "run_ticks (main_registry ce) e marshal [] = Some" by (rule ext) simp
  then show ?case by (simp add: collections.ends_in_Some)
next
  case (Cons t ts)
  have "run_ticks (main_registry ce) e marshal (t # ts)
      = (\<lambda>s. Option.bind (run_tick (main_registry ce) e marshal t s) (run_ticks (main_registry ce) e marshal ts))"
    by (rule ext) simp
  with collections.ends_in_bind [OF collect_pass_adds [OF main_collects one_of_blind] Cons]
  show ?case by (simp add: run_tick_pass)
qed

text \<open>
  C22: Any sequence of scheduler runs with the collectors of \<open>main\<close> ends, whatever OpenCost answers and whatever
  fails, and the rows it has added to the cost records are each for an enabled Kubernetes source that was there
  at the start: with its project, the cluster of its configuration and a namespace, and one finite cost
  in dollars, as the columns keep it, as list, net and amortized cost.
\<close>

theorem run_stores_kubernetes_rows:
  assumes "db_inv (w_db w)" and "hub_inv h"
  shows "\<exists>s' rows. run_ticks (main_registry ce) e marshal ts \<lparr>ps_world = w, ps_hub = Some h\<rparr> = Some s'
    \<and> t_records (w_db (ps_world s')) = t_records (w_db w) @ rows
    \<and> (\<forall>row \<in> set rows. \<exists>src \<in> set (t_sources (w_db w)). cs_enabled src \<and> cs_type src = CostSourceKubernetes
         \<and> kubernetes_row e src row)"
proof -
  let ?s = "\<lparr>ps_world = w, ps_hub = Some h\<rparr>"
  have "pass_good cs_enabled UNIV ?s" using assms by (simp add: pass_good_def)
  from passes.meetsD [OF run_ticks_enabled this] obtain s' where
    s': "run_ticks (main_registry ce) e marshal ts ?s = Some s'" by blast
  have "sources_are (one_of (t_sources (w_db w))) ?s" by (simp add: sources_are_def one_of_mem)
  from collections.ends_inD [OF run_ticks_adds this s'] obtain rows where
    "t_records (w_db (ps_world s')) = t_records (w_db w) @ rows" "list_all (collected_for e (t_sources (w_db w))) rows"
    by (auto simp: adds_only_def)
  with s' show ?thesis by (auto simp: list_all_iff collected_for_def)
qed

text \<open>
  The cloud sources are never collected from: the hourly tick for them adds no row, whatever they are
  configured with.
\<close>

theorem cloud_tick_stores_nothing:
  assumes "run_tick (main_registry ce) e marshal CSPTick s = Some s'"
  shows "t_records (w_db (ps_world s')) = t_records (w_db (ps_world s))"
proof -
  have "collects e (main_registry ce) (\<lambda>src. True \<and> tick_wants CSPTick src) (\<lambda>_. False)"
    unfolding collects_def
  proof (intro allI impI)
    fix c src window n records r row
    assume c: "GetCollector (cs_type src) (main_registry ce) = Some c" "co_collect c src window n = Inr records"
      and src: "True \<and> tick_wants CSPTick src" and r: "r \<in> set records"
    with main_registry_cases [OF c] show False by (auto simp: tick_wants_def)
  qed
  from collect_pass_adds [OF this] have
    "ends_in (sources_are (\<lambda>_. True)) (adds_only (\<lambda>_. False)) (run_tick (main_registry ce) e marshal CSPTick)"
    by (simp add: run_tick_pass stamp_blind_def)
  from collections.ends_inD [OF this _ assms] show ?thesis
    by (auto simp: sources_are_def adds_only_def list_all_iff)
qed

section \<open>Runs\<close>

definition sample_collect_env :: "json collect_env" where
  "sample_collect_env =
     \<lparr>ce_request = (\<lambda>_. None),
      ce_do = (\<lambda>_ _. Inr (200, JObj [(''data'', JArr [JObj [(''web'', JObj [(''totalCost'', JNum 100)])]])])),
      ce_decode = Some, ce_text = (\<lambda>_. ''''), ce_json_error = (\<lambda>_. ''bad''), ce_decode_error = (\<lambda>_. ''bad''),
      ce_range = id\<rparr>"

definition cluster_source :: cost_source where
  "cluster_source = sample_source\<lparr>cs_config := Some (JObj [(''clusterName'', JStr ''prod''), (''opencostUrl'', JStr ''http://oc'')])\<rparr>"

text \<open>The collector at work: one record for the one namespace.\<close>

lemma sample_collect:
  assumes "cs_config src = cs_config cluster_source"
  shows "CollectKubernetes sample_collect_env src window n =
     Inr [kubernetes_record src \<lparr>ClusterName = ''prod'', OpenCostURL = ''http://oc'', KubeconfigRef = ''''\<rparr> window ''web''
       \<lparr>al_name = '''', al_start = '''', al_end = '''', CPUCost = Fin 0, RAMCost = Fin 0, GPUCost = Fin 0, TotalCost = Fin 100\<rparr>]"
proof -
  have r: "rnd 100 = Fin 100" using rnd_int [of 100] by simp
  show ?thesis
    unfolding CollectKubernetes_def assms
    by (simp add: kubernetes_config_of_def text_fields_def cluster_source_def object_fields_def
        same_key_def lower_def sample_collect_env_def StatusOK_def response_data_def allocation_of_def
        number_value_def r namespace_records_def List.map_filter_def Let_def)
qed

theorem run_stores_kubernetes_rows_witness:
  "\<exists>s' rows. run_ticks (main_registry sample_collect_env) sample_env (\<lambda>_. Some (0::nat)) [InitialRun, KubernetesTick]
        \<lparr>ps_world = sample_world, ps_hub = Some NewHub\<rparr> = Some s'
     \<and> t_records (w_db (ps_world s')) = t_records (w_db sample_world) @ rows
     \<and> list_all (kubernetes_row sample_env sample_source) rows"
proof -
  have "t_sources (w_db sample_world) = [sample_source]" by (simp add: sample_world_def sample_db_def)
  with run_stores_kubernetes_rows [OF sample_db_inv hub_inv_new] show ?thesis
    by (fastforce simp: list_all_iff)
qed

theorem cloud_tick_stores_nothing_witness:
  "\<exists>s'. run_tick (main_registry sample_collect_env) sample_env (\<lambda>_. Some (0::nat)) CSPTick
        \<lparr>ps_world = sample_world, ps_hub = Some NewHub\<rparr> = Some s'
     \<and> t_records (w_db (ps_world s')) = t_records (w_db sample_world)"
proof -
  let ?s = "\<lparr>ps_world = sample_world, ps_hub = Some (NewHub :: nat hub)\<rparr>"
  have "pass_good cs_enabled UNIV ?s" using sample_db_inv hub_inv_new by (simp add: pass_good_def)
  from passes.meetsD [OF run_tick_enabled this] obtain s' where
    r: "run_tick (main_registry sample_collect_env) sample_env (\<lambda>_. Some (0::nat)) CSPTick ?s = Some s'" by blast
  from cloud_tick_stores_nothing [OF r] r show ?thesis by simp
qed

end
