(* ===== verification/Overlap.thy ===== *)
theory Overlap
  imports Collectors_Laws
begin

text \<open>
  The scheduler as it runs: \<open>Start\<close> of \<open>internal/collector/scheduler.go\<close> starts every pass in a goroutine of its
  own, so passes overlap. A worker is such a goroutine; \<open>work\<close> is its next step, one call of the store,
  the collector or the hub; the relation lets the workers take steps in any order and the tickers start new
  ones at any time.

  Lemmas: no interleaving panics or breaks the schema; a worker that is not disturbed does what the functions of
  \<open>Scheduler\<close> do; and two passes that overlap collect the same costs twice.
\<close>

section \<open>Workers\<close>

text \<open>What a pass has left: which sources it wants, the sources of the current project, the projects after it.\<close>

type_synonym plan = "(cost_source \<Rightarrow> bool) \<times> cost_source list \<times> string list"

datatype worker =
    Starting "cost_source \<Rightarrow> bool"
  | Working plan
  | Collecting cost_source time_window plan
  | Storing cost_source "cost_record list" plan
  | Stamping cost_source nat plan
  | Announcing string cost_source json plan
  | Ended
  | Crashed

definition next_source :: "registry \<Rightarrow> env \<Rightarrow> cost_source \<Rightarrow> plan \<Rightarrow> 'm pass \<Rightarrow> worker \<times> 'm pass" where
  "next_source reg e src plan s =
     (case GetCollector (cs_type src) reg of
        None \<Rightarrow> (Working plan, s)
      | Some c \<Rightarrow>
          let (t1, s) = read_clock e s;
              (t2, s) = read_clock e s
          in (Collecting src (source_window src t1 t2) plan, s))"

definition collect_step :: "registry \<Rightarrow> cost_source \<Rightarrow> time_window \<Rightarrow> plan \<Rightarrow> 'm pass \<Rightarrow> worker" where
  "collect_step reg src window plan s =
     (case GetCollector (cs_type src) reg of
        None \<Rightarrow> Working plan
      | Some c \<Rightarrow>
          (case co_collect c src window (w_ticks (ps_world s)) of
             Inl err \<Rightarrow> Announcing ''collection.failed'' src (JObj [(''error'', JStr err), (''sourceId'', JStr (cs_id src))]) plan
           | Inr records \<Rightarrow> Storing src records plan))"

fun work :: "registry \<Rightarrow> env \<Rightarrow> (event \<Rightarrow> 'm option) \<Rightarrow> worker \<Rightarrow> 'm pass \<Rightarrow> worker \<times> 'm pass" where
  "work reg e marshal (Starting wanted) s =
     (let (r, w) = ListProjects e (ps_world s); s = s\<lparr>ps_world := w\<rparr> in
      case r of Inl err \<Rightarrow> (Ended, s) | Inr projects \<Rightarrow> (Working (wanted, [], map p_id projects), s))"
| "work reg e marshal (Working (wanted, [], [])) s = (Ended, s)"
| "work reg e marshal (Working (wanted, [], p # ps)) s =
     (let (r, w) = ListCostSources e p (ps_world s); s = s\<lparr>ps_world := w\<rparr> in
      case r of Inl err \<Rightarrow> (Working (wanted, [], ps), s) | Inr sources \<Rightarrow> (Working (wanted, sources, ps), s))"
| "work reg e marshal (Working (wanted, src # srcs, ps)) s =
     (if \<not> wanted src then (Working (wanted, srcs, ps), s) else next_source reg e src (wanted, srcs, ps) s)"
| "work reg e marshal (Collecting src window plan) s = (collect_step reg src window plan s, s)"
| "work reg e marshal (Storing src records plan) s =
     (let (r, w) = (if length records > 0 then InsertCostRecords e records (ps_world s) else (Inr (), ps_world s));
          s = s\<lparr>ps_world := w\<rparr>
      in case r of Inl err \<Rightarrow> (Working plan, s) | Inr _ \<Rightarrow> (Stamping src (length records) plan, s))"
| "work reg e marshal (Stamping src n plan) s =
     (let (t3, s) = read_clock e s;
          (r, w) = UpdateCostSourceCollectedAt e (cs_id src) t3 (ps_world s)
      in (Announcing ''collection.complete'' src
            (JObj [(''records'', JStr (Itoa n)), (''sourceId'', JStr (cs_id src))]) plan, s\<lparr>ps_world := w\<rparr>))"
| "work reg e marshal (Announcing ty src payload plan) s =
     (case publishEvent e marshal ty (cs_name src) payload s of
        None \<Rightarrow> (Crashed, s)
      | Some s \<Rightarrow> (Working plan, s))"
| "work reg e marshal Ended s = (Ended, s)"
| "work reg e marshal Crashed s = (Crashed, s)"

section \<open>Interleaving\<close>

record 'm schedule =
  sc_pass :: "'m pass"
  sc_workers :: "worker list"

inductive schedule_step :: "registry \<Rightarrow> env \<Rightarrow> (event \<Rightarrow> 'm option) \<Rightarrow> 'm schedule \<Rightarrow> 'm schedule \<Rightarrow> bool"
  for reg e marshal where
  start: "schedule_step reg e marshal s (s\<lparr>sc_workers := sc_workers s @ [Starting (tick_wants t)]\<rparr>)"
| turn: "i < length (sc_workers s) \<Longrightarrow> work reg e marshal (sc_workers s ! i) (sc_pass s) = (w, p) \<Longrightarrow>
    schedule_step reg e marshal s (s\<lparr>sc_workers := (sc_workers s)[i := w], sc_pass := p\<rparr>)"

abbreviation schedule_run :: "registry \<Rightarrow> env \<Rightarrow> (event \<Rightarrow> 'm option) \<Rightarrow> 'm schedule \<Rightarrow> 'm schedule \<Rightarrow> bool" where
  "schedule_run reg e marshal \<equiv> (schedule_step reg e marshal)\<^sup>*\<^sup>*"

section \<open>Safety\<close>

text \<open>What a step may do to the shared state is what a pass may do.\<close>

definition shared_good :: "'m pass \<Rightarrow> bool" where
  "shared_good s \<longleftrightarrow> pass_good (\<lambda>_. True) UNIV s"

lemma true_blind: "stamp_blind (\<lambda>_. True)"
  by (simp add: stamp_blind_def)

lemma shared_after:
  assumes "shared_good s" and "db_inv (w_db w') \<and> pass_frame UNIV (w_db (ps_world s)) (w_db w')"
  shows "shared_good (s\<lparr>ps_world := w'\<rparr>) \<and> pass_rel UNIV s (s\<lparr>ps_world := w'\<rparr>)"
  using good_after [OF _ true_blind, of UNIV s w'] assms by (simp add: shared_good_def)

lemma shared_clock: "shared_good s \<Longrightarrow> shared_good (snd (read_clock e s)) \<and> pass_rel UNIV s (snd (read_clock e s))"
  unfolding shared_good_def by (rule read_clock_good)

lemma shared_read:
  "shared_good s \<Longrightarrow> w_db w' = w_db (ps_world s) \<Longrightarrow> shared_good (s\<lparr>ps_world := w'\<rparr>) \<and> pass_rel UNIV s (s\<lparr>ps_world := w'\<rparr>)"
  unfolding shared_good_def using read_good by blast

lemma work_good:
  assumes "shared_good s" and "work reg e marshal a s = (b, s')" and "a \<noteq> Crashed"
  shows "shared_good s' \<and> pass_rel UNIV s s' \<and> b \<noteq> Crashed"
proof -
  have refl: "pass_rel UNIV s s" by (simp add: pass_rel_def pass_frame_refl)
  show ?thesis
  proof (cases "(reg, e, marshal, a, s)" rule: work.cases)
    case (1 _ _ _ wanted _)
    obtain r w where l: "ListProjects e (ps_world s) = (r, w)" by fastforce
    then have "w_db w = w_db (ps_world s)" by (metis ListProjects_def query_rows_db snd_conv)
    with shared_read [OF assms(1) this] assms(2) l 1 show ?thesis by (cases r) auto
  next
    case (3 _ _ _ wanted p ps _)
    obtain r w where l: "ListCostSources e p (ps_world s) = (r, w)" by fastforce
    then have "w_db w = w_db (ps_world s)" by (metis ListCostSources_def query_rows_db snd_conv)
    with shared_read [OF assms(1) this] assms(2) l 3 show ?thesis by (cases r) auto
  next
    case (4 _ _ _ wanted src srcs ps _)
    have clocks: "shared_good (snd (read_clock e (snd (read_clock e s))))"
      "pass_rel UNIV s (snd (read_clock e (snd (read_clock e s))))"
      using shared_clock assms(1) passes.rel_trans by blast+
    from 4 assms clocks refl show ?thesis
      by (auto simp: next_source_def case_prod_beta Let_def split: if_splits option.splits)
  next
    case (5 _ _ _ src window plan _)
    with assms refl show ?thesis by (auto simp: collect_step_def split: option.splits sum.splits)
  next
    case (6 _ _ _ src records plan _)
    obtain r w where ins: "(if length records > 0 then InsertCostRecords e records (ps_world s) else (Inr (), ps_world s)) = (r, w)"
      by fastforce
    have "db_inv (w_db (ps_world s))" using assms(1) by (simp add: shared_good_def pass_good_def)
    with ins insert_records_frame [OF this, of e records UNIV]
    have "db_inv (w_db w) \<and> pass_frame UNIV (w_db (ps_world s)) (w_db w)"
      by (auto simp: pass_frame_refl split: if_splits)
    from shared_after [OF assms(1) this] 6 assms(2) ins show ?thesis by (cases r) auto
  next
    case (7 _ _ _ src n plan _)
    let ?s1 = "snd (read_clock e s)" and ?t = "fst (read_clock e s)"
    have s1: "shared_good ?s1" "pass_rel UNIV s ?s1" using shared_clock [OF assms(1)] by auto
    then have "db_inv (w_db (ps_world ?s1))" by (simp add: shared_good_def pass_good_def)
    from shared_after [OF s1(1) update_collected_frame [OF this, of "cs_id src" UNIV e ?t]] s1(2) 7 assms(2)
    show ?thesis by (auto simp: case_prod_beta Let_def intro: passes.rel_trans)
  next
    case (8 _ _ _ ty src payload plan _)
    from passes.meetsD [OF publishEvent_meets, of "\<lambda>_. True" UNIV s e marshal ty "cs_name src" payload] assms(1)
    obtain t where "publishEvent e marshal ty (cs_name src) payload s = Some t" "shared_good t" "pass_rel UNIV s t"
      unfolding shared_good_def by blast
    with 8 assms(2) show ?thesis by auto
  qed (use assms refl in auto)
qed

definition schedule_inv :: "'m schedule \<Rightarrow> bool" where
  "schedule_inv s \<longleftrightarrow> shared_good (sc_pass s) \<and> Crashed \<notin> set (sc_workers s)"

lemma schedule_step_inv:
  "schedule_step reg e marshal s s' \<Longrightarrow> schedule_inv s \<Longrightarrow> schedule_inv s' \<and> pass_rel UNIV (sc_pass s) (sc_pass s')"
proof (induction rule: schedule_step.induct)
  case (turn i s w p)
  then have "sc_workers s ! i \<noteq> Crashed" by (metis nth_mem schedule_inv_def)
  with work_good [OF _ turn(2)] turn(3) set_update_subset_insert [of "sc_workers s" i w]
  show ?case by (auto simp: schedule_inv_def)
qed (simp add: schedule_inv_def pass_rel_def pass_frame_refl)

text \<open>Seen from a first state: the invariant, and that only records and stamps have changed since.\<close>

interpretation schedule_steps: step_invariant "schedule_step reg e marshal"
    "\<lambda>t. schedule_inv t \<and> pass_rel UNIV (sc_pass s) (sc_pass t)" for reg e marshal s
  by unfold_locales (use schedule_step_inv passes.rel_trans in blast)

lemma schedule_run_inv:
  "schedule_run reg e marshal s s' \<Longrightarrow> schedule_inv s \<Longrightarrow> schedule_inv s' \<and> pass_rel UNIV (sc_pass s) (sc_pass s')"
  using schedule_steps.run_keeps [of reg e marshal s s' s] by (simp add: passes.rel_refl)

text \<open>
  C9: However the passes overlap, whatever the collectors answer and whatever fails, no worker panics, the schema
  and the hub's invariant hold after every step, and all that has happened to the tables is added
  cost records and stamped sources.
\<close>

theorem overlapping_passes_safe:
  assumes "db_inv (w_db w)" and "hub_inv h"
    and "schedule_run reg e marshal \<lparr>sc_pass = \<lparr>ps_world = w, ps_hub = Some h\<rparr>, sc_workers = []\<rparr> s"
  shows "Crashed \<notin> set (sc_workers s) \<and> db_inv (w_db (ps_world (sc_pass s)))
    \<and> (\<exists>h'. ps_hub (sc_pass s) = Some h' \<and> hub_inv h')
    \<and> pass_frame UNIV (w_db w) (w_db (ps_world (sc_pass s)))"
proof -
  have "schedule_inv \<lparr>sc_pass = \<lparr>ps_world = w, ps_hub = Some h\<rparr>, sc_workers = []\<rparr>"
    using assms(1,2) by (simp add: schedule_inv_def shared_good_def pass_good_def)
  from schedule_run_inv [OF assms(3) this] show ?thesis
    by (auto simp: schedule_inv_def shared_good_def pass_good_def pass_rel_def split: option.splits)
qed

section \<open>A worker alone\<close>

text \<open>Steps of one worker with nobody between them.\<close>

definition alone :: "registry \<Rightarrow> env \<Rightarrow> (event \<Rightarrow> 'm option) \<Rightarrow> worker \<times> 'm pass \<Rightarrow> worker \<times> 'm pass \<Rightarrow> bool" where
  "alone reg e marshal = (\<lambda>x y. y = work reg e marshal (fst x) (snd x))\<^sup>*\<^sup>*"

lemma alone_refl: "alone reg e marshal x x"
  by (simp add: alone_def)

lemma alone_trans: "alone reg e marshal x y \<Longrightarrow> alone reg e marshal y z \<Longrightarrow> alone reg e marshal x z"
  unfolding alone_def by (rule rtranclp_trans)

lemma alone_step: "work reg e marshal a s = y \<Longrightarrow> alone reg e marshal y z \<Longrightarrow> alone reg e marshal (a, s) z"
  unfolding alone_def by (rule converse_rtranclp_into_rtranclp [of _ "(a, s)" y]) simp_all

lemma announce_alone:
  "publishEvent e marshal ty (cs_name src) payload s = Some t \<Longrightarrow>
   alone reg e marshal (Announcing ty src payload plan, s) (Working plan, t)"
  by (rule alone_step [OF _ alone_refl]) simp

lemma store_alone:
  assumes "store_collected e marshal src records s = Some t"
  shows "alone reg e marshal (Storing src records plan, s) (Working plan, t)"
proof -
  obtain r w where ins: "(if length records > 0 then InsertCostRecords e records (ps_world s) else (Inr (), ps_world s)) = (r, w)"
    by fastforce
  show ?thesis
  proof (cases r)
    case (Inl err)
    with ins assms have "t = s\<lparr>ps_world := w\<rparr>" by (simp add: store_collected_def)
    with ins Inl show ?thesis by (intro alone_step [OF _ alone_refl]) simp
  next
    case (Inr u)
    let ?s1 = "s\<lparr>ps_world := w\<rparr>"
    let ?s2 = "snd (read_clock e ?s1)" and ?t3 = "fst (read_clock e ?s1)"
    let ?w3 = "snd (UpdateCostSourceCollectedAt e (cs_id src) ?t3 (ps_world ?s2))"
    have "publishEvent e marshal ''collection.complete'' (cs_name src)
        (JObj [(''records'', JStr (Itoa (length records))), (''sourceId'', JStr (cs_id src))]) (?s2\<lparr>ps_world := ?w3\<rparr>) = Some t"
      using assms ins Inr by (simp add: store_collected_def case_prod_beta Let_def)
    note last = announce_alone [OF this, of reg plan]
    have "work reg e marshal (Storing src records plan) s = (Stamping src (length records) plan, ?s1)"
      using ins Inr by simp
    then show ?thesis
      by (rule alone_step) (rule alone_step [OF _ last], simp add: case_prod_beta Let_def)
  qed
qed

lemma source_alone:
  assumes "collectSource reg e marshal src s = Some t" and "wanted src"
  shows "alone reg e marshal (Working (wanted, src # srcs, ps), s) (Working (wanted, srcs, ps), t)"
proof (cases "GetCollector (cs_type src) reg")
  case None
  with assms show ?thesis by (intro alone_step [OF _ alone_refl]) (simp add: collectSource_def next_source_def)
next
  case (Some c)
  let ?plan = "(wanted, srcs, ps)"
  let ?s1 = "snd (read_clock e s)" let ?s2 = "snd (read_clock e ?s1)"
  let ?window = "source_window src (fst (read_clock e s)) (fst (read_clock e ?s1))"
  have one: "work reg e marshal (Working (wanted, src # srcs, ps)) s = (Collecting src ?window ?plan, ?s2)"
    using assms(2) Some by (simp add: next_source_def case_prod_beta Let_def)
  have "alone reg e marshal (Collecting src ?window ?plan, ?s2) (Working ?plan, t)"
  proof (cases "co_collect c src ?window (w_ticks (ps_world ?s2))")
    case (Inl err)
    then have "publishEvent e marshal ''collection.failed'' (cs_name src)
        (JObj [(''error'', JStr err), (''sourceId'', JStr (cs_id src))]) ?s2 = Some t"
      using assms(1) Some by (simp add: collectSource_def case_prod_beta)
    from announce_alone [OF this] show ?thesis
      by (rule alone_step [rotated]) (simp add: collect_step_def Some Inl)
  next
    case (Inr records)
    then have "store_collected e marshal src records ?s2 = Some t"
      using assms(1) Some by (simp add: collectSource_def case_prod_beta)
    from store_alone [OF this] show ?thesis
      by (rule alone_step [rotated]) (simp add: collect_step_def Some Inr)
  qed
  with one show ?thesis by (rule alone_step)
qed

lemma sources_alone:
  "collect_sources wanted reg e marshal srcs s = Some t \<Longrightarrow>
   alone reg e marshal (Working (wanted, srcs, ps), s) (Working (wanted, [], ps), t)"
proof (induction srcs arbitrary: s)
  case (Cons src srcs)
  show ?case
  proof (cases "wanted src")
    case True
    with Cons.prems obtain u where u: "collectSource reg e marshal src s = Some u"
      "collect_sources wanted reg e marshal srcs u = Some t" by (auto simp: bind_eq_Some_conv)
    from source_alone [where wanted = wanted, OF u(1) True] Cons.IH [OF u(2)] show ?thesis by (rule alone_trans)
  next
    case False
    then have "alone reg e marshal (Working (wanted, srcs, ps), s) (Working (wanted, [], ps), t)"
      using Cons by simp
    then show ?thesis by (rule alone_step [rotated]) (simp add: False)
  qed
qed (simp add: alone_refl)

lemma projects_alone:
  "collect_projects wanted reg e marshal projects s = Some t \<Longrightarrow>
   alone reg e marshal (Working (wanted, [], map p_id projects), s) (Working (wanted, [], []), t)"
proof (induction projects arbitrary: s)
  case (Cons p projects)
  then obtain u where u: "collectForProject wanted reg e marshal (p_id p) s = Some u"
    "collect_projects wanted reg e marshal projects u = Some t" by (auto simp: bind_eq_Some_conv)
  obtain r w where l: "ListCostSources e (p_id p) (ps_world s) = (r, w)" by fastforce
  have "alone reg e marshal (Working (wanted, [], map p_id (p # projects)), s) (Working (wanted, [], map p_id projects), u)"
  proof (cases r)
    case (Inl err)
    with l u(1) have "u = s\<lparr>ps_world := w\<rparr>" by (simp add: collectForProject_def)
    with l Inl show ?thesis by (intro alone_step [OF _ alone_refl]) simp
  next
    case (Inr srcs)
    with l u(1) have "collect_sources wanted reg e marshal srcs (s\<lparr>ps_world := w\<rparr>) = Some u"
      by (simp add: collectForProject_def)
    from sources_alone [OF this] show ?thesis by (rule alone_step [rotated]) (simp add: l Inr)
  qed
  with Cons.IH [OF u(2)] show ?case by (blast intro: alone_trans)
qed (simp add: alone_refl)

lemma pass_alone:
  assumes "collect_pass wanted reg e marshal s = Some t"
  shows "alone reg e marshal (Starting wanted, s) (Ended, t)"
proof -
  obtain r w where l: "ListProjects e (ps_world s) = (r, w)" by fastforce
  show ?thesis
  proof (cases r)
    case (Inl err)
    with l assms have "t = s\<lparr>ps_world := w\<rparr>" by (simp add: collect_pass_def)
    with l Inl show ?thesis by (intro alone_step [OF _ alone_refl]) simp
  next
    case (Inr projects)
    with l assms have "collect_projects wanted reg e marshal projects (s\<lparr>ps_world := w\<rparr>) = Some t"
      by (simp add: collect_pass_def)
    from projects_alone [OF this]
    have "alone reg e marshal (Working (wanted, [], map p_id projects), s\<lparr>ps_world := w\<rparr>) (Ended, t)"
      by (rule alone_trans) (rule alone_step [OF _ alone_refl], simp)
    then show ?thesis by (rule alone_step [rotated]) (simp add: l Inr)
  qed
qed

text \<open>Turns of one worker in the interleaved system.\<close>

lemma alone_run:
  assumes "alone reg e marshal x y" and "i < length (sc_workers s)"
  shows "schedule_run reg e marshal (s\<lparr>sc_workers := (sc_workers s)[i := fst x], sc_pass := snd x\<rparr>)
    (s\<lparr>sc_workers := (sc_workers s)[i := fst y], sc_pass := snd y\<rparr>)"
  using assms(1) unfolding alone_def
proof (induction rule: rtranclp_induct)
  case (step y z)
  let ?s = "s\<lparr>sc_workers := (sc_workers s)[i := fst y], sc_pass := snd y\<rparr>"
  have "schedule_step reg e marshal ?s (?s\<lparr>sc_workers := (sc_workers ?s)[i := fst z], sc_pass := snd z\<rparr>)"
    by (rule turn) (use assms(2) step.hyps(2) in simp_all)
  then have "schedule_step reg e marshal ?s (s\<lparr>sc_workers := (sc_workers s)[i := fst z], sc_pass := snd z\<rparr>)" by simp
  with step.IH show ?case by (rule rtranclp.rtrancl_into_rtrancl)
qed simp

lemma tick_run:
  assumes "run_tick reg e marshal t (sc_pass s) = Some p"
  shows "schedule_run reg e marshal s (s\<lparr>sc_workers := sc_workers s @ [Ended], sc_pass := p\<rparr>)"
proof -
  let ?s = "s\<lparr>sc_workers := sc_workers s @ [Starting (tick_wants t)]\<rparr>"
  have "alone reg e marshal (Starting (tick_wants t), sc_pass s) (Ended, p)"
    using assms unfolding run_tick_pass by (rule pass_alone)
  from alone_run [OF this, of "length (sc_workers s)" ?s]
  have "schedule_run reg e marshal ?s (s\<lparr>sc_workers := sc_workers s @ [Ended], sc_pass := p\<rparr>)" by simp
  with start [of reg e marshal s t] show ?thesis by (rule converse_rtranclp_into_rtranclp)
qed

text \<open>
  C31: A tick whose worker is not disturbed does exactly what the function \<open>run_tick\<close> does: started from any
  schedule, it ends, leaving the tables, the clock and the hub as the function leaves them.
\<close>

theorem tick_refined:
  assumes "run_tick reg e marshal t (sc_pass s) = Some p"
  shows "schedule_run reg e marshal s (s\<lparr>sc_workers := sc_workers s @ [Ended], sc_pass := p\<rparr>)"
  using assms by (rule tick_run)

section \<open>Two passes at once\<close>

text \<open>
  A Kubernetes source that was collected before, on an empty table of records: the initial pass and the first
  Kubernetes tick, which starts while the initial pass is still waiting for OpenCost.
\<close>

definition stamped_source :: cost_source where
  "stamped_source = cluster_source\<lparr>cs_collected := Some 0\<rparr>"

definition cluster_db :: "cost_record list \<Rightarrow> tables" where
  "cluster_db rows = empty_tables\<lparr>t_projects := [sample_project], t_sources := [stamped_source], t_records := rows\<rparr>"

definition cluster_pass :: "cost_record list \<Rightarrow> nat \<Rightarrow> nat \<Rightarrow> nat \<Rightarrow> nat pass" where
  "cluster_pass rows calls ticks ids =
     \<lparr>ps_world = \<lparr>w_db = cluster_db rows, w_calls = calls, w_ticks = ticks, w_ids = ids\<rparr>, ps_hub = None\<rparr>"

abbreviation cluster_work :: "worker \<times> nat pass \<Rightarrow> worker \<times> nat pass \<Rightarrow> bool" where
  "cluster_work \<equiv> alone (main_registry sample_collect_env) sample_env (\<lambda>_. Some (0::nat))"

definition web_row :: "nat \<Rightarrow> time \<Rightarrow> cost_record" where
  "web_row i t = (kubernetes_record stamped_source
       \<lparr>ClusterName = ''prod'', OpenCostURL = ''http://oc'', KubeconfigRef = ''''\<rparr> \<lparr>tw_start = 0, tw_end = t\<rparr> ''web''
       \<lparr>al_name = '''', al_start = '''', al_end = '''', CPUCost = Fin 0, RAMCost = Fin 0, GPUCost = Fin 0, TotalCost = Fin 100\<rparr>)
     \<lparr>cr_id := ''id-'' @ Itoa i, cr_labels := None,
      cr_labels_json := JObj [(''namespace'', JStr ''web''), (''cluster'', JStr ''prod'')]\<rparr>"

lemma kubernetes_registered:
  "GetCollector (cs_type stamped_source) (main_registry ce) = Some (kubernetes_collector ce)"
  by (simp add: GetCollector_def main_registry_def RegisterCollector_def stamped_source_def cluster_source_def sample_source_def)

lemma stamped_wanted: "tick_wants InitialRun stamped_source" "tick_wants KubernetesTick stamped_source"
  by (simp_all add: tick_wants_def stamped_source_def cluster_source_def sample_source_def)

lemma begin_collecting:
  assumes "wanted stamped_source"
  shows "cluster_work (Starting wanted, cluster_pass rows c k i)
    (Collecting stamped_source \<lparr>tw_start = 0, tw_end = int (Suc k)\<rparr> (wanted, [], []), cluster_pass rows (Suc (Suc c)) (Suc (Suc k)) i)"
proof -
  let ?work = "work (main_registry sample_collect_env) sample_env (\<lambda>_. Some (0::nat))"
  have a: "?work (Starting wanted) (cluster_pass rows c k i) = (Working (wanted, [], [''p1'']), cluster_pass rows (Suc c) k i)"
    by (simp add: ListProjects_def cluster_pass_def cluster_db_def run_defs sort_by_def)
  have b: "?work (Working (wanted, [], [''p1''])) (cluster_pass rows (Suc c) k i)
      = (Working (wanted, [stamped_source], []), cluster_pass rows (Suc (Suc c)) k i)"
    by (simp add: ListCostSources_def cluster_pass_def cluster_db_def run_defs sort_by_def stamped_source_def
        cluster_source_def sample_source_def)
  have "cs_collected stamped_source = Some 0" by (simp add: stamped_source_def)
  then have c: "?work (Working (wanted, [stamped_source], [])) (cluster_pass rows (Suc (Suc c)) k i)
      = (Collecting stamped_source \<lparr>tw_start = 0, tw_end = int (Suc k)\<rparr> (wanted, [], []), cluster_pass rows (Suc (Suc c)) (Suc (Suc k)) i)"
    using assms
    by (simp add: next_source_def kubernetes_registered read_clock_def now_def cluster_pass_def source_window_def sample_env_def)
  show ?thesis by (rule alone_step [OF a alone_step [OF b alone_step [OF c alone_refl]]])
qed

lemma collect_and_store:
  assumes "''id-'' @ Itoa i \<notin> cr_id ` set rows"
  shows "\<exists>c'. cluster_work (Collecting stamped_source \<lparr>tw_start = 0, tw_end = t\<rparr> plan, cluster_pass rows c k i)
    (Stamping stamped_source 1 plan, cluster_pass (rows @ [web_row i t]) c' k (Suc i))"
proof -
  let ?work = "work (main_registry sample_collect_env) sample_env (\<lambda>_. Some (0::nat))"
  let ?r = "kubernetes_record stamped_source \<lparr>ClusterName = ''prod'', OpenCostURL = ''http://oc'', KubeconfigRef = ''''\<rparr>
       \<lparr>tw_start = 0, tw_end = t\<rparr> ''web''
       \<lparr>al_name = '''', al_start = '''', al_end = '''', CPUCost = Fin 0, RAMCost = Fin 0, GPUCost = Fin 0, TotalCost = Fin 100\<rparr>"
  have "CollectKubernetes sample_collect_env stamped_source \<lparr>tw_start = 0, tw_end = t\<rparr> k = Inr [?r]"
    by (rule sample_collect) (simp add: stamped_source_def)
  then have a: "?work (Collecting stamped_source \<lparr>tw_start = 0, tw_end = t\<rparr> plan) (cluster_pass rows c k i)
      = (Storing stamped_source [?r] plan, cluster_pass rows c k i)"
    by (simp add: collect_step_def kubernetes_registered kubernetes_collector_def cluster_pass_def)
  obtain c' where b: "?work (Storing stamped_source [?r] plan) (cluster_pass rows c k i)
      = (Stamping stamped_source 1 plan, cluster_pass (rows @ [web_row i t]) c' k (Suc i))"
    using assms
    by (simp add: InsertCostRecords_def cluster_pass_def cluster_db_def run_defs stmt_insert_record_def id_sets web_row_def
        kubernetes_record_def marshal_labels_def stamped_source_def cluster_source_def sample_source_def)
  show ?thesis by (rule exI) (rule alone_step [OF a alone_step [OF b alone_refl]])
qed

lemma alone_run_pair:
  assumes "alone reg e marshal (a, p) (b, q)"
  shows "schedule_run reg e marshal \<lparr>sc_pass = p, sc_workers = [a, w]\<rparr> \<lparr>sc_pass = q, sc_workers = [b, w]\<rparr>"
    and "schedule_run reg e marshal \<lparr>sc_pass = p, sc_workers = [w, a]\<rparr> \<lparr>sc_pass = q, sc_workers = [w, b]\<rparr>"
  using alone_run [OF assms, of 0 "\<lparr>sc_pass = p, sc_workers = [a, w]\<rparr>"]
    alone_run [OF assms, of 1 "\<lparr>sc_pass = p, sc_workers = [w, a]\<rparr>"] by simp_all

text \<open>
  C36: Passes that overlap collect twice: both read the same last collection time, ask for the same namespace
  from there on, and store a row each; the tables then count the costs of the common time twice.
\<close>

theorem double_collection_reachable:
  "\<exists>s r1 r2. schedule_run (main_registry sample_collect_env) sample_env (\<lambda>_. Some (0::nat))
       \<lparr>sc_pass = cluster_pass [] 0 0 0, sc_workers = []\<rparr> s
     \<and> t_records (w_db (ps_world (sc_pass s))) = [r1, r2]
     \<and> cr_source r1 = cr_source r2 \<and> cr_service r1 = cr_service r2 \<and> cr_id r1 \<noteq> cr_id r2
     \<and> cr_start r1 = cr_start r2 \<and> cr_start r1 < cr_end r1 \<and> cr_start r2 < cr_end r2"
proof -
  let ?run = "schedule_run (main_registry sample_collect_env) sample_env (\<lambda>_. Some (0::nat))"
  let ?A = "tick_wants InitialRun" and ?B = "tick_wants KubernetesTick"
  let ?a = "Collecting stamped_source \<lparr>tw_start = 0, tw_end = int (Suc 0)\<rparr> (?A, [], [])"
  let ?b = "Collecting stamped_source \<lparr>tw_start = 0, tw_end = int (Suc 2)\<rparr> (?B, [], [])"
  let ?a' = "Stamping stamped_source 1 (?A, [], [])" and ?b' = "Stamping stamped_source 1 (?B, [], [])"
  have "?run \<lparr>sc_pass = cluster_pass [] 0 0 0, sc_workers = []\<rparr> \<lparr>sc_pass = cluster_pass [] 0 0 0, sc_workers = [Starting ?A, Starting ?B]\<rparr>"
    using start [of "main_registry sample_collect_env" sample_env "\<lambda>_. Some 0" "\<lparr>sc_pass = cluster_pass [] 0 0 0, sc_workers = []\<rparr>" InitialRun]
      start [of "main_registry sample_collect_env" sample_env "\<lambda>_. Some 0" "\<lparr>sc_pass = cluster_pass [] 0 0 0, sc_workers = [Starting ?A]\<rparr>" KubernetesTick]
    by simp
  also have "?run \<dots> \<lparr>sc_pass = cluster_pass [] 2 2 0, sc_workers = [?a, Starting ?B]\<rparr>"
    using alone_run_pair(1) [OF begin_collecting [where wanted = ?A and rows = "[]" and c = 0 and k = 0 and i = 0, OF stamped_wanted(1)]] by (simp add: numeral_2_eq_2)
  also have "?run \<dots> \<lparr>sc_pass = cluster_pass [] 4 4 0, sc_workers = [?a, ?b]\<rparr>"
    using alone_run_pair(2) [OF begin_collecting [where wanted = ?B and rows = "[]" and c = 2 and k = 2 and i = 0, OF stamped_wanted(2)]] by (simp add: eval_nat_numeral)
  finally have start: "?run \<lparr>sc_pass = cluster_pass [] 0 0 0, sc_workers = []\<rparr> \<lparr>sc_pass = cluster_pass [] 4 4 0, sc_workers = [?a, ?b]\<rparr>" .
  obtain c1 where "?run \<lparr>sc_pass = cluster_pass [] 4 4 0, sc_workers = [?a, ?b]\<rparr>
      \<lparr>sc_pass = cluster_pass [web_row 0 1] c1 4 1, sc_workers = [?a', ?b]\<rparr>"
    using collect_and_store [of 0 "[]" "int (Suc 0)" "(?A, [], [])" 4 4] alone_run_pair(1) by fastforce
  moreover have "''id-'' @ Itoa 1 \<notin> cr_id ` set [web_row 0 1]"
    using Itoa_inj [of 1 0] by (auto simp: web_row_def)
  from collect_and_store [OF this, of "int (Suc 2)" "(?B, [], [])" c1 4] obtain c2 where
    "?run \<lparr>sc_pass = cluster_pass [web_row 0 1] c1 4 1, sc_workers = [?a', ?b]\<rparr>
      \<lparr>sc_pass = cluster_pass [web_row 0 1, web_row 1 3] c2 4 2, sc_workers = [?a', ?b']\<rparr>"
    using alone_run_pair(2) by (fastforce simp: numeral_2_eq_2)
  ultimately have "?run \<lparr>sc_pass = cluster_pass [] 0 0 0, sc_workers = []\<rparr>
      \<lparr>sc_pass = cluster_pass [web_row 0 1, web_row 1 3] c2 4 2, sc_workers = [?a', ?b']\<rparr>"
    using start by (meson rtranclp_trans)
  moreover have "cr_id (web_row 0 1) \<noteq> cr_id (web_row 1 3)" using Itoa_inj [of 0 1] by (auto simp: web_row_def)
  ultimately show ?thesis
    by (intro exI [where x = "\<lparr>sc_pass = cluster_pass [web_row 0 1, web_row 1 3] c2 4 2, sc_workers = [?a', ?b']\<rparr>"]
        exI [where x = "web_row 0 1"] exI [where x = "web_row 1 3"])
      (simp add: cluster_pass_def cluster_db_def web_row_def kubernetes_record_def)
qed

definition sample_schedule :: "nat schedule" where
  "sample_schedule = \<lparr>sc_pass = \<lparr>ps_world = sample_world, ps_hub = Some NewHub\<rparr>, sc_workers = []\<rparr>"

lemma sample_tick:
  obtains p where "run_tick (main_registry sample_collect_env) sample_env (\<lambda>_. Some (0::nat)) KubernetesTick (sc_pass sample_schedule) = Some p"
proof -
  have "pass_good cs_enabled UNIV (sc_pass sample_schedule)"
    using sample_db_inv hub_inv_new by (simp add: pass_good_def sample_schedule_def)
  from passes.meetsD [OF run_tick_enabled this] that show thesis by blast
qed

theorem overlapping_passes_safe_witness:
  "\<exists>s. schedule_run (main_registry sample_collect_env) sample_env (\<lambda>_. Some (0::nat)) sample_schedule s
     \<and> sc_workers s = [Ended] \<and> db_inv (w_db (ps_world (sc_pass s)))"
proof -
  obtain p where "run_tick (main_registry sample_collect_env) sample_env (\<lambda>_. Some (0::nat)) KubernetesTick (sc_pass sample_schedule) = Some p"
    by (rule sample_tick)
  from tick_run [OF this] have r: "schedule_run (main_registry sample_collect_env) sample_env (\<lambda>_. Some (0::nat)) sample_schedule
      (sample_schedule\<lparr>sc_workers := [Ended], sc_pass := p\<rparr>)" by (simp add: sample_schedule_def)
  from overlapping_passes_safe [OF sample_db_inv hub_inv_new r [unfolded sample_schedule_def]] r
  show ?thesis by (intro exI [where x = "sample_schedule\<lparr>sc_workers := [Ended], sc_pass := p\<rparr>"]) (simp add: sample_schedule_def)
qed

theorem tick_refined_witness:
  "\<exists>p. schedule_run (main_registry sample_collect_env) sample_env (\<lambda>_. Some (0::nat)) sample_schedule
     \<lparr>sc_pass = p, sc_workers = [Ended]\<rparr>"
proof -
  obtain p where "run_tick (main_registry sample_collect_env) sample_env (\<lambda>_. Some (0::nat)) KubernetesTick (sc_pass sample_schedule) = Some p"
    by (rule sample_tick)
  from tick_refined [OF this] show ?thesis by (auto simp: sample_schedule_def)
qed

end
