(* ===== verification/Config.thy ===== *)
theory Config
  imports Models
begin

text \<open>
  \<open>internal/config/config.go\<close>: the configuration read from environment variables. The environment is a function
  from names to values, empty for an unset variable, as \<open>os.Getenv\<close> reads it.
\<close>

record config =
  cf_HTTPAddr :: string
  cf_OpenCostURL :: string
  cf_PluginDir :: string
  cf_PluginConfigDir :: string
  cf_LogLevel :: string
  cf_DevMode :: bool
  cf_AuthDisabled :: bool
  cf_DatabaseDSN :: string
  cf_OIDCIssuer :: string
  cf_OIDCClientID :: string
  cf_OIDCClientSecret :: string
  cf_OIDCRedirectURL :: string
  cf_OIDCScopes :: "string list"
  cf_SessionSecret :: string

type_synonym environment = "string \<Rightarrow> string"

text \<open>\<open>strings.Split\<close> at a character and \<open>strconv.Atoi\<close>.\<close>

fun Split :: "char \<Rightarrow> string \<Rightarrow> string list" where
  "Split sep [] = [[]]"
| "Split sep (c # cs) =
     (if c = sep then [] # Split sep cs
      else case Split sep cs of [] \<Rightarrow> [[c]] | x # xs \<Rightarrow> (c # x) # xs)"

definition Atoi :: "string \<Rightarrow> int option" where
  "Atoi s =
     (let (neg, ds) = (case s of
            [] \<Rightarrow> (False, s)
          | c # cs \<Rightarrow> if c = CHR ''-'' then (True, cs) else if c = CHR ''+'' then (False, cs) else (False, s));
          n = (if neg then - int (parse_nat ds) else int (parse_nat ds))
      in if ds = [] \<or> \<not> list_all is_digit ds then None
         else if - (2 ^ 63) \<le> n \<and> n < 2 ^ 63 then Some n else None)"

definition envBool :: "environment \<Rightarrow> string \<Rightarrow> bool" where
  "envBool env key = (let v = env key in v = ''true'' \<or> v = ''1'' \<or> v = ''yes'')"

definition envSlice :: "environment \<Rightarrow> string \<Rightarrow> string list \<Rightarrow> string list" where
  "envSlice env key fallback = (let v = env key in if v \<noteq> '''' then Split CHR '','' v else fallback)"

definition envOr :: "environment \<Rightarrow> string \<Rightarrow> string \<Rightarrow> string" where
  "envOr env key fallback = (let v = env key in if v \<noteq> '''' then v else fallback)"

definition envIntOr :: "environment \<Rightarrow> string \<Rightarrow> int \<Rightarrow> int" where
  "envIntOr env key fallback =
     (let v = env key in if v \<noteq> '''' then case Atoi v of Some n \<Rightarrow> n | None \<Rightarrow> fallback else fallback)"

definition Load :: "environment \<Rightarrow> config" where
  "Load env =
     \<lparr>cf_HTTPAddr = envOr env ''FINGUARD_ADDR'' '':8080'',
      cf_OpenCostURL = envOr env ''OPENCOST_URL'' ''http://opencost.opencost.svc.cluster.local:9003'',
      cf_PluginDir = envOr env ''FINGUARD_PLUGIN_DIR'' ''/opt/finguard/plugins/bin'',
      cf_PluginConfigDir = envOr env ''FINGUARD_PLUGIN_CONFIG_DIR'' ''/opt/finguard/plugins/config'',
      cf_LogLevel = envOr env ''FINGUARD_LOG_LEVEL'' ''info'',
      cf_DevMode = envBool env ''FINGUARD_DEV_MODE'',
      cf_AuthDisabled = envBool env ''FINGUARD_AUTH_DISABLED'',
      cf_DatabaseDSN = envOr env ''FINGUARD_DB_DSN'' ''sqlite:///tmp/finguard.db'',
      cf_OIDCIssuer = envOr env ''FINGUARD_OIDC_ISSUER'' '''',
      cf_OIDCClientID = envOr env ''FINGUARD_OIDC_CLIENT_ID'' ''finguard'',
      cf_OIDCClientSecret = envOr env ''FINGUARD_OIDC_CLIENT_SECRET'' '''',
      cf_OIDCRedirectURL = envOr env ''FINGUARD_OIDC_REDIRECT_URL'' '''',
      cf_OIDCScopes = envSlice env ''FINGUARD_OIDC_SCOPES'' [''openid'', ''profile'', ''email'', ''groups''],
      cf_SessionSecret = envOr env ''FINGUARD_SESSION_SECRET'' ''''\<rparr>"

lemma Split_nonempty [simp]: "Split sep s \<noteq> []"
  by (cases s) (simp_all split: list.split)

lemma Join_Cons: "xs \<noteq> [] \<Longrightarrow> Join (x # xs) sep = x @ sep @ Join xs sep"
  by (cases xs) simp_all

text \<open>Splitting loses nothing: joining the parts gives the text back, and no part has a separator.\<close>

lemma Join_Split: "Join (Split sep s) [sep] = s"
proof (induction s)
  case (Cons c cs)
  show ?case
  proof (cases "c = sep")
    case True
    with Cons show ?thesis by (simp add: Join_Cons)
  next
    case False
    obtain x xs where "Split sep cs = x # xs" by (cases "Split sep cs") simp_all
    with Cons False show ?thesis by (cases xs) simp_all
  qed
qed simp

lemma Split_parts: "x \<in> set (Split sep s) \<Longrightarrow> sep \<notin> set x"
  by (induction s arbitrary: x) (auto split: list.splits if_splits)

end
