(* ===== verification/Boot.thy ===== *)
theory Boot
  imports Config Server_Laws
begin

text \<open>
  Configuration and authentication together: \<open>NewManager\<close> of \<open>internal/auth/auth.go\<close> on the configuration that
  \<open>Load\<close> reads, and the server that \<open>cmd/finguard/main.go\<close> starts with the result. Contacting the
  identity provider is the parameter \<open>discover\<close>; \<open>nil\<close> stands for the unset fields of a disabled manager.
\<close>

definition NewManager :: "(config \<Rightarrow> string + 't idp) \<Rightarrow> 't idp \<Rightarrow> config \<Rightarrow> string + 't manager" where
  "NewManager discover nil cfg =
     (if cf_AuthDisabled cfg \<or> cf_OIDCIssuer cfg = '''' then Inr \<lparr>am_idp = nil, am_disabled = True\<rparr>
      else case discover cfg of
        Inl err \<Rightarrow> Inl (''oidc provider discovery: '' @ err)
      | Inr i \<Rightarrow> Inr \<lparr>am_idp = i, am_disabled = False\<rparr>)"

lemma envOr_empty: "envOr env key '''' = env key"
  by (simp add: envOr_def Let_def)

lemma Load_auth:
  "cf_AuthDisabled (Load env) = envBool env ''FINGUARD_AUTH_DISABLED''"
  "cf_OIDCIssuer (Load env) = env ''FINGUARD_OIDC_ISSUER''"
  by (simp_all only: Load_def config.select_convs envOr_empty)

lemma NewManager_cases:
  "NewManager discover nil cfg = Inr m \<Longrightarrow> am_disabled m \<longleftrightarrow> cf_AuthDisabled cfg \<or> cf_OIDCIssuer cfg = ''''"
  by (cases "cf_AuthDisabled cfg \<or> cf_OIDCIssuer cfg = ''''"; cases "discover cfg") (auto simp: NewManager_def)

lemma NewManager_disabled:
  "NewManager discover nil (Load env) = Inr m \<Longrightarrow>
   IsDisabled m \<longleftrightarrow> envBool env ''FINGUARD_AUTH_DISABLED'' \<or> env ''FINGUARD_OIDC_ISSUER'' = ''''"
  unfolding IsDisabled_def using NewManager_cases [of discover nil "Load env" m] by (simp only: Load_auth)

lemma serve_open:
  assumes "sv_auth s = Some m" and "IsDisabled m"
  shows "serve s mt (''api'' # ''v1'' # path) rq w = api s mt path rq w"
  using assms by (simp add: api_v1_def)

text \<open>
  Without an issuer in the environment authentication is off, whatever the other variables say: the server
  that starts then deletes any project for any request, with or without a cookie. With an issuer, and
  unless it is disabled, a request without a session cookie is answered 401 and changes nothing.
\<close>

theorem open_without_issuer:
  assumes "NewManager discover nil (Load env) = Inr m" and "sv_auth s = Some m"
    and "\<not> e_fault (sv_env s) (w_calls w)"
  shows "if envBool env ''FINGUARD_AUTH_DISABLED'' \<or> env ''FINGUARD_OIDC_ISSUER'' = ''''
    then rs_status (fst (serve s ''DELETE'' [''api'', ''v1'', ''projects'', i] rq w)) = StatusOK
      \<and> i \<notin> project_ids (w_db (snd (serve s ''DELETE'' [''api'', ''v1'', ''projects'', i] rq w)))
    else Cookie sessionCookieName rq = None \<longrightarrow>
      rs_status (fst (serve s mt (''api'' # ''v1'' # path) rq w)) = StatusUnauthorized
      \<and> w_db (snd (serve s mt (''api'' # ''v1'' # path) rq w)) = w_db w"
proof (cases "IsDisabled m")
  case True
  obtain w' where d: "DeleteProject (sv_env s) i w = (Inr (), w')" and gone: "i \<notin> project_ids (w_db w')"
    using assms(3) by (rule DeleteProject_gone)
  have "serve s ''DELETE'' [''api'', ''v1'', ''projects'', i] rq w
      = (writeJSON StatusOK (JObj [(''status'', JStr ''deleted'')]), w')"
    unfolding serve_open [OF assms(2) True] by (simp add: api_def handleDeleteProject_def URLParam_bound d)
  with gone True NewManager_disabled [OF assms(1)] show ?thesis by simp
next
  case False
  then have "rs_status (fst (serve s mt (''api'' # ''v1'' # path) rq w)) = StatusUnauthorized
      \<and> w_db (snd (serve s mt (''api'' # ''v1'' # path) rq w)) = w_db w" if "Cookie sessionCookieName rq = None"
    using assms(2) that by (simp add: api_v1_def guarded_def Middleware_def IsDisabled_def)
  with False NewManager_disabled [OF assms(1)] show ?thesis by simp
qed

definition empty_request :: request where
  "empty_request = \<lparr>rq_params = [], rq_query = [], rq_cookies = [], rq_body = None, rq_session = None\<rparr>"

definition open_server :: "string server" where
  "open_server = sample_server\<lparr>sv_auth := Some \<lparr>am_idp = am_idp sample_manager, am_disabled = True\<rparr>\<rparr>"

theorem open_without_issuer_witness:
  "''p1'' \<in> project_ids (w_db sample_world)
   \<and> ''p1'' \<notin> project_ids (w_db (snd (serve open_server ''DELETE'' [''api'', ''v1'', ''projects'', ''p1''] empty_request sample_world)))"
proof -
  have m: "NewManager (\<lambda>_. Inl '''') (am_idp sample_manager) (Load (\<lambda>_. ''''))
      = Inr \<lparr>am_idp = am_idp sample_manager, am_disabled = True\<rparr>"
    by (simp add: NewManager_def Load_auth)
  have s: "sv_auth open_server = Some \<lparr>am_idp = am_idp sample_manager, am_disabled = True\<rparr>"
    and f: "\<not> e_fault (sv_env open_server) (w_calls sample_world)"
    using sample_session(6) by (simp_all add: open_server_def)
  have "''p1'' \<in> project_ids (w_db sample_world)" by (simp add: sample_defs project_ids_def)
  with open_without_issuer [OF m s f, of "''p1''" empty_request] show ?thesis by simp
qed

end
