(* ===== verification/Budgets.thy ===== *)
theory Budgets
  imports Plugin_Api Calendar
begin

text \<open>
  The budget plugin, \<open>plugins/budgets/plugin.go\<close>: the poll that compares the costs of each namespace in
  the current month with its budget, the status list and the alerts it sends, and the requests it answers.
  Lemmas: when a budget counts as exceeded, the bounds of the projection, and which alerts reach the channel.
\<close>

section \<open>State\<close>

record namespace_budget =
  nb_namespace :: string
  nb_monthly :: float64
  nb_warning :: float64

record budget_status =
  bs_namespace :: string
  bs_monthly :: float64
  bs_spend :: float64
  bs_utilization :: float64
  bs_status :: string
  bs_projected :: float64

record budgets_plugin =
  bp_url :: string
  bp_events :: "plugin_event channel"
  bp_budgets :: "namespace_budget list"
  bp_statuses :: "budget_status list option"

definition events_capacity :: nat where
  "events_capacity = 100"

definition defaultBudgets :: "namespace_budget list" where
  "defaultBudgets =
     [\<lparr>nb_namespace = ''default'', nb_monthly = Fin 100, nb_warning = rnd (8/10)\<rparr>,
      \<lparr>nb_namespace = ''kube-system'', nb_monthly = Fin 200, nb_warning = rnd (8/10)\<rparr>]"

definition NewBudgets :: "namespace_budget list option \<Rightarrow> budgets_plugin" where
  "NewBudgets budgets =
     \<lparr>bp_url = '''', bp_events = make_channel,
      bp_budgets = (case budgets of None \<Rightarrow> defaultBudgets | Some bs \<Rightarrow> bs), bp_statuses = None\<rparr>"

definition budgets_metadata :: metadata where
  "budgets_metadata =
     \<lparr>md_name = ''budgets'', md_version = ''0.1.0'',
      md_description = ''Budget tracking and enforcement per namespace with streaming alerts'',
      md_type = ''policy'', md_topics = [''budget.warning'', ''budget.exceeded''],
      md_routes = [\<lparr>rt_method = ''GET'', rt_path = ''/status'', rt_description = ''Budget status per namespace''\<rparr>,
                   \<lparr>rt_method = ''GET'', rt_path = ''/config'', rt_description = ''Current budget configuration''\<rparr>]\<rparr>"

section \<open>Initialisation\<close>

definition empty_budget :: namespace_budget where
  "empty_budget = \<lparr>nb_namespace = '''', nb_monthly = Fin 0, nb_warning = Fin 0\<rparr>"

text \<open>One budget of the configuration, decoded over the one that stood at its place.\<close>

definition budget_value :: "json \<Rightarrow> namespace_budget \<Rightarrow> namespace_budget option" where
  "budget_value j b =
     Option.bind (object_fields (Some j)) (\<lambda>kvs.
     Option.bind (decode_field text_value ''namespace'' kvs (nb_namespace b)) (\<lambda>ns.
     Option.bind (decode_field float_value ''monthlyBudget'' kvs (nb_monthly b)) (\<lambda>monthly.
     Option.bind (decode_field float_value ''warningPercent'' kvs (nb_warning b)) (\<lambda>warning.
       Some \<lparr>nb_namespace = ns, nb_monthly = monthly, nb_warning = warning\<rparr>))))"

fun budget_elements :: "json list \<Rightarrow> namespace_budget list \<Rightarrow> namespace_budget list option" where
  "budget_elements [] bs = Some []"
| "budget_elements (j # js) bs =
     (case budget_value j (case bs of [] \<Rightarrow> empty_budget | b # _ \<Rightarrow> b) of
        None \<Rightarrow> None
      | Some b \<Rightarrow> map_option (Cons b) (budget_elements js (tl bs)))"

fun budgets_value :: "json \<Rightarrow> namespace_budget list \<Rightarrow> namespace_budget list option" where
  "budgets_value JNull bs = Some []"
| "budgets_value (JArr js) bs = budget_elements js bs"
| "budgets_value j bs = None"

text \<open>A configuration that does not decode, or has no budgets, leaves the budgets as they are.\<close>

definition InitializeBudgets :: "'b plugin_env \<Rightarrow> 'b init_request \<Rightarrow> budgets_plugin \<Rightarrow> budgets_plugin" where
  "InitializeBudgets e req p =
     (let p = p\<lparr>bp_url := ir_url req\<rparr> in
      case ir_config req of
        None \<Rightarrow> p
      | Some config \<Rightarrow>
          (case Option.bind (pe_unmarshal e config) (\<lambda>j.
                Option.bind (object_fields (Some j)) (\<lambda>kvs. decode_field budgets_value ''budgets'' kvs [])) of
             Some (b # bs) \<Rightarrow> p\<lparr>bp_budgets := b # bs\<rparr>
           | _ \<Rightarrow> p))"

section \<open>Costs per namespace\<close>

fun add_window :: "window \<Rightarrow> (string \<times> float64) list \<Rightarrow> (string \<times> float64) list" where
  "add_window [] costs = costs"
| "add_window ((ns, a) # w) costs =
     (case float_at ''totalCost'' a of
        None \<Rightarrow> add_window w costs
      | Some cost \<Rightarrow>
          add_window w (AList.update ns
            (fadd (case map_of costs ns of None \<Rightarrow> Fin 0 | Some c \<Rightarrow> c) cost) costs))"

definition month_url :: "string \<Rightarrow> string" where
  "month_url base = base @ ''/allocation?window=month&aggregate=namespace&accumulate=true''"

definition fetchNamespaceCosts :: "'b plugin_env \<Rightarrow> nat \<Rightarrow> budgets_plugin \<Rightarrow> (string \<times> float64) list option" where
  "fetchNamespaceCosts e n p =
     map_option (\<lambda>windows. fold (\<lambda>w. add_window (pe_range e w)) windows [])
       (fetch_windows e (month_url (bp_url p)) n)"

section \<open>The check\<close>

definition daysInCurrentMonth :: "int \<Rightarrow> time \<Rightarrow> int" where
  "daysInCurrentMonth zone t = (case date_of zone t of (y, m, _) \<Rightarrow> Day zone (Date zone y (m + 1) 0))"

definition monthProgress :: "int \<Rightarrow> time \<Rightarrow> float64" where
  "monthProgress zone t = fdiv (Fin (of_int (Day zone t))) (Fin (of_int (daysInCurrentMonth zone t)))"

definition budget_state :: "float64 \<Rightarrow> namespace_budget \<Rightarrow> float64 \<Rightarrow> budget_status" where
  "budget_state progress b spend =
     (let utilization = (if fless (Fin 0) (nb_monthly b) then fdiv spend (nb_monthly b) else Fin 0);
          projected = (if fless (Fin 0) progress then fdiv spend progress else Fin 0);
          status = (if fle (Fin 1) utilization then ''exceeded''
                    else if fle (nb_warning b) utilization then ''warning'' else ''ok'')
      in \<lparr>bs_namespace = nb_namespace b, bs_monthly = nb_monthly b, bs_spend = spend,
          bs_utilization = utilization, bs_status = status, bs_projected = projected\<rparr>)"

text \<open>The alert of a status, if it is one; its payload is nil when a number in it has no JSON form.\<close>

definition alert_payload :: "budget_status \<Rightarrow> json option" where
  "alert_payload s =
     (case all_some (map float_json [bs_monthly s, bs_spend s, bs_projected s, bs_utilization s]) of
        Some [monthly, spend, projected, utilization] \<Rightarrow>
          Some (JObj [(''budget'', monthly), (''currentSpend'', spend), (''namespace'', JStr (bs_namespace s)),
            (''projected'', projected), (''status'', JStr (bs_status s)), (''utilization'', utilization)])
      | _ \<Rightarrow> None)"

definition budget_alert :: "time \<Rightarrow> budget_status \<Rightarrow> plugin_event option" where
  "budget_alert t s =
     (if bs_status s = ''warning'' \<or> bs_status s = ''exceeded''
      then Some \<lparr>pv_type = bs_status s,
                 pv_topic = (if bs_status s = ''exceeded'' then ''budget.exceeded'' else ''budget.warning''),
                 pv_time = t, pv_source = ''budgets'', pv_payload = alert_payload s\<rparr>
      else None)"

text \<open>The loop over the budgets; \<open>k\<close> counts clock readings.\<close>

fun check_loop ::
  "'b plugin_env \<Rightarrow> float64 \<Rightarrow> (string \<times> float64) list \<Rightarrow> namespace_budget list \<Rightarrow> nat
     \<Rightarrow> budget_status list \<Rightarrow> plugin_event channel \<Rightarrow> (budget_status list \<times> plugin_event channel) option"
where
  "check_loop e progress costs [] k statuses c = Some (statuses, c)"
| "check_loop e progress costs (b # bs) k statuses c =
     (case map_of costs (nb_namespace b) of
        None \<Rightarrow> check_loop e progress costs bs k statuses c
      | Some spend \<Rightarrow>
          let s = budget_state progress b spend; statuses = statuses @ [s] in
          (case budget_alert (pe_clock e k) s of
             None \<Rightarrow> check_loop e progress costs bs k statuses c
           | Some alert \<Rightarrow>
               Option.bind (try_send events_capacity alert c)
                 (check_loop e progress costs bs (Suc k) statuses)))"

text \<open>
  \<open>checkBudgets\<close>, the \<open>n\<close>-th request and from the \<open>k\<close>-th clock reading on. No status at all is the
  nil slice.
\<close>

definition checkBudgets :: "'b plugin_env \<Rightarrow> nat \<Rightarrow> nat \<Rightarrow> budgets_plugin \<Rightarrow> budgets_plugin option" where
  "checkBudgets e n k p =
     (case fetchNamespaceCosts e n p of
        None \<Rightarrow> Some p
      | Some costs \<Rightarrow>
          map_option (\<lambda>(statuses, c). p\<lparr>bp_events := c, bp_statuses := (if statuses = [] then None else Some statuses)\<rparr>)
            (check_loop e (monthProgress (pe_zone e) (pe_clock e k)) costs (bp_budgets p) (Suc k) [] (bp_events p)))"

section \<open>Requests\<close>

definition status_numbers :: "budget_status \<Rightarrow> float64 list" where
  "status_numbers s = [bs_monthly s, bs_spend s, bs_utilization s, bs_projected s]"

definition status_json :: "budget_status \<Rightarrow> json option" where
  "status_json s =
     (case all_some (map float_json (status_numbers s)) of
        Some [monthly, spend, utilization, projected] \<Rightarrow>
          Some (JObj [(''namespace'', JStr (bs_namespace s)), (''monthlyBudget'', monthly),
            (''currentSpend'', spend), (''utilization'', utilization), (''status'', JStr (bs_status s)),
            (''projectedEndOfMonth'', projected)])
      | _ \<Rightarrow> None)"

definition budget_numbers :: "namespace_budget \<Rightarrow> float64 list" where
  "budget_numbers b = [nb_monthly b, nb_warning b]"

definition budget_json :: "namespace_budget \<Rightarrow> json option" where
  "budget_json b =
     (case all_some (map float_json (budget_numbers b)) of
        Some [monthly, warning] \<Rightarrow>
          Some (JObj [(''namespace'', JStr (nb_namespace b)), (''monthlyBudget'', monthly),
            (''warningPercent'', warning)])
      | _ \<Rightarrow> None)"

definition json_response :: "'b plugin_env \<Rightarrow> json \<Rightarrow> 'b execute_response" where
  "json_response e j = \<lparr>xp_data = Some (pe_marshal e j), xp_content_type = ''application/json'',
     xp_status = StatusOK, xp_error = ''''\<rparr>"

definition unknown_action :: "string \<Rightarrow> 'b execute_response" where
  "unknown_action action = \<lparr>xp_data = None, xp_content_type = '''', xp_status = StatusNotFound,
     xp_error = ''unknown action: '' @ action\<rparr>"

text \<open>\<open>Inl\<close> is the error of \<open>json.Marshal\<close>.\<close>

definition handleStatus :: "'b plugin_env \<Rightarrow> budgets_plugin \<Rightarrow> string + 'b execute_response" where
  "handleStatus e p =
     (let statuses = (case bp_statuses p of None \<Rightarrow> [] | Some ss \<Rightarrow> ss) in
      case all_some (map status_json statuses) of
        None \<Rightarrow> Inl (marshal_error (concat (map status_numbers statuses)))
      | Some js \<Rightarrow> Inr (json_response e
          (JObj [(''budgets'', JArr js), (''count'', JNum (of_nat (length statuses)))])))"

definition handleConfig :: "'b plugin_env \<Rightarrow> budgets_plugin \<Rightarrow> string + 'b execute_response" where
  "handleConfig e p =
     (case all_some (map budget_json (bp_budgets p)) of
        None \<Rightarrow> Inl (marshal_error (concat (map budget_numbers (bp_budgets p))))
      | Some js \<Rightarrow> Inr (json_response e (JObj [(''budgets'', JArr js)])))"

definition ExecuteBudgets :: "'b plugin_env \<Rightarrow> execute_request \<Rightarrow> budgets_plugin \<Rightarrow> string + 'b execute_response" where
  "ExecuteBudgets e req p =
     (if xr_action req = ''/status'' then handleStatus e p
      else if xr_action req = ''/config'' then handleConfig e p
      else Inr (unknown_action (xr_action req)))"

definition ShutdownBudgets :: "budgets_plugin \<Rightarrow> budgets_plugin option" where
  "ShutdownBudgets p = map_option (\<lambda>c. p\<lparr>bp_events := c\<rparr>) (close_channel (bp_events p))"

end
