(* ===== verification/Costbreakdown.thy ===== *)
theory Costbreakdown
  imports Plugin_Api
begin

text \<open>
  The cost breakdown plugin, \<open>plugins/costbreakdown/plugin.go\<close>: the detection of namespaces that use less
  than a fifth of what they request, the estimated savings with their severity, the event it sends, and
  the requests it answers. Lemmas: the savings never exceed the cost they are estimated from, and what
  a recommendation says of its resource.
\<close>

section \<open>State\<close>

record recommendation =
  rec_namespace :: string
  rec_pod :: string
  rec_container :: string
  rec_resource :: string
  rec_requested :: float64
  rec_used :: float64
  rec_savings :: float64
  rec_severity :: string

record breakdown_plugin =
  cb_url :: string
  cb_events :: "plugin_event channel"
  cb_recommendations :: "recommendation list option"

definition breakdown_capacity :: nat where
  "breakdown_capacity = 100"

definition NewBreakdown :: breakdown_plugin where
  "NewBreakdown = \<lparr>cb_url = '''', cb_events = make_channel, cb_recommendations = None\<rparr>"

definition breakdown_metadata :: metadata where
  "breakdown_metadata =
     \<lparr>md_name = ''costbreakdown'', md_version = ''0.1.0'',
      md_description = ''Enriched cost breakdown with idle resource detection and savings recommendations'',
      md_type = ''cost'', md_topics = [''cost.idle.detected''],
      md_routes = [\<lparr>rt_method = ''GET'', rt_path = ''/recommendations'', rt_description = ''List idle resource recommendations''\<rparr>,
                   \<lparr>rt_method = ''GET'', rt_path = ''/summary'', rt_description = ''Cost breakdown summary''\<rparr>]\<rparr>"

definition InitializeBreakdown :: "'b init_request \<Rightarrow> breakdown_plugin \<Rightarrow> breakdown_plugin" where
  "InitializeBreakdown req p = p\<lparr>cb_url := ir_url req\<rparr>"

section \<open>Detection\<close>

text \<open>\<open>v, _ := alloc[key].(float64)\<close> and the same for a string.\<close>

definition float_or_zero :: "string \<Rightarrow> alloc \<Rightarrow> float64" where
  "float_or_zero key a = (case float_at key a of None \<Rightarrow> Fin 0 | Some x \<Rightarrow> x)"

definition text_or_empty :: "string \<Rightarrow> alloc \<Rightarrow> string" where
  "text_or_empty key a = (case map_of a key of Some (JStr s) \<Rightarrow> s | _ \<Rightarrow> '''')"

definition severity_of :: "float64 \<Rightarrow> string" where
  "severity_of savings =
     (let severity = ''low'';
          severity = (if fless (Fin 10) savings then ''medium'' else severity)
      in (if fless (Fin 50) savings then ''high'' else severity))"

definition idle_savings :: "float64 \<Rightarrow> float64 \<Rightarrow> float64 \<Rightarrow> float64 \<Rightarrow> float64" where
  "idle_savings share cost req used = fmul (fmul cost (fsub (Fin 1) (fdiv used req))) share"

text \<open>The recommendation for one resource of an allocation, if it is idle.\<close>

definition idle_resource :: "string \<Rightarrow> string \<Rightarrow> string \<Rightarrow> float64 \<Rightarrow> alloc \<Rightarrow> recommendation list" where
  "idle_resource kind reqKey usedKey share a =
     (let req = float_or_zero reqKey a; used = float_or_zero usedKey a in
      if fless (Fin 0) req \<and> fless (Fin 0) used \<and> fless (fdiv used req) (rnd (2/10))
      then let savings = idle_savings share (float_or_zero ''totalCost'' a) req used
           in [\<lparr>rec_namespace = text_or_empty ''name'' a, rec_pod = '''', rec_container = '''',
                rec_resource = kind, rec_requested = req, rec_used = used, rec_savings = savings,
                rec_severity = severity_of savings\<rparr>]
      else [])"

definition idle_cpu :: "alloc \<Rightarrow> recommendation list" where
  "idle_cpu = idle_resource ''cpu'' ''cpuCoreRequestAverage'' ''cpuCoreUsageAverage'' (rnd (8/10))"

definition idle_ram :: "alloc \<Rightarrow> recommendation list" where
  "idle_ram = idle_resource ''memory'' ''ramByteRequestAverage'' ''ramByteUsageAverage'' (rnd (2/10))"

definition recommend :: "alloc list \<Rightarrow> recommendation list" where
  "recommend allocs = concat (map (\<lambda>a. idle_cpu a @ idle_ram a) allocs)"

definition day_url :: "string \<Rightarrow> string" where
  "day_url base = base @ ''/allocation?window=24h&aggregate=namespace&accumulate=true''"

definition fetchAllocations :: "'b plugin_env \<Rightarrow> nat \<Rightarrow> breakdown_plugin \<Rightarrow> alloc list option" where
  "fetchAllocations e n p =
     map_option (\<lambda>windows. concat (map (\<lambda>w. map snd (pe_range e w)) windows))
       (fetch_windows e (day_url (cb_url p)) n)"

definition recommendation_numbers :: "recommendation \<Rightarrow> float64 list" where
  "recommendation_numbers r = [rec_requested r, rec_used r, rec_savings r]"

definition recommendation_json :: "recommendation \<Rightarrow> json option" where
  "recommendation_json r =
     (case all_some (map float_json (recommendation_numbers r)) of
        Some [requested, used, savings] \<Rightarrow>
          Some (JObj [(''namespace'', JStr (rec_namespace r)), (''pod'', JStr (rec_pod r)),
            (''container'', JStr (rec_container r)), (''resourceType'', JStr (rec_resource r)),
            (''requested'', requested), (''used'', used), (''estimatedSavings'', savings),
            (''severity'', JStr (rec_severity r))])
      | _ \<Rightarrow> None)"

definition recommendations_json :: "recommendation list \<Rightarrow> json option" where
  "recommendations_json recs =
     map_option (\<lambda>js. JObj [(''count'', JNum (of_nat (length recs))), (''recommendations'', JArr js)])
       (all_some (map recommendation_json recs))"

definition detectIdle :: "'b plugin_env \<Rightarrow> nat \<Rightarrow> nat \<Rightarrow> breakdown_plugin \<Rightarrow> breakdown_plugin option" where
  "detectIdle e n k p =
     (case fetchAllocations e n p of
        None \<Rightarrow> Some p
      | Some allocs \<Rightarrow>
          let recs = recommend allocs;
              p = p\<lparr>cb_recommendations := (if recs = [] then None else Some recs)\<rparr>
          in if recs = [] then Some p
             else map_option (\<lambda>c. p\<lparr>cb_events := c\<rparr>)
               (try_send breakdown_capacity
                  \<lparr>pv_type = ''idle_detected'', pv_topic = ''cost.idle.detected'', pv_time = pe_clock e k,
                   pv_source = ''costbreakdown'', pv_payload = recommendations_json recs\<rparr>
                  (cb_events p)))"

section \<open>Requests\<close>

text \<open>\<open>Inl\<close> is the error of \<open>json.Marshal\<close>.\<close>

definition handleRecommendations :: "'b plugin_env \<Rightarrow> breakdown_plugin \<Rightarrow> string + 'b execute_response" where
  "handleRecommendations e p =
     (let recs = (case cb_recommendations p of None \<Rightarrow> [] | Some rs \<Rightarrow> rs) in
      case recommendations_json recs of
        None \<Rightarrow> Inl (marshal_error (concat (map recommendation_numbers recs)))
      | Some j \<Rightarrow> Inr \<lparr>xp_data = Some (pe_marshal e j), xp_content_type = ''application/json'',
          xp_status = StatusOK, xp_error = ''''\<rparr>)"

definition handleSummary :: "'b plugin_env \<Rightarrow> nat \<Rightarrow> breakdown_plugin \<Rightarrow> 'b execute_response" where
  "handleSummary e n p =
     (case pe_get e (day_url (cb_url p)) n of
        NoRequest err \<Rightarrow> \<lparr>xp_data = None, xp_content_type = '''', xp_status = StatusInternalServerError, xp_error = err\<rparr>
      | NoAnswer err \<Rightarrow> \<lparr>xp_data = None, xp_content_type = '''', xp_status = 502, xp_error = err\<rparr>
      | NoBody err \<Rightarrow> \<lparr>xp_data = None, xp_content_type = '''', xp_status = StatusInternalServerError, xp_error = err\<rparr>
      | Answer status body \<Rightarrow> \<lparr>xp_data = Some body, xp_content_type = ''application/json'',
          xp_status = status, xp_error = ''''\<rparr>)"

definition ExecuteBreakdown ::
  "'b plugin_env \<Rightarrow> nat \<Rightarrow> execute_request \<Rightarrow> breakdown_plugin \<Rightarrow> string + 'b execute_response"
where
  "ExecuteBreakdown e n req p =
     (if xr_action req = ''/recommendations'' then handleRecommendations e p
      else if xr_action req = ''/summary'' then Inr (handleSummary e n p)
      else Inr \<lparr>xp_data = None, xp_content_type = '''', xp_status = StatusNotFound,
                xp_error = ''unknown action: '' @ xr_action req\<rparr>)"

definition ShutdownBreakdown :: "breakdown_plugin \<Rightarrow> breakdown_plugin option" where
  "ShutdownBreakdown p = map_option (\<lambda>c. p\<lparr>cb_events := c\<rparr>) (close_channel (cb_events p))"

section \<open>Savings\<close>

lemma fmul_shrinks:
  assumes "0 \<le> a" and "is_float a" and "a < pow2 1024" and "0 \<le> c" and "c \<le> 1"
  obtains r where "fmul (Fin a) (Fin c) = Fin r" and "0 \<le> r" and "r \<le> a" and "is_float r"
proof -
  have "a * c \<le> a" "0 \<le> a * c" using assms by (simp_all add: mult_left_le)
  then have r: "rnd_rat (a * c) \<le> a" "0 \<le> rnd_rat (a * c)"
    using assms(2) by (simp_all add: rnd_rat_le rnd_rat_nonneg)
  moreover have "\<not> rnd_rat (a * c) \<le> - pow2 1024" using r(2) pow2_pos [of 1024] by linarith
  ultimately have "rnd (a * c) = Fin (rnd_rat (a * c))" using assms(3) by (simp add: rnd_def fits_def)
  with r that show thesis by simp
qed

lemma idle_savings_bounds:
  assumes "0 < req" and "0 < used" and "fless (fdiv (Fin used) (Fin req)) (Fin x)" and "x \<le> 1"
    and "0 \<le> cost" and "is_float cost" and "cost < pow2 1024" and "0 \<le> share" and "share \<le> 1"
  obtains s where "idle_savings (Fin share) (Fin cost) (Fin req) (Fin used) = Fin s" and "0 \<le> s" and "s \<le> cost"
proof -
  have q0: "0 \<le> rnd_rat (used / req)" using assms(1,2) by (intro rnd_rat_nonneg) simp
  moreover have "\<not> rnd_rat (used / req) \<le> - pow2 1024" using q0 pow2_pos [of 1024] by linarith
  ultimately obtain q where q: "fdiv (Fin used) (Fin req) = Fin q" "0 \<le> q" "q < x"
    using assms(1,3) rnd_cases [of "used / req"] by auto
  have w: "rnd_rat (1 - q) \<le> 1" "0 \<le> rnd_rat (1 - q)"
    using q assms(4) by (simp_all add: rnd_rat_le rnd_rat_nonneg)
  have "(1::rat) < pow2 1024" using pow2_less_iff [of 0 1024] by simp
  moreover have "\<not> rnd_rat (1 - q) \<le> - pow2 1024" using w(2) pow2_pos [of 1024] by linarith
  ultimately have sub: "fsub (Fin 1) (Fin q) = Fin (rnd_rat (1 - q))"
    using w by (simp add: fsub_def rnd_def fits_def)
  obtain r where r: "fmul (Fin cost) (Fin (rnd_rat (1 - q))) = Fin r" "0 \<le> r" "r \<le> cost" "is_float r"
    using fmul_shrinks [OF assms(5-7) w(2,1)] .
  have "r < pow2 1024" using r(3) assms(7) by simp
  then obtain s where "fmul (Fin r) (Fin share) = Fin s" "0 \<le> s" "s \<le> r"
    using fmul_shrinks [OF r(2,4) _ assms(8,9)] by blast
  with that r q sub show thesis by (simp add: idle_savings_def)
qed

lemma float_or_zero_Fin:
  obtains r where "float_or_zero key a = Fin r" and "is_float r" and "r < pow2 1024"
proof (cases "float_at key a")
  case None
  then show thesis using that [of 0] by (simp add: float_or_zero_def)
next
  case (Some x)
  then obtain n where "number_value n = Some x" by (auto simp: float_at_def split: option.splits json.splits)
  then obtain r where "x = Fin r" "rnd n = Fin r"
    by (cases "rnd n") (auto simp: number_value_def)
  with Some that rnd_Fin rnd_Fin_range show thesis by (metis float_or_zero_def option.case(2))
qed

lemma rnd_fraction:
  assumes "0 \<le> x" and "x \<le> 1"
  obtains r where "rnd x = Fin r" and "0 \<le> r" and "r \<le> 1"
proof -
  have "0 \<le> rnd_rat x" "rnd_rat x \<le> 1" using assms by (simp_all add: rnd_rat_nonneg rnd_rat_le)
  moreover have "(1::rat) < pow2 1024" using pow2_less_iff [of 0 1024] by simp
  moreover have "\<not> rnd_rat x \<le> - pow2 1024" using calculation(1) pow2_pos [of 1024] by linarith
  ultimately show thesis using that by (simp add: rnd_def fits_def)
qed

text \<open>
  What a recommendation says of the allocation it was made from: which resource it is, by its own request and usage
  and its share of the savings, and what holds of either resource.
\<close>

definition reported :: "string \<Rightarrow> string \<Rightarrow> string \<Rightarrow> rat \<Rightarrow> alloc \<Rightarrow> recommendation \<Rightarrow> bool" where
  "reported kind reqKey usedKey share a r \<longleftrightarrow> rec_resource r = kind
     \<and> rec_requested r = float_or_zero reqKey a \<and> rec_used r = float_or_zero usedKey a
     \<and> rec_savings r = fmul (fmul (float_or_zero ''totalCost'' a)
          (fsub (Fin 1) (fdiv (float_or_zero usedKey a) (float_or_zero reqKey a)))) (rnd share)"

definition idle_sound :: "alloc \<Rightarrow> recommendation \<Rightarrow> bool" where
  "idle_sound a r \<longleftrightarrow> rec_namespace r = text_or_empty ''name'' a \<and> rec_pod r = '''' \<and> rec_container r = ''''
     \<and> fless (Fin 0) (rec_used r) \<and> fless (Fin 0) (rec_requested r)
     \<and> fless (fdiv (rec_used r) (rec_requested r)) (rnd (2/10))
     \<and> (fle (Fin 0) (float_or_zero ''totalCost'' a) \<longrightarrow>
          fle (Fin 0) (rec_savings r) \<and> fle (rec_savings r) (float_or_zero ''totalCost'' a))
     \<and> rec_severity r = (if fless (Fin 50) (rec_savings r) then ''high''
                         else if fless (Fin 10) (rec_savings r) then ''medium'' else ''low'')"

definition justified :: "alloc \<Rightarrow> recommendation \<Rightarrow> bool" where
  "justified a r \<longleftrightarrow> idle_sound a r
     \<and> (reported ''cpu'' ''cpuCoreRequestAverage'' ''cpuCoreUsageAverage'' (8/10) a r
      \<or> reported ''memory'' ''ramByteRequestAverage'' ''ramByteUsageAverage'' (2/10) a r)"

lemma idle_resource_reported:
  "r \<in> set (idle_resource kind reqKey usedKey (rnd share) a) \<Longrightarrow> reported kind reqKey usedKey share a r"
  by (auto simp: idle_resource_def idle_savings_def reported_def Let_def simp del: fdiv.simps fmul.simps split: if_splits)

lemma idle_resource_sound:
  assumes "r \<in> set (idle_resource kind reqKey usedKey share a)" and "share = rnd c" and "0 \<le> c" and "c \<le> 1"
  shows "idle_sound a r"
proof -
  obtain req where req: "float_or_zero reqKey a = Fin req" by (rule float_or_zero_Fin)
  obtain used where used: "float_or_zero usedKey a = Fin used" by (rule float_or_zero_Fin)
  obtain cost where cost: "float_or_zero ''totalCost'' a = Fin cost" "is_float cost" "cost < pow2 1024"
    by (rule float_or_zero_Fin)
  obtain x where x: "rnd (1/5) = Fin x" "x \<le> 1" by (rule rnd_fraction [of "1/5"]) simp_all
  obtain sh where sh: "rnd c = Fin sh" "0 \<le> sh" "sh \<le> 1" using rnd_fraction [OF assms(3,4)] .
  from assms(1) have idle: "0 < req" "0 < used" "fless (fdiv (Fin used) (Fin req)) (Fin x)"
    and r: "rec_namespace r = text_or_empty ''name'' a" "rec_pod r = ''''" "rec_container r = ''''"
      "rec_requested r = Fin req" "rec_used r = Fin used"
      "rec_savings r = idle_savings (Fin sh) (Fin cost) (Fin req) (Fin used)"
      "rec_severity r = severity_of (rec_savings r)"
    by (auto simp: idle_resource_def Let_def req used cost x sh assms(2) simp del: fdiv.simps split: if_splits)
  have "fle (Fin 0) (rec_savings r) \<and> fle (rec_savings r) (Fin cost)" if c: "0 \<le> cost"
  proof -
    obtain s where "rec_savings r = Fin s" "0 \<le> s" "s \<le> cost"
      using idle_savings_bounds [OF idle x(2) c cost(2,3) sh(2,3)] r(6) by metis
    then show ?thesis by (auto simp: fle_def)
  qed
  with idle r x cost show ?thesis
    by (auto simp: idle_sound_def severity_of_def Let_def fle_def simp del: fdiv.simps)
qed

text \<open>
  C24: Every recommendation is made from an allocation the cluster reported, for its CPU or for its memory: it has the
  request and the usage of that resource, which is used, but by less than a fifth of what is requested;
  its savings are the unused part of the cost of the namespace, times four fifths for CPU and one fifth
  for memory, and, where that cost is not negative, between 0 and it; the severity is the class of the
  savings.
\<close>

theorem savings_within_cost:
  assumes "fetchAllocations e n p = Some allocs" and "detectIdle e n k p = Some p'"
    and "cb_recommendations p' = Some recs" and "r \<in> set recs"
  shows "\<exists>a \<in> set allocs. justified a r"
proof -
  have "recs = recommend allocs"
    using assms(1-3) by (auto simp: detectIdle_def Let_def split: if_splits)
  with assms(4) obtain a where a: "a \<in> set allocs" "r \<in> set (idle_cpu a) \<or> r \<in> set (idle_ram a)"
    by (auto simp: recommend_def)
  then have "justified a r"
    unfolding justified_def idle_cpu_def idle_ram_def
    by (auto intro: idle_resource_reported idle_resource_sound [OF _ refl])
  with a(1) show ?thesis by blast
qed

definition idle_answer :: json where
  "idle_answer = JObj [(''code'', JNum 200), (''data'', JArr [JObj [(''web'', JObj [(''name'', JStr ''web''),
     (''cpuCoreRequestAverage'', JNum 16), (''cpuCoreUsageAverage'', JNum 1), (''totalCost'', JNum 100)])]])]"

definition idle_env :: "json plugin_env" where
  "idle_env = \<lparr>pe_get = (\<lambda>_ _. Answer 200 idle_answer), pe_unmarshal = Some, pe_marshal = id,
     pe_clock = int, pe_zone = 0, pe_range = id\<rparr>"

definition idle_alloc :: alloc where
  "idle_alloc = [(''name'', JStr ''web''), (''cpuCoreRequestAverage'', JNum 16),
     (''cpuCoreUsageAverage'', JNum 1), (''totalCost'', JNum 100)]"

lemma sample_numbers: "rnd 1 = Fin 1" "rnd 16 = Fin 16" "rnd 100 = Fin 100" "rnd 200 = Fin 200"
  using rnd_int [of 1] rnd_int [of 16] rnd_int [of 100] rnd_int [of 200] by simp_all

lemma sample_allocations: "fetchAllocations idle_env 0 NewBreakdown = Some [idle_alloc]"
proof -
  have "allocation_data idle_answer = Some [[(''web'', idle_alloc)]]"
    by (simp add: allocation_data_def response_data_def idle_answer_def idle_alloc_def object_fields_def same_key_def lower_def
        number_value_def sample_numbers)
  then show ?thesis by (simp add: fetchAllocations_def fetch_windows_def idle_env_def)
qed

lemma sample_idle: "idle_cpu idle_alloc \<noteq> []"
proof -
  have fl: "is_float (1/16)" "is_float (1/8)"
    using is_float_multiple [of 1 "- 4"] is_float_multiple [of 1 "- 3"] by (simp_all add: pow2_def power_int_minus)
  have "(1::rat) \<le> pow2 64" using pow2_le_iff [of 0 64] by simp
  then have q: "rnd (1/16) = Fin (1/16)" by (intro rnd_float fl) simp
  have "1/8 \<le> rnd_rat (1/5)" by (rule rnd_rat_ge [OF _ fl(2)]) simp
  then have "fless (Fin (1/16)) (rnd (1/5))"
    using rnd_cases [of "1/5"] pow2_pos [of 1024] by auto
  with q show ?thesis
    by (simp add: idle_cpu_def idle_resource_def float_or_zero_def float_at_def idle_alloc_def number_value_def
        sample_numbers Let_def)
qed

theorem savings_within_cost_witness:
  "\<exists>p' r. detectIdle idle_env 0 0 NewBreakdown = Some p' \<and> justified idle_alloc r"
proof -
  obtain r rs where rs: "recommend [idle_alloc] = r # rs"
    using sample_idle by (cases "idle_cpu idle_alloc") (auto simp: recommend_def)
  obtain p' where p': "detectIdle idle_env 0 0 NewBreakdown = Some p'" "cb_recommendations p' = Some (r # rs)"
    unfolding detectIdle_def sample_allocations
    by (simp add: rs Let_def NewBreakdown_def make_channel_def try_send_def breakdown_capacity_def)
  have "r \<in> set (r # rs)" by simp
  from savings_within_cost [OF sample_allocations p' this] p'(1) show ?thesis by auto
qed

end
