(* ===== verification/Plugins.thy ===== *)
theory Plugins
  imports Budgets Costbreakdown Hub
begin

text \<open>
  The plugin manager, \<open>internal/plugin/manager.go\<close>: registration, initialisation, the routes of the
  plugins and their handler, shutdown and the list. A plugin is an object behind the interface of
  \<open>pkg/plugin/plugin.go\<close>: a state \<open>'p\<close> with a record of operations; \<open>shipped_ops\<close> is that record
  for the two plugins that \<open>cmd/finguard/main.go\<close> registers.

  The map of registered plugins is an association list in Go's iteration order. A panic is \<open>None\<close>.
\<close>

section \<open>Plugins as objects\<close>

record ('p, 'b) plugin_ops =
  po_metadata :: "'p \<Rightarrow> string + metadata"
  po_init :: "'b init_request \<Rightarrow> 'p \<Rightarrow> string option \<times> 'p"
  po_exec :: "execute_request \<Rightarrow> 'p \<Rightarrow> string + 'b execute_response"
  po_stream :: "'p \<Rightarrow> string + plugin_event channel option"
  po_shutdown :: "'p \<Rightarrow> (string option \<times> 'p) option"

record 'p registered =
  rg_instance :: 'p
  rg_meta :: metadata
  rg_cancel :: "bool option"

text \<open>\<open>rg_cancel\<close>: no bridge was started, or whether its context has been cancelled.\<close>

type_synonym 'p plugins = "(string \<times> 'p registered) list"

definition NewPlugins :: "'p plugins" where
  "NewPlugins = []"

definition RegisterPlugin :: "('p, 'b) plugin_ops \<Rightarrow> 'p \<Rightarrow> 'p plugins \<Rightarrow> string + 'p plugins" where
  "RegisterPlugin ops p m =
     (case po_metadata ops p of
        Inl err \<Rightarrow> Inl (''failed to get plugin metadata: '' @ err)
      | Inr meta \<Rightarrow>
          if map_of m (md_name meta) \<noteq> None
          then Inl (''plugin '' @ CHR 0x22 # md_name meta @ CHR 0x22 # '' already registered'')
          else Inr ((md_name meta, \<lparr>rg_instance = p, rg_meta = meta, rg_cancel = None\<rparr>) # m))"

definition initialize_one :: "('p, 'b) plugin_ops \<Rightarrow> string \<Rightarrow> 'p registered \<Rightarrow> 'p registered" where
  "initialize_one ops url rp =
     (case po_init ops \<lparr>ir_config = None, ir_url = url\<rparr> (rg_instance rp) of
        (Some err, p) \<Rightarrow> rp\<lparr>rg_instance := p\<rparr>
      | (None, p) \<Rightarrow> rp\<lparr>rg_instance := p, rg_cancel := Some False\<rparr>)"

definition InitializeAll :: "('p, 'b) plugin_ops \<Rightarrow> string \<Rightarrow> 'p plugins \<Rightarrow> 'p plugins" where
  "InitializeAll ops url m = map (\<lambda>(name, rp). (name, initialize_one ops url rp)) m"

fun ShutdownAll :: "('p, 'b) plugin_ops \<Rightarrow> 'p plugins \<Rightarrow> 'p plugins option" where
  "ShutdownAll ops [] = Some []"
| "ShutdownAll ops ((name, rp) # m) =
     (let rp = (if rg_cancel rp = None then rp else rp\<lparr>rg_cancel := Some True\<rparr>) in
      case po_shutdown ops (rg_instance rp) of
        None \<Rightarrow> None
      | Some (err, p) \<Rightarrow> map_option (Cons (name, rp\<lparr>rg_instance := p\<rparr>)) (ShutdownAll ops m))"

definition ListPlugins :: "'p plugins \<Rightarrow> metadata list" where
  "ListPlugins m = map (\<lambda>(name, rp). rg_meta rp) m"

section \<open>Routes\<close>

text \<open>The answer of \<open>GET /plugins\<close>; without a manager the list is empty.\<close>

definition metadata_json :: "metadata \<Rightarrow> json" where
  "metadata_json md =
     JObj [(''name'', JStr (md_name md)), (''version'', JStr (md_version md)), (''description'', JStr (md_description md)),
       (''type'', JStr (md_type md)), (''topics'', JArr (map JStr (md_topics md))),
       (''routes'', JArr (map (\<lambda>r. JObj [(''method'', JStr (rt_method r)), (''path'', JStr (rt_path r)),
          (''description'', JStr (rt_description r))]) (md_routes md)))]"

definition handleListPlugins :: "'p plugins option \<Rightarrow> response" where
  "handleListPlugins pm =
     writeJSON StatusOK (JObj [(''plugins'', JArr (case pm of None \<Rightarrow> [] | Some m \<Rightarrow> map metadata_json (ListPlugins m)))])"

text \<open>A mounted route: its method, its path under \<open>/api/v1\<close>, the plugin and the action.\<close>

definition MountRoutes :: "'p plugins \<Rightarrow> (string \<times> string \<times> string \<times> string) list" where
  "MountRoutes m =
     concat (map (\<lambda>(name, rp).
       map (\<lambda>r. (rt_method r, ''/plugins/'' @ name @ rt_path r, name, rt_path r))
         (filter (\<lambda>r. rt_method r = ''GET'' \<or> rt_method r = ''POST'') (md_routes (rg_meta rp)))) m)"

text \<open>What the handler writes: status, content type, and an error body or the plugin's bytes.\<close>

record 'b plugin_answer =
  pa_status :: nat
  pa_content_type :: string
  pa_body :: "json + 'b option"

definition makePluginHandler ::
  "('p, 'b) plugin_ops \<Rightarrow> 'p \<Rightarrow> string \<Rightarrow> (string \<times> string) list \<Rightarrow> 'b plugin_answer" where
  "makePluginHandler ops p action query =
     (case po_exec ops \<lparr>xr_action = action, xr_params = query\<rparr> p of
        Inl err \<Rightarrow> \<lparr>pa_status = StatusInternalServerError, pa_content_type = ''application/json'',
                    pa_body = Inl (error_body err)\<rparr>
      | Inr resp \<Rightarrow>
          if xp_error resp \<noteq> ''''
          then \<lparr>pa_status = (if xp_status resp = 0 then StatusInternalServerError else xp_status resp),
                pa_content_type = ''application/json'', pa_body = Inl (error_body (xp_error resp))\<rparr>
          else \<lparr>pa_status = (if xp_status resp = 0 then StatusOK else xp_status resp),
                pa_content_type = (if xp_content_type resp = '''' then ''application/json'' else xp_content_type resp),
                pa_body = Inr (xp_data resp)\<rparr>)"

section \<open>The shipped plugins\<close>

datatype shipped = BudgetsPlugin budgets_plugin | BreakdownPlugin breakdown_plugin

fun shipped_metadata :: "shipped \<Rightarrow> metadata" where
  "shipped_metadata (BudgetsPlugin p) = budgets_metadata"
| "shipped_metadata (BreakdownPlugin p) = breakdown_metadata"

fun shipped_init :: "'b plugin_env \<Rightarrow> 'b init_request \<Rightarrow> shipped \<Rightarrow> shipped" where
  "shipped_init e req (BudgetsPlugin p) = BudgetsPlugin (InitializeBudgets e req p)"
| "shipped_init e req (BreakdownPlugin p) = BreakdownPlugin (InitializeBreakdown req p)"

fun shipped_exec :: "'b plugin_env \<Rightarrow> nat \<Rightarrow> execute_request \<Rightarrow> shipped \<Rightarrow> string + 'b execute_response" where
  "shipped_exec e n req (BudgetsPlugin p) = ExecuteBudgets e req p"
| "shipped_exec e n req (BreakdownPlugin p) = ExecuteBreakdown e n req p"

fun shipped_channel :: "shipped \<Rightarrow> plugin_event channel" where
  "shipped_channel (BudgetsPlugin p) = bp_events p"
| "shipped_channel (BreakdownPlugin p) = cb_events p"

fun shipped_shutdown :: "shipped \<Rightarrow> shipped option" where
  "shipped_shutdown (BudgetsPlugin p) = map_option BudgetsPlugin (ShutdownBudgets p)"
| "shipped_shutdown (BreakdownPlugin p) = map_option BreakdownPlugin (ShutdownBreakdown p)"

text \<open>One round of the poll loop.\<close>

fun shipped_poll :: "'b plugin_env \<Rightarrow> nat \<Rightarrow> nat \<Rightarrow> shipped \<Rightarrow> shipped option" where
  "shipped_poll e n k (BudgetsPlugin p) = map_option BudgetsPlugin (checkBudgets e n k p)"
| "shipped_poll e n k (BreakdownPlugin p) = map_option BreakdownPlugin (detectIdle e n k p)"

definition shipped_ops :: "'b plugin_env \<Rightarrow> nat \<Rightarrow> (shipped, 'b) plugin_ops" where
  "shipped_ops e n = \<lparr>po_metadata = (\<lambda>p. Inr (shipped_metadata p)), po_init = (\<lambda>req p. (None, shipped_init e req p)),
     po_exec = shipped_exec e n, po_stream = (\<lambda>p. Inr (Some (shipped_channel p))),
     po_shutdown = (\<lambda>p. map_option (Pair None) (shipped_shutdown p))\<rparr>"

text \<open>Several rounds, each with its request and clock numbers.\<close>

fun polls :: "(nat \<Rightarrow> nat \<Rightarrow> 'p \<Rightarrow> 'p option) \<Rightarrow> (nat \<times> nat) list \<Rightarrow> 'p \<Rightarrow> 'p option" where
  "polls poll [] p = Some p"
| "polls poll ((n, k) # nks) p = Option.bind (poll n k p) (polls poll nks)"

section \<open>The contract of a plugin\<close>

text \<open>
  What the manager and the event bridge rely on: the metadata never change, initialising keeps the channel,
  polling with an open channel does not panic and only sends to it, and shutting down closes it, once.
\<close>

locale plugin_contract =
  fixes ops :: "('p, 'b) plugin_ops" and poll :: "nat \<Rightarrow> nat \<Rightarrow> 'p \<Rightarrow> 'p option" and channel :: "'p \<Rightarrow> plugin_event channel"
  assumes stream: "po_stream ops p = Inr (Some (channel p))"
    and init_keeps: "po_init ops req p = (r, p') \<Longrightarrow> channel p' = channel p \<and> po_metadata ops p' = po_metadata ops p"
    and poll_open: "\<not> ch_closed (channel p) \<Longrightarrow>
      \<exists>p' evs. poll n k p = Some p' \<and> try_send_all 100 evs (channel p) = Some (channel p')
        \<and> po_metadata ops p' = po_metadata ops p"
    and shutdown_open: "\<not> ch_closed (channel p) \<Longrightarrow>
      \<exists>r p'. po_shutdown ops p = Some (r, p') \<and> channel p' = (channel p)\<lparr>ch_closed := True\<rparr>"
    and shutdown_closed: "ch_closed (channel p) \<Longrightarrow> po_shutdown ops p = None"
begin

lemma poll_keeps:
  assumes "\<not> ch_closed (channel p)"
  obtains p' evs where "poll n k p = Some p'" and "\<not> ch_closed (channel p')"
    and "ch_queue (channel p') = ch_queue (channel p) @ take (100 - length (ch_queue (channel p))) evs"
proof -
  from poll_open [OF assms, of n k] obtain p' evs where p': "poll n k p = Some p'"
    "try_send_all 100 evs (channel p) = Some (channel p')" by blast
  from p'(2) have "channel p' = (channel p)\<lparr>ch_queue := ch_queue (channel p)
      @ take (100 - length (ch_queue (channel p))) evs\<rparr>" by (simp add: try_send_all_open [OF assms])
  with p'(1) assms show thesis by (intro that [of p' evs]) simp_all
qed

text \<open>Any number of polls with an open channel: no panic, the channel grows by a suffix and stays bounded.\<close>

lemma polls_open:
  "\<not> ch_closed (channel p) \<Longrightarrow> length (ch_queue (channel p)) \<le> 100 \<Longrightarrow>
   \<exists>p' new. polls poll nks p = Some p' \<and> \<not> ch_closed (channel p')
     \<and> ch_queue (channel p') = ch_queue (channel p) @ new \<and> length (ch_queue (channel p')) \<le> 100"
proof (induction nks arbitrary: p)
  case (Cons nk nks)
  obtain n k where nk: "nk = (n, k)" by (cases nk)
  obtain p' evs where p': "poll n k p = Some p'" "\<not> ch_closed (channel p')"
    "ch_queue (channel p') = ch_queue (channel p) @ take (100 - length (ch_queue (channel p))) evs"
    using poll_keeps [OF Cons.prems(1)] .
  have "length (ch_queue (channel p')) \<le> 100" using p'(3) Cons.prems(2) by simp
  from Cons.IH [OF p'(2) this] p' nk show ?case by auto
qed simp

text \<open>Shutting down all plugins works once and closes every channel; a second time it panics.\<close>

lemma shutdown_all_open:
  "\<forall>(name, rp) \<in> set m. \<not> ch_closed (channel (rg_instance rp)) \<Longrightarrow>
   \<exists>m'. ShutdownAll ops m = Some m' \<and> map fst m' = map fst m
     \<and> (\<forall>(name, rp) \<in> set m'. ch_closed (channel (rg_instance rp)) \<and> rg_cancel rp \<noteq> Some False)"
proof (induction m)
  case (Cons x m)
  obtain name rp where x: "x = (name, rp)" by (cases x)
  let ?rp = "if rg_cancel rp = None then rp else rp\<lparr>rg_cancel := Some True\<rparr>"
  have inst: "rg_instance ?rp = rg_instance rp" by simp
  from Cons.prems x have "\<not> ch_closed (channel (rg_instance rp))" by simp
  then obtain r p' where p': "po_shutdown ops (rg_instance rp) = Some (r, p')"
    "channel p' = (channel (rg_instance rp))\<lparr>ch_closed := True\<rparr>"
    using shutdown_open by blast
  from Cons.IH Cons.prems obtain m' where "ShutdownAll ops m = Some m'" "map fst m' = map fst m"
    "\<forall>(name, rp) \<in> set m'. ch_closed (channel (rg_instance rp)) \<and> rg_cancel rp \<noteq> Some False" by auto
  with p' show ?case by (auto simp: x Let_def)
qed simp

lemma shutdown_twice:
  assumes "m \<noteq> []" and "\<forall>(name, rp) \<in> set m. ch_closed (channel (rg_instance rp))"
  shows "ShutdownAll ops m = None"
  using assms by (cases m) (auto simp: Let_def shutdown_closed split: prod.splits option.splits)

end

lemma close_open: "\<not> ch_closed c \<Longrightarrow> close_channel c = Some (c\<lparr>ch_closed := True\<rparr>)"
  by (simp add: close_channel_def)

lemma try_send_as_all: "try_send n x c = try_send_all n [x] c"
  by (cases "try_send n x c") simp_all

end
