(* ===== verification/Budgets_Laws.thy ===== *)
theory Budgets_Laws
  imports Budgets
begin

text \<open>
  What the budget check computes: the days of a month, the bounds of the projection, when a budget
  is exceeded although utilisation is a rounded quotient, and which alerts reach the event channel.
\<close>

section \<open>The month\<close>

text \<open>
  \<open>time.Date(y, m + 1, 0, ...)\<close> is the last day of the month, December included: the number of days is
  the calendar's, between 28 and 31, and the day of the month is between 1 and it.
\<close>

theorem days_in_month:
  assumes "date_of zone t = (y, m, d)"
  shows "daysInCurrentMonth zone t = month_length y m \<and> 28 \<le> daysInCurrentMonth zone t
    \<and> daysInCurrentMonth zone t \<le> 31 \<and> 1 \<le> Day zone t \<and> Day zone t \<le> daysInCurrentMonth zone t"
proof -
  from assms have v: "valid_date y m d" by (rule date_of_valid)
  then have m: "1 \<le> m" "m \<le> 12" by (simp_all add: valid_date_def)
  note len = month_length_bounds [OF m, of y]
  then have "valid_date y m (month_length y m)" using m by (simp add: valid_date_def)
  then have "date_of zone (Date zone y (m + 1) 0) = (y, m, month_length y m)"
    by (simp add: days_of_last [OF m] date_of_days_of_date)
  with assms v len show ?thesis by (simp add: daysInCurrentMonth_def Day_def valid_date_def)
qed

theorem days_in_month_witness:
  "daysInCurrentMonth 0 (Date 0 2024 2 10) = 29 \<and> daysInCurrentMonth 0 (Date 0 2023 12 1) = 31"
proof -
  have a: "date_of 0 (Date 0 2024 2 10) = (2024, 2, 10)"
    by (rule date_of_Date_valid) (simp add: valid_date_def month_length_def month_lengths_def leap_def)
  have b: "date_of 0 (Date 0 2023 12 1) = (2023, 12, 1)"
    by (rule date_of_Date_valid) (simp add: valid_date_def month_length_def month_lengths_def leap_def)
  show ?thesis
    using days_in_month [OF a] days_in_month [OF b] by (simp add: month_length_def month_lengths_def leap_def)
qed

text \<open>The progress of the month is a positive float of at most 1, and 1 on the last day.\<close>

lemma month_days: "\<exists>y m d. date_of zone t = (y, m, d)"
  by (metis prod_cases3)

lemma month_progress:
  obtains q where "monthProgress zone t = Fin q" and "0 < q" and "q \<le> 1"
    and "Day zone t = daysInCurrentMonth zone t \<Longrightarrow> q = 1"
proof -
  let ?d = "Day zone t" and ?n = "daysInCurrentMonth zone t"
  obtain y m d where "date_of zone t = (y, m, d)" using month_days by blast
  from days_in_month [OF this] have b: "28 \<le> ?n" "?n \<le> 31" "1 \<le> ?d" "?d \<le> ?n" by simp_all
  have "(1 / 32 :: rat) \<le> of_int ?d / of_int ?n"
  proof -
    have "(1::rat) \<le> of_int ?d" "of_int ?n \<le> (32::rat)" "(0::rat) < of_int ?n" using b by simp_all
    then have "of_int ?n * 1 \<le> 32 * (of_int ?d :: rat)" by (intro mult_mono) simp_all
    then show ?thesis using \<open>0 < of_int ?n\<close> by (simp add: field_simps)
  qed
  moreover have "is_float (1 / 32)"
    using is_float_multiple [of 1 "- 5"] by (simp add: pow2_def power_int_minus)
  ultimately have "1 / 32 \<le> rnd_rat (of_int ?d / of_int ?n)" by (rule rnd_rat_ge)
  moreover have "rnd_rat (of_int ?d / of_int ?n) \<le> 1" using b by (intro rnd_rat_le) simp_all
  moreover have "(1::rat) < pow2 1024" using pow2_less_iff [of 0 1024] by simp
  ultimately have q: "monthProgress zone t = Fin (rnd_rat (of_int ?d / of_int ?n))"
    and r: "0 < rnd_rat (of_int ?d / of_int ?n)" "rnd_rat (of_int ?d / of_int ?n) \<le> 1"
    using b rnd_cases [of "of_int ?d / of_int ?n"] by (auto simp: monthProgress_def)
  have "rnd_rat (of_int ?d / of_int ?n) = 1" if "?d = ?n"
    using that b is_float_1 by (simp add: is_float_def)
  with that q r show thesis by blast
qed

section \<open>One budget\<close>

text \<open>A sum of costs: no NaN, and a finite one is a value of the type.\<close>

definition spend_ok :: "float64 \<Rightarrow> bool" where
  "spend_ok x = (case x of Fin r \<Rightarrow> rnd r = Fin r | NaN \<Rightarrow> False | _ \<Rightarrow> True)"

lemma rnd_self:
  assumes "rnd r = Fin r"
  shows "is_float r \<and> r < pow2 1024 \<and> - pow2 1024 < r"
proof -
  have f: "is_float r" using rnd_Fin [OF assms] ..
  then have "fits r = Fin r" using assms unfolding rnd_def is_float_def by simp
  with f show ?thesis by (simp add: fits_def split: if_splits)
qed

lemma rnd_value: "rnd x = Fin r \<Longrightarrow> rnd r = Fin r"
  by (metis rnd_Fin rnd_def is_float_def)

definition budget_finite :: "namespace_budget \<Rightarrow> bool" where
  "budget_finite b = (case nb_monthly b of Fin r \<Rightarrow> is_float r | _ \<Rightarrow> False)"

lemma exceeded_utilization:
  "bs_status (budget_state progress b spend) = ''exceeded'' \<longleftrightarrow>
     fless (Fin 0) (nb_monthly b) \<and> fle (Fin 1) (fdiv spend (nb_monthly b))"
  by (auto simp: budget_state_def Let_def fle_def)

lemma exceeded_iff:
  assumes "budget_finite b" and "spend_ok spend"
  shows "bs_status (budget_state progress b spend) = ''exceeded''
    \<longleftrightarrow> fless (Fin 0) (nb_monthly b) \<and> fle (nb_monthly b) spend"
proof -
  obtain r where r: "nb_monthly b = Fin r" "is_float r"
    using assms(1) by (auto simp: budget_finite_def split: float64.splits)
  show ?thesis
  proof (cases spend)
    case (Fin x)
    then have "is_float x" using assms(2) rnd_self by (simp add: spend_ok_def)
    with fdiv_reaches_one [of r x] r Fin show ?thesis
      by (auto simp: fle_def exceeded_utilization)
  qed (use assms(2) r in \<open>auto simp: fle_def spend_ok_def exceeded_utilization\<close>)
qed

lemma projected_bounds:
  assumes "spend_ok x"
  shows "fle (Fin 0) x \<Longrightarrow> fle x (bs_projected (budget_state (monthProgress zone t) b x))"
    and "fle x (Fin 0) \<Longrightarrow> fle (bs_projected (budget_state (monthProgress zone t) b x)) x"
    and "Day zone t = daysInCurrentMonth zone t \<Longrightarrow> bs_projected (budget_state (monthProgress zone t) b x) = x"
proof -
  obtain q where q: "monthProgress zone t = Fin q" "0 < q" "q \<le> 1"
    and last: "Day zone t = daysInCurrentMonth zone t \<Longrightarrow> q = 1" by (rule month_progress) blast
  have p: "bs_projected (budget_state (monthProgress zone t) b x) = fdiv x (Fin q)"
    using q by (simp add: budget_state_def Let_def)
  have low: "fle (fdiv x (Fin q)) x" if "x = Fin r" "rnd r = Fin r" "r \<le> 0" for r
  proof -
    note f = rnd_self [OF that(2)]
    have "r / q \<le> r" using that(3) q(2,3) by (simp add: pos_divide_le_eq mult_le_cancel_left1)
    then have "rnd_rat (r / q) \<le> r" using f by (intro rnd_rat_le) simp_all
    with f q(2) that(1) show ?thesis using rnd_cases [of "r / q"] by (auto simp: fle_def)
  qed
  have high: "fle x (fdiv x (Fin q))" if "x = Fin r" "rnd r = Fin r" "0 \<le> r" for r
  proof -
    note f = rnd_self [OF that(2)]
    have "r * q \<le> r" using that(3) q(3) by (simp add: mult_left_le)
    then have "r \<le> r / q" using q(2) by (simp add: pos_le_divide_eq)
    then have "r \<le> rnd_rat (r / q)" using f by (intro rnd_rat_ge) simp_all
    with f q(2) that(1) show ?thesis using rnd_cases [of "r / q"] by (auto simp: fle_def)
  qed
  show "fle (Fin 0) x \<Longrightarrow> fle x (bs_projected (budget_state (monthProgress zone t) b x))"
    unfolding p using assms high q(2) by (cases x) (auto simp: spend_ok_def fle_def)
  show "fle x (Fin 0) \<Longrightarrow> fle (bs_projected (budget_state (monthProgress zone t) b x)) x"
    unfolding p using assms low q(2) by (cases x) (auto simp: spend_ok_def fle_def)
  show "Day zone t = daysInCurrentMonth zone t \<Longrightarrow> bs_projected (budget_state (monthProgress zone t) b x) = x"
    unfolding p using assms last by (cases x) (auto simp: spend_ok_def)
qed

section \<open>The costs\<close>

lemma spend_ok_add: "spend_ok x \<Longrightarrow> spend_ok (fadd x (Fin q))"
proof (cases x)
  case (Fin r)
  then show ?thesis using rnd_cases [of "r + q"] by (auto simp: spend_ok_def intro: rnd_value)
qed (simp_all add: spend_ok_def)

definition costs_ok :: "(string \<times> float64) list \<Rightarrow> bool" where
  "costs_ok costs \<longleftrightarrow> (\<forall>ns c. map_of costs ns = Some c \<longrightarrow> spend_ok c)"

lemma add_window_ok: "costs_ok costs \<Longrightarrow> costs_ok (add_window w costs)"
proof (induction w costs rule: add_window.induct)
  case (2 ns a w costs)
  show ?case
  proof (cases "float_at ''totalCost'' a")
    case (Some x)
    then obtain q where q: "x = Fin q" "is_float q" using float_at_Some by blast
    have "spend_ok (Fin 0)" using rnd_int [of 0] by (simp add: spend_ok_def)
    with 2(3) have "spend_ok (case map_of costs ns of None \<Rightarrow> Fin 0 | Some c \<Rightarrow> c)"
      by (auto simp: costs_ok_def split: option.split)
    then have "spend_ok (fadd (case map_of costs ns of None \<Rightarrow> Fin 0 | Some c \<Rightarrow> c) x)"
      unfolding q(1) by (rule spend_ok_add)
    with 2(3) have "costs_ok (AList.update ns (fadd (case map_of costs ns of None \<Rightarrow> Fin 0 | Some c \<Rightarrow> c) x) costs)"
      by (auto simp: costs_ok_def update_conv split: if_splits)
    with 2(2) [OF Some] Some show ?thesis by simp
  qed (use 2 in simp)
qed simp

lemma fold_windows_ok: "costs_ok costs \<Longrightarrow> costs_ok (fold (\<lambda>w. add_window (f w)) ws costs)"
  by (induction ws arbitrary: costs) (simp_all add: add_window_ok)

lemma fetch_ok: "fetchNamespaceCosts e n p = Some costs \<Longrightarrow> costs_ok costs"
proof -
  assume "fetchNamespaceCosts e n p = Some costs"
  then obtain ws where "costs = fold (\<lambda>w. add_window (pe_range e w)) ws []"
    by (auto simp: fetchNamespaceCosts_def)
  moreover have "costs_ok []" by (simp add: costs_ok_def)
  ultimately show ?thesis by (simp add: fold_windows_ok)
qed

section \<open>The check\<close>

text \<open>The statuses of a check, and its alerts with their clock readings.\<close>

definition states_of :: "float64 \<Rightarrow> (string \<times> float64) list \<Rightarrow> namespace_budget list \<Rightarrow> budget_status list" where
  "states_of progress costs bs =
     List.map_filter (\<lambda>b. map_option (budget_state progress b) (map_of costs (nb_namespace b))) bs"

fun alerts_of :: "'b plugin_env \<Rightarrow> nat \<Rightarrow> budget_status list \<Rightarrow> plugin_event list" where
  "alerts_of e k [] = []"
| "alerts_of e k (s # ss) =
     (case budget_alert (pe_clock e k) s of
        None \<Rightarrow> alerts_of e k ss
      | Some a \<Rightarrow> a # alerts_of e (Suc k) ss)"

lemma states_of_Cons:
  "states_of progress costs (b # bs) =
     (case map_of costs (nb_namespace b) of
        None \<Rightarrow> states_of progress costs bs
      | Some spend \<Rightarrow> budget_state progress b spend # states_of progress costs bs)"
  by (simp add: states_of_def List.map_filter_simps split: option.split)

lemma set_states_of:
  "s \<in> set (states_of progress costs bs) \<longleftrightarrow>
     (\<exists>b \<in> set bs. \<exists>spend. map_of costs (nb_namespace b) = Some spend \<and> s = budget_state progress b spend)"
  by (induction bs) (auto simp: states_of_Cons states_of_def List.map_filter_simps split: option.splits)

lemma check_loop_spec:
  "check_loop e progress costs bs k ss c =
     map_option (Pair (ss @ states_of progress costs bs))
       (try_send_all events_capacity (alerts_of e k (states_of progress costs bs)) c)"
proof (induction bs arbitrary: k ss c)
  case Nil
  then show ?case by (simp add: states_of_def List.map_filter_simps)
next
  case (Cons b bs)
  show ?case
  proof (cases "map_of costs (nb_namespace b)")
    case (Some spend)
    let ?s = "budget_state progress b spend"
    show ?thesis
    proof (cases "budget_alert (pe_clock e k) ?s")
      case alert: (Some a)
      with Some Cons show ?thesis
        by (cases "try_send events_capacity a c") (simp_all add: states_of_Cons Let_def)
    qed (use Some Cons in \<open>simp add: states_of_Cons Let_def\<close>)
  qed (use Cons in \<open>simp add: states_of_Cons\<close>)
qed

lemma checkBudgets_cases:
  assumes "fetchNamespaceCosts e n p = Some costs" and "\<not> ch_closed (bp_events p)"
  shows "checkBudgets e n k p =
    (let ss = states_of (monthProgress (pe_zone e) (pe_clock e k)) costs (bp_budgets p) in
     Some (p\<lparr>bp_events := (bp_events p)\<lparr>ch_queue := ch_queue (bp_events p)
               @ take (events_capacity - length (ch_queue (bp_events p))) (alerts_of e (Suc k) ss)\<rparr>,
             bp_statuses := (if ss = [] then None else Some ss)\<rparr>))"
  using assms by (simp add: checkBudgets_def check_loop_spec try_send_all_open Let_def)

text \<open>
  A check with an open event channel does not panic. A failing fetch changes nothing; otherwise the status
  list is one status per budget whose namespace has a cost, in the order of the budgets, and the channel
  gets the alerts of the warning and exceeded ones in that order, as many as there is room for.
\<close>

theorem check_budgets_spec:
  assumes "\<not> ch_closed (bp_events p)"
  shows "checkBudgets e n k p = Some (case fetchNamespaceCosts e n p of
      None \<Rightarrow> p
    | Some costs \<Rightarrow>
        let ss = states_of (monthProgress (pe_zone e) (pe_clock e k)) costs (bp_budgets p) in
        p\<lparr>bp_events := (bp_events p)\<lparr>ch_queue := ch_queue (bp_events p)
             @ take (events_capacity - length (ch_queue (bp_events p))) (alerts_of e (Suc k) ss)\<rparr>,
          bp_statuses := (if ss = [] then None else Some ss)\<rparr>)"
proof (cases "fetchNamespaceCosts e n p")
  case None
  then show ?thesis by (simp add: checkBudgets_def)
next
  case (Some costs)
  then show ?thesis unfolding checkBudgets_cases [OF Some assms] by (simp add: Let_def)
qed

lemma check_statuses:
  assumes "checkBudgets e n k p = Some p'" and "fetchNamespaceCosts e n p = Some costs"
    and "bp_statuses p' = Some ss"
  shows "ss = states_of (monthProgress (pe_zone e) (pe_clock e k)) costs (bp_budgets p)"
  using assms by (auto simp: checkBudgets_def check_loop_spec split: if_splits)

lemma check_status:
  assumes "checkBudgets e n k p = Some p'" and "fetchNamespaceCosts e n p \<noteq> None"
    and "bp_statuses p' = Some ss" and "s \<in> set ss"
  obtains b spend where "b \<in> set (bp_budgets p)" and "spend_ok spend"
    and "s = budget_state (monthProgress (pe_zone e) (pe_clock e k)) b spend"
proof -
  from assms(2) obtain costs where c: "fetchNamespaceCosts e n p = Some costs" by blast
  from check_statuses [OF assms(1) c assms(3)] assms(4) obtain b spend where
    b: "b \<in> set (bp_budgets p)" "map_of costs (nb_namespace b) = Some spend"
    "s = budget_state (monthProgress (pe_zone e) (pe_clock e k)) b spend"
    by (auto simp: set_states_of)
  with fetch_ok [OF c] that show thesis by (auto simp: costs_ok_def)
qed

lemma budget_state_fields [simp]:
  "bs_monthly (budget_state q b x) = nb_monthly b" "bs_spend (budget_state q b x) = x"
  "bs_status (budget_state q b x) \<in> {''ok'', ''warning'', ''exceeded''}"
  by (simp_all add: budget_state_def Let_def)

text \<open>
  C11: Although utilisation is a rounded quotient, a budget is reported exceeded exactly when it is positive
  and the spending has reached it: no spending just below a budget is rounded up to it.
\<close>

theorem budget_exceeded_exact:
  assumes "checkBudgets e n k p = Some p'" and "fetchNamespaceCosts e n p \<noteq> None"
    and "bp_statuses p' = Some ss" and "s \<in> set ss" and "list_all budget_finite (bp_budgets p)"
  shows "bs_status s \<in> {''ok'', ''warning'', ''exceeded''}
    \<and> (bs_status s = ''exceeded'' \<longleftrightarrow> fless (Fin 0) (bs_monthly s) \<and> fle (bs_monthly s) (bs_spend s))"
proof -
  obtain b spend where b: "b \<in> set (bp_budgets p)" "spend_ok spend"
    and s: "s = budget_state (monthProgress (pe_zone e) (pe_clock e k)) b spend"
    using check_status [OF assms(1-4)] .
  have "budget_finite b" using assms(5) b(1) by (simp add: list_all_iff)
  from exceeded_iff [OF this b(2)] show ?thesis unfolding s by (simp only: budget_state_fields simp_thms)
qed

text \<open>
  C23: The projected end-of-month spending is at least the spending so far where that is not negative, and at most
  the spending so far where that is not positive (OpenCost may report credits, and the code takes any
  number); on the last day of the month it is the spending itself.
\<close>

theorem projection_bounds:
  assumes "checkBudgets e n k p = Some p'" and "fetchNamespaceCosts e n p \<noteq> None"
    and "bp_statuses p' = Some ss" and "s \<in> set ss"
  shows "(fle (Fin 0) (bs_spend s) \<longrightarrow> fle (bs_spend s) (bs_projected s))
    \<and> (fle (bs_spend s) (Fin 0) \<longrightarrow> fle (bs_projected s) (bs_spend s))
    \<and> (Day (pe_zone e) (pe_clock e k) = daysInCurrentMonth (pe_zone e) (pe_clock e k)
         \<longrightarrow> bs_projected s = bs_spend s)"
proof -
  obtain b spend where b: "spend_ok spend" and s: "s = budget_state (monthProgress (pe_zone e) (pe_clock e k)) b spend"
    using check_status [OF assms] .
  show ?thesis using projected_bounds [OF b] unfolding s by simp
qed

section \<open>A check\<close>

definition sample_answer :: json where
  "sample_answer = JObj [(''code'', JNum 200),
     (''data'', JArr [JObj [(''default'', JObj [(''totalCost'', JNum 100)]), (''other'', JObj [])]])]"

definition sample_plugin_env :: "json plugin_env" where
  "sample_plugin_env = \<lparr>pe_get = (\<lambda>_ _. Answer 200 sample_answer), pe_unmarshal = Some, pe_marshal = id,
     pe_clock = (\<lambda>k. Date 0 2024 4 10 + int k), pe_zone = 0, pe_range = id\<rparr>"

definition sample_budgets :: budgets_plugin where
  "sample_budgets = NewBudgets (Some [\<lparr>nb_namespace = ''default'', nb_monthly = Fin 100, nb_warning = Fin (1/2)\<rparr>])"

lemma sample_fetch: "fetchNamespaceCosts sample_plugin_env 0 sample_budgets = Some [(''default'', Fin 100)]"
proof -
  have r: "rnd 100 = Fin 100" "rnd 200 = Fin 200" using rnd_int [of 100] rnd_int [of 200] by simp_all
  have "allocation_data sample_answer = Some [[(''default'', [(''totalCost'', JNum 100)]), (''other'', [])]]"
    by (simp add: allocation_data_def response_data_def sample_answer_def object_fields_def same_key_def lower_def number_value_def r)
  then show ?thesis
    by (simp add: fetchNamespaceCosts_def fetch_windows_def sample_plugin_env_def float_at_def number_value_def r)
qed

definition sample_status :: budget_status where
  "sample_status = budget_state (monthProgress 0 (Date 0 2024 4 10))
     \<lparr>nb_namespace = ''default'', nb_monthly = Fin 100, nb_warning = Fin (1/2)\<rparr> (Fin 100)"

lemma sample_check:
  obtains p' where "checkBudgets sample_plugin_env 0 0 sample_budgets = Some p'" "bp_statuses p' = Some [sample_status]"
proof -
  have open': "\<not> ch_closed (bp_events sample_budgets)" by (simp add: sample_budgets_def NewBudgets_def make_channel_def)
  have ss: "states_of (monthProgress (pe_zone sample_plugin_env) (pe_clock sample_plugin_env 0)) [(''default'', Fin 100)]
      (bp_budgets sample_budgets) = [sample_status]"
    by (simp add: states_of_def List.map_filter_simps sample_budgets_def NewBudgets_def sample_plugin_env_def sample_status_def)
  show thesis
    by (rule that [OF checkBudgets_cases [OF sample_fetch open', of 0, unfolded Let_def]]) (simp add: ss)
qed

theorem check_budgets_spec_witness:
  "\<exists>p'. checkBudgets sample_plugin_env 0 0 sample_budgets = Some p' \<and> bp_statuses p' = Some [sample_status]"
proof -
  have open': "\<not> ch_closed (bp_events sample_budgets)" by (simp add: sample_budgets_def NewBudgets_def make_channel_def)
  have ss: "states_of (monthProgress (pe_zone sample_plugin_env) (pe_clock sample_plugin_env 0)) [(''default'', Fin 100)]
      (bp_budgets sample_budgets) = [sample_status]"
    by (simp add: states_of_def List.map_filter_simps sample_budgets_def NewBudgets_def sample_plugin_env_def sample_status_def)
  show ?thesis
    using check_budgets_spec [OF open', of sample_plugin_env 0 0] unfolding sample_fetch by (simp add: ss Let_def)
qed

theorem budget_exceeded_exact_witness: "bs_status sample_status = ''exceeded''"
proof -
  obtain p' where c: "checkBudgets sample_plugin_env 0 0 sample_budgets = Some p'"
    and ss: "bp_statuses p' = Some [sample_status]" by (rule sample_check)
  have f: "fetchNamespaceCosts sample_plugin_env 0 sample_budgets \<noteq> None" by (simp add: sample_fetch)
  have s: "sample_status \<in> set [sample_status]" by simp
  have b: "list_all budget_finite (bp_budgets sample_budgets)"
    using is_float_int [of 100] by (simp add: sample_budgets_def NewBudgets_def budget_finite_def)
  from budget_exceeded_exact [OF c f ss s b] show ?thesis by (simp add: sample_status_def fle_def)
qed

theorem projection_bounds_witness: "fle (Fin 100) (bs_projected sample_status)"
proof -
  obtain p' where c: "checkBudgets sample_plugin_env 0 0 sample_budgets = Some p'"
    and ss: "bp_statuses p' = Some [sample_status]" by (rule sample_check)
  have f: "fetchNamespaceCosts sample_plugin_env 0 sample_budgets \<noteq> None" by (simp add: sample_fetch)
  have s: "sample_status \<in> set [sample_status]" by simp
  have x: "bs_spend sample_status = Fin 100" by (simp add: sample_status_def)
  from projection_bounds [OF c f ss s] x show ?thesis by (simp add: fle_def)
qed

end
