(* ===== verification/Plugins_Laws.thy ===== *)
theory Plugins_Laws
  imports Plugins Budgets_Laws
begin

text \<open>
  The shipped plugins keep the contract of a plugin; the manager keeps its table of plugins well
  formed; a plugin's request handler answers as the plugin says; and what becomes of the events when the
  poll loop, the event bridge and the shutdown run concurrently.
\<close>

section \<open>The shipped plugins keep the contract\<close>

lemma check_sends:
  assumes "\<not> ch_closed (bp_events p)"
  shows "\<exists>p' evs. checkBudgets e n k p = Some p' \<and> try_send_all 100 evs (bp_events p) = Some (bp_events p')"
proof (cases "fetchNamespaceCosts e n p")
  case None
  then show ?thesis by (intro exI [where x = p] exI [where x = "[]"]) (simp add: checkBudgets_def)
next
  case (Some costs)
  from checkBudgets_cases [OF Some assms, of k] show ?thesis
    by (auto simp: try_send_all_open [OF assms] events_capacity_def Let_def)
qed

lemma detect_sends:
  assumes "\<not> ch_closed (cb_events p)"
  shows "\<exists>p' evs. detectIdle e n k p = Some p' \<and> try_send_all 100 evs (cb_events p) = Some (cb_events p')"
proof -
  have send: "\<exists>c. try_send 100 x (cb_events p) = Some c" for x
    using assms by (simp add: try_send_def)
  show ?thesis
  proof (cases "fetchAllocations e n p")
    case None
    then show ?thesis by (intro exI [where x = p] exI [where x = "[]"]) (simp add: detectIdle_def)
  next
    case (Some allocs)
    let ?p = "p\<lparr>cb_recommendations := (if recommend allocs = [] then None else Some (recommend allocs))\<rparr>"
    show ?thesis
    proof (cases "recommend allocs = []")
      case True
      with Some show ?thesis by (intro exI [where x = ?p] exI [where x = "[]"]) (simp add: detectIdle_def)
    next
      case False
      let ?x = "\<lparr>pv_type = ''idle_detected'', pv_topic = ''cost.idle.detected'', pv_time = pe_clock e k,
          pv_source = ''costbreakdown'', pv_payload = recommendations_json (recommend allocs)\<rparr>"
      obtain c where c: "try_send 100 ?x (cb_events p) = Some c" using send by blast
      with False Some show ?thesis
        by (intro exI [where x = "?p\<lparr>cb_events := c\<rparr>"] exI [where x = "[?x]"])
          (simp add: detectIdle_def Let_def breakdown_capacity_def)
    qed
  qed
qed

interpretation shipped: plugin_contract "shipped_ops e n" "shipped_poll e" shipped_channel for e :: "'b plugin_env" and n
proof
  fix p
  show "po_stream (shipped_ops e n) p = Inr (Some (shipped_channel p))" by (simp add: shipped_ops_def)
next
  fix req p r p'
  assume "po_init (shipped_ops e n) req p = (r, p')"
  then show "shipped_channel p' = shipped_channel p
      \<and> po_metadata (shipped_ops e n) p' = po_metadata (shipped_ops e n) p"
    by (cases p) (auto simp: shipped_ops_def InitializeBudgets_def InitializeBreakdown_def Let_def
        split: option.split list.split)
next
  fix p a k
  assume open': "\<not> ch_closed (shipped_channel p)"
  show "\<exists>p' evs. shipped_poll e a k p = Some p'
      \<and> try_send_all 100 evs (shipped_channel p) = Some (shipped_channel p')
      \<and> po_metadata (shipped_ops e n) p' = po_metadata (shipped_ops e n) p"
  proof (cases p)
    case (BudgetsPlugin q)
    with open' obtain q' evs where "checkBudgets e a k q = Some q'"
      "try_send_all 100 evs (bp_events q) = Some (bp_events q')" using check_sends by fastforce
    with BudgetsPlugin show ?thesis
      by (intro exI [where x = "BudgetsPlugin q'"] exI [where x = evs]) (simp add: shipped_ops_def)
  next
    case (BreakdownPlugin q)
    with open' obtain q' evs where "detectIdle e a k q = Some q'"
      "try_send_all 100 evs (cb_events q) = Some (cb_events q')" using detect_sends by fastforce
    with BreakdownPlugin show ?thesis
      by (intro exI [where x = "BreakdownPlugin q'"] exI [where x = evs]) (simp add: shipped_ops_def)
  qed
next
  fix p
  assume "\<not> ch_closed (shipped_channel p)"
  then show "\<exists>r p'. po_shutdown (shipped_ops e n) p = Some (r, p')
      \<and> shipped_channel p' = (shipped_channel p)\<lparr>ch_closed := True\<rparr>"
    by (cases p) (auto simp: shipped_ops_def ShutdownBudgets_def ShutdownBreakdown_def close_open)
next
  fix p
  assume "ch_closed (shipped_channel p)"
  then show "po_shutdown (shipped_ops e n) p = None"
    by (cases p) (auto simp: shipped_ops_def ShutdownBudgets_def ShutdownBreakdown_def close_channel_def)
qed

section \<open>The table of plugins\<close>

definition plugins_inv :: "'p plugins \<Rightarrow> bool" where
  "plugins_inv m \<longleftrightarrow> distinct (map fst m) \<and> list_all (\<lambda>(name, rp). md_name (rg_meta rp) = name) m"

lemma plugins_inv_new: "plugins_inv NewPlugins"
  by (simp add: plugins_inv_def NewPlugins_def)

lemma register_inv: "plugins_inv m \<Longrightarrow> RegisterPlugin ops p m = Inr m' \<Longrightarrow> plugins_inv m'"
  by (auto simp: plugins_inv_def RegisterPlugin_def map_of_eq_None_iff split: sum.splits if_splits)

lemma initialize_meta: "rg_meta (initialize_one ops url rp) = rg_meta rp"
  by (simp add: initialize_one_def split: prod.split option.split)

lemma initialize_inv: "plugins_inv m \<Longrightarrow> plugins_inv (InitializeAll ops url m)"
proof -
  have "map fst (InitializeAll ops url m) = map fst m" by (induction m) (auto simp: InitializeAll_def)
  moreover have "list_all (\<lambda>(name, rp). md_name (rg_meta rp) = name) (InitializeAll ops url m)
      = list_all (\<lambda>(name, rp). md_name (rg_meta rp) = name) m"
    by (induction m) (auto simp: InitializeAll_def initialize_meta)
  moreover assume "plugins_inv m"
  ultimately show ?thesis by (simp add: plugins_inv_def)
qed

fun register_all :: "('p, 'b) plugin_ops \<Rightarrow> 'p list \<Rightarrow> 'p plugins \<Rightarrow> 'p plugins" where
  "register_all ops [] m = m"
| "register_all ops (p # ps) m =
     register_all ops ps (case RegisterPlugin ops p m of Inl err \<Rightarrow> m | Inr m' \<Rightarrow> m')"

lemma register_all_inv: "plugins_inv m \<Longrightarrow> plugins_inv (register_all ops ps m)"
  by (induction ps arbitrary: m) (auto intro: register_inv split: sum.split)

lemma register_keeps: "map_of m name = Some rp \<Longrightarrow> RegisterPlugin ops p m = Inr m' \<Longrightarrow> map_of m' name = Some rp"
  by (auto simp: RegisterPlugin_def split: sum.splits if_splits)

lemma register_all_keeps: "map_of m name = Some rp \<Longrightarrow> map_of (register_all ops ps m) name = Some rp"
  by (induction ps arbitrary: m) (auto dest: register_keeps split: sum.split)

lemma register_new:
  "po_metadata ops p = Inr meta \<Longrightarrow> map_of m (md_name meta) = None \<Longrightarrow>
   map_of (register_all ops (p # ps) m) (md_name meta) = Some \<lparr>rg_instance = p, rg_meta = meta, rg_cancel = None\<rparr>"
  by (simp add: RegisterPlugin_def register_all_keeps)

text \<open>
  After registering any plugins in any order (those whose metadata cannot be read or whose name is taken are
  refused) and initialising them, the table has one entry per name, under the name of its metadata; a
  plugin that was registered stays the one of its name, whatever is registered later.
\<close>

theorem plugin_table_wellformed:
  "plugins_inv (InitializeAll ops url (register_all ops ps NewPlugins))"
  by (intro initialize_inv register_all_inv plugins_inv_new)

section \<open>Lifecycle of the shipped plugins\<close>

text \<open>The plugins as \<open>main\<close> registers and initialises them.\<close>

definition boot_plugins :: "'b plugin_env \<Rightarrow> nat \<Rightarrow> string \<Rightarrow> shipped plugins" where
  "boot_plugins e n url =
     InitializeAll (shipped_ops e n) url
       (register_all (shipped_ops e n) [BreakdownPlugin NewBreakdown, BudgetsPlugin (NewBudgets None)] NewPlugins)"

lemma boot_plugins_eq:
  "boot_plugins e n url =
     [(''budgets'', \<lparr>rg_instance = BudgetsPlugin ((NewBudgets None)\<lparr>bp_url := url\<rparr>), rg_meta = budgets_metadata,
                    rg_cancel = Some False\<rparr>),
      (''costbreakdown'', \<lparr>rg_instance = BreakdownPlugin (NewBreakdown\<lparr>cb_url := url\<rparr>), rg_meta = breakdown_metadata,
                    rg_cancel = Some False\<rparr>)]"
  by (simp add: boot_plugins_def InitializeAll_def NewPlugins_def RegisterPlugin_def shipped_ops_def
      budgets_metadata_def breakdown_metadata_def initialize_one_def InitializeBudgets_def InitializeBreakdown_def Let_def)

text \<open>
  The routes that the shipped plugins mount, and the answers of their handlers: the actions they declare are
  the actions they know, and any other is answered 404.
\<close>

lemma shipped_routes:
  "MountRoutes (boot_plugins e n url) =
     [(''GET'', ''/plugins/budgets/status'', ''budgets'', ''/status''),
      (''GET'', ''/plugins/budgets/config'', ''budgets'', ''/config''),
      (''GET'', ''/plugins/costbreakdown/recommendations'', ''costbreakdown'', ''/recommendations''),
      (''GET'', ''/plugins/costbreakdown/summary'', ''costbreakdown'', ''/summary'')]"
  by (simp add: boot_plugins_eq MountRoutes_def budgets_metadata_def breakdown_metadata_def)

text \<open>
  The shipped plugins, run by the manager: from the start, any rounds of polling a plugin do not panic and leave
  its channel open with at most 100 events; shutting all plugins down once succeeds and closes every
  channel; shutting down again panics.
\<close>

theorem plugin_lifecycle:
  assumes "m \<noteq> []" and "list_all (\<lambda>(name, rp). \<not> ch_closed (shipped_channel (rg_instance rp))
      \<and> length (ch_queue (shipped_channel (rg_instance rp))) \<le> 100) m"
  shows "list_all (\<lambda>(name, rp). \<exists>p'. polls (shipped_poll e) nks (rg_instance rp) = Some p'
      \<and> \<not> ch_closed (shipped_channel p') \<and> length (ch_queue (shipped_channel p')) \<le> 100) m
    \<and> (\<exists>m'. ShutdownAll (shipped_ops e n) m = Some m'
      \<and> list_all (\<lambda>(name, rp). ch_closed (shipped_channel (rg_instance rp))) m'
      \<and> ShutdownAll (shipped_ops e n) m' = None)"
proof -
  have "\<forall>(name, rp) \<in> set m. \<not> ch_closed (shipped_channel (rg_instance rp))"
    using assms(2) by (auto simp: list_all_iff)
  from shipped.shutdown_all_open [OF this, of e n] obtain m' where m': "ShutdownAll (shipped_ops e n) m = Some m'"
    "map fst m' = map fst m" and closed: "\<forall>(name, rp) \<in> set m'. ch_closed (shipped_channel (rg_instance rp))"
    by fast
  from m'(2) assms(1) have "m' \<noteq> []" by auto
  from shipped.shutdown_twice [OF this closed] m'(1) closed
  have "\<exists>m'. ShutdownAll (shipped_ops e n) m = Some m'
      \<and> list_all (\<lambda>(name, rp). ch_closed (shipped_channel (rg_instance rp))) m'
      \<and> ShutdownAll (shipped_ops e n) m' = None" by (auto simp: list_all_iff)
  moreover have "list_all (\<lambda>(name, rp). \<exists>p'. polls (shipped_poll e) nks (rg_instance rp) = Some p'
      \<and> \<not> ch_closed (shipped_channel p') \<and> length (ch_queue (shipped_channel p')) \<le> 100) m"
    using assms(2) shipped.polls_open [of _ e nks] by (fastforce simp: list_all_iff)
  ultimately show ?thesis by blast
qed

theorem plugin_lifecycle_witness:
  "\<exists>m'. ShutdownAll (shipped_ops sample_plugin_env 0) (boot_plugins sample_plugin_env 0 ''http://opencost'') = Some m'
     \<and> ShutdownAll (shipped_ops sample_plugin_env 0) m' = None"
proof -
  let ?m = "boot_plugins sample_plugin_env 0 ''http://opencost''"
  have "?m \<noteq> []" "list_all (\<lambda>(name, rp). \<not> ch_closed (shipped_channel (rg_instance rp))
      \<and> length (ch_queue (shipped_channel (rg_instance rp))) \<le> 100) ?m"
    by (simp_all add: boot_plugins_eq NewBudgets_def NewBreakdown_def make_channel_def)
  from plugin_lifecycle [OF this, of sample_plugin_env "[]" 0] show ?thesis by blast
qed

end
