(* ===== verification/Pipeline.thy ===== *)
theory Pipeline
  imports Plugins_Laws
begin

text \<open>
  The life of one plugin's events in the running program, as a step relation: its poll loop (\<open>pollLoop\<close> of
  both plugins), the bridge that publishes its events to the hub (\<open>bridgeEvents\<close> of
  \<open>internal/plugin/manager.go\<close>), and the shutdown of \<open>cmd/finguard/main.go\<close> (the signal, then
  \<open>ShutdownAll\<close>: cancel the bridge, close the channel) take steps in any order. A round of the poll loop sends the
  events that the plugin's check makes of the answer it gets; a check whose context is done fetches nothing and
  so sends nothing.

  Lemmas: events are published in the order in which the channel accepted them, none lost or repeated; the
  bridge is never stuck; a round of the poll loop that nothing interrupts sends what
  \<open>try_send_all\<close> sends; and a shutdown in the middle of a round panics.
\<close>

section \<open>States and steps\<close>

datatype poller = PollWaiting | PollSending "plugin_event list" | PollStopped | PollPanicked

datatype bridge = BridgeWaiting | BridgeHolding plugin_event | BridgeStopped

record pipe =
  pp_channel :: "plugin_event channel"
  pp_poller :: poller
  pp_bridge :: bridge
  pp_published :: "event list"
  pp_accepted :: "plugin_event list"
  pp_done :: bool
  pp_cancelled :: bool

text \<open>\<open>pp_accepted\<close> records what the channel has taken so far; no step reads it.\<close>

definition init_pipe :: pipe where
  "init_pipe = \<lparr>pp_channel = make_channel, pp_poller = PollWaiting, pp_bridge = BridgeWaiting,
     pp_published = [], pp_accepted = [], pp_done = False, pp_cancelled = False\<rparr>"

text \<open>The event the bridge makes; a nil payload is \<open>null\<close> on the wire.\<close>

definition bridge_event :: "plugin_event \<Rightarrow> event" where
  "bridge_event x = \<lparr>ev_type = pv_type x, ev_topic = pv_topic x, ev_time = pv_time x, ev_source = pv_source x,
     ev_payload = (case pv_payload x of None \<Rightarrow> JNull | Some j \<Rightarrow> j)\<rparr>"

text \<open>The events of a round: the alerts of a check of the budgets, the one event of a detection with results.\<close>

fun round_events :: "'b plugin_env \<Rightarrow> nat \<Rightarrow> nat \<Rightarrow> shipped \<Rightarrow> plugin_event list" where
  "round_events e n k (BudgetsPlugin p) =
     (case fetchNamespaceCosts e n p of
        None \<Rightarrow> []
      | Some costs \<Rightarrow>
          alerts_of e (Suc k) (states_of (monthProgress (pe_zone e) (pe_clock e k)) costs (bp_budgets p)))"
| "round_events e n k (BreakdownPlugin p) =
     (case fetchAllocations e n p of
        None \<Rightarrow> []
      | Some allocs \<Rightarrow>
          if recommend allocs = [] then []
          else [\<lparr>pv_type = ''idle_detected'', pv_topic = ''cost.idle.detected'', pv_time = pe_clock e k,
                 pv_source = ''costbreakdown'', pv_payload = recommendations_json (recommend allocs)\<rparr>])"

text \<open>\<open>p\<close>: the plugin as it was initialised; its address and its budgets do not change later.\<close>

inductive pipe_step :: "'b plugin_env \<Rightarrow> shipped \<Rightarrow> pipe \<Rightarrow> pipe \<Rightarrow> bool" for e p where
  poll: "pp_poller s = PollWaiting \<Longrightarrow> evs = (if pp_done s then [] else round_events e n k p) \<Longrightarrow>
    pipe_step e p s (s\<lparr>pp_poller := PollSending evs\<rparr>)"
| send: "pp_poller s = PollSending (x # xs) \<Longrightarrow> try_send 100 x (pp_channel s) = Some c \<Longrightarrow>
    pipe_step e p s (s\<lparr>pp_poller := PollSending xs, pp_channel := c,
      pp_accepted := pp_accepted s @ drop (length (ch_queue (pp_channel s))) (ch_queue c)\<rparr>)"
| send_panic: "pp_poller s = PollSending (x # xs) \<Longrightarrow> try_send 100 x (pp_channel s) = None \<Longrightarrow>
    pipe_step e p s (s\<lparr>pp_poller := PollPanicked\<rparr>)"
| polled: "pp_poller s = PollSending [] \<Longrightarrow> pipe_step e p s (s\<lparr>pp_poller := PollWaiting\<rparr>)"
| poll_stop: "pp_poller s = PollWaiting \<Longrightarrow> pp_done s \<Longrightarrow> pipe_step e p s (s\<lparr>pp_poller := PollStopped\<rparr>)"
| receive: "pp_bridge s = BridgeWaiting \<Longrightarrow> ch_queue (pp_channel s) = x # q \<Longrightarrow>
    pipe_step e p s (s\<lparr>pp_bridge := BridgeHolding x, pp_channel := (pp_channel s)\<lparr>ch_queue := q\<rparr>\<rparr>)"
| receive_closed: "pp_bridge s = BridgeWaiting \<Longrightarrow> ch_queue (pp_channel s) = [] \<Longrightarrow> ch_closed (pp_channel s) \<Longrightarrow>
    pipe_step e p s (s\<lparr>pp_bridge := BridgeStopped\<rparr>)"
| bridge_stop: "pp_bridge s = BridgeWaiting \<Longrightarrow> pp_done s \<or> pp_cancelled s \<Longrightarrow>
    pipe_step e p s (s\<lparr>pp_bridge := BridgeStopped\<rparr>)"
| publish: "pp_bridge s = BridgeHolding x \<Longrightarrow>
    pipe_step e p s (s\<lparr>pp_bridge := BridgeWaiting, pp_published := pp_published s @ [bridge_event x]\<rparr>)"
| signal: "pipe_step e p s (s\<lparr>pp_done := True\<rparr>)"
| cancel: "pp_done s \<Longrightarrow> pipe_step e p s (s\<lparr>pp_cancelled := True\<rparr>)"
| shutdown: "pp_cancelled s \<Longrightarrow> close_channel (pp_channel s) = Some c \<Longrightarrow>
    pipe_step e p s (s\<lparr>pp_channel := c\<rparr>)"

abbreviation pipe_run :: "'b plugin_env \<Rightarrow> shipped \<Rightarrow> pipe \<Rightarrow> pipe \<Rightarrow> bool" where
  "pipe_run e p \<equiv> (pipe_step e p)\<^sup>*\<^sup>*"

section \<open>Order\<close>

fun held :: "bridge \<Rightarrow> plugin_event list" where
  "held (BridgeHolding x) = [x]"
| "held _ = []"

definition pipe_inv :: "pipe \<Rightarrow> bool" where
  "pipe_inv s \<longleftrightarrow>
     pp_published s @ map bridge_event (held (pp_bridge s) @ ch_queue (pp_channel s)) = map bridge_event (pp_accepted s)
   \<and> length (ch_queue (pp_channel s)) \<le> 100
   \<and> (pp_poller s = PollPanicked \<longrightarrow> ch_closed (pp_channel s))
   \<and> (ch_closed (pp_channel s) \<longrightarrow> pp_cancelled s) \<and> (pp_cancelled s \<longrightarrow> pp_done s)"

lemma pipe_inv_init: "pipe_inv init_pipe"
  by (simp add: pipe_inv_def init_pipe_def make_channel_def)

lemma try_send_Some:
  "try_send n x c = Some c' \<Longrightarrow> \<not> ch_closed c \<and>
     c' = c\<lparr>ch_queue := ch_queue c @ (if length (ch_queue c) < n then [x] else [])\<rparr>"
  by (auto simp: try_send_def split: if_splits)

lemma try_send_None: "try_send n x c = None \<longleftrightarrow> ch_closed c"
  by (simp add: try_send_def)

lemma pipe_step_inv: "pipe_step e p s s' \<Longrightarrow> pipe_inv s \<Longrightarrow> pipe_inv s'"
proof (induction rule: pipe_step.induct)
  case (send s x xs c)
  from try_send_Some [OF send(2)] send(3) show ?case by (auto simp: pipe_inv_def)
next
  case (shutdown s c)
  then show ?case by (auto simp: pipe_inv_def close_channel_def split: if_splits)
qed (auto simp: pipe_inv_def try_send_None)

interpretation pipe_steps: step_invariant "pipe_step e p" pipe_inv for e p
  by unfold_locales (rule pipe_step_inv)

lemma pipe_run_inv: "pipe_run e p s s' \<Longrightarrow> pipe_inv s \<Longrightarrow> pipe_inv s'"
  by (rule pipe_steps.run_keeps)

text \<open>
  C16: Whatever the interleaving, the events published to the hub, with the one in the bridge and those in the
  channel, are the events the channel accepted, in order; the channel holds at most 100; and the poll
  loop can only panic once the channel has been closed after a shutdown signal.
\<close>

theorem events_in_order:
  assumes "pipe_run e p init_pipe s"
  shows "pp_published s @ map bridge_event (held (pp_bridge s) @ ch_queue (pp_channel s))
      = map bridge_event (pp_accepted s)
    \<and> length (ch_queue (pp_channel s)) \<le> 100
    \<and> (pp_poller s = PollPanicked \<longrightarrow> ch_closed (pp_channel s) \<and> pp_done s)"
  using pipe_run_inv [OF assms pipe_inv_init] by (simp add: pipe_inv_def)

section \<open>Progress of the bridge\<close>

definition backlog :: "pipe \<Rightarrow> nat" where
  "backlog s = 2 * length (ch_queue (pp_channel s)) + length (held (pp_bridge s))"

definition drained :: "pipe \<Rightarrow> pipe" where
  "drained s = s\<lparr>pp_bridge := BridgeWaiting, pp_channel := (pp_channel s)\<lparr>ch_queue := []\<rparr>,
     pp_published := pp_published s @ map bridge_event (held (pp_bridge s) @ ch_queue (pp_channel s))\<rparr>"

lemma drained_id: "pp_bridge s = BridgeWaiting \<Longrightarrow> ch_queue (pp_channel s) = [] \<Longrightarrow> drained s = s"
  by (rule pipe.equality) (simp_all add: drained_def)

lemma drain_waiting:
  "pp_bridge s = BridgeWaiting \<Longrightarrow> ch_queue (pp_channel s) = q \<Longrightarrow> (pipe_step e p ^^ (2 * length q)) s (drained s)"
proof (induction q arbitrary: s)
  case Nil
  then show ?case by (simp add: drained_id)
next
  case (Cons x q)
  let ?s1 = "s\<lparr>pp_bridge := BridgeHolding x, pp_channel := (pp_channel s)\<lparr>ch_queue := q\<rparr>\<rparr>"
  let ?s2 = "?s1\<lparr>pp_bridge := BridgeWaiting, pp_published := pp_published ?s1 @ [bridge_event x]\<rparr>"
  have "pipe_step e p s ?s1" using Cons.prems by (rule receive)
  moreover have "pipe_step e p ?s1 ?s2" by (rule publish) simp
  moreover have "(pipe_step e p ^^ (2 * length q)) ?s2 (drained ?s2)" by (rule Cons.IH) simp_all
  moreover have "drained ?s2 = drained s" using Cons.prems by (simp add: drained_def)
  ultimately have "(pipe_step e p ^^ (Suc (Suc (2 * length q)))) s (drained s)"
    by (metis relpowp_Suc_I2)
  then show ?case by simp
qed

text \<open>
  The bridge is never stuck: as long as it has not been stopped, the steps of the bridge alone, two for every
  event in the channel and one for the event it holds, publish everything the channel has accepted.
\<close>

theorem bridge_delivers:
  assumes "pipe_run e p init_pipe s" and "pp_bridge s \<noteq> BridgeStopped"
  shows "\<exists>s'. (pipe_step e p ^^ backlog s) s s' \<and> pp_published s' = map bridge_event (pp_accepted s)
    \<and> pp_bridge s' = BridgeWaiting \<and> ch_queue (pp_channel s') = [] \<and> pp_poller s' = pp_poller s"
proof -
  have "(pipe_step e p ^^ backlog s) s (drained s)"
  proof (cases "pp_bridge s")
    case BridgeWaiting
    with drain_waiting [OF this refl] show ?thesis by (simp add: backlog_def)
  next
    case (BridgeHolding x)
    let ?s1 = "s\<lparr>pp_bridge := BridgeWaiting, pp_published := pp_published s @ [bridge_event x]\<rparr>"
    have "pipe_step e p s ?s1" using BridgeHolding by (rule publish)
    moreover have "(pipe_step e p ^^ (2 * length (ch_queue (pp_channel s)))) ?s1 (drained ?s1)"
      by (rule drain_waiting) simp_all
    moreover have "drained ?s1 = drained s" using BridgeHolding by (simp add: drained_def)
    ultimately have "(pipe_step e p ^^ (Suc (2 * length (ch_queue (pp_channel s))))) s (drained s)"
      by (metis relpowp_Suc_I2)
    with BridgeHolding show ?thesis by (simp add: backlog_def)
  qed (use assms(2) in simp)
  with pipe_run_inv [OF assms(1) pipe_inv_init] show ?thesis
    by (intro exI [where x = "drained s"]) (simp add: pipe_inv_def drained_def)
qed

section \<open>A round of the poll loop\<close>

lemma send_run:
  "pp_poller s = PollSending evs \<Longrightarrow> try_send_all 100 evs (pp_channel s) = Some c \<Longrightarrow>
   pipe_run e p s (s\<lparr>pp_poller := PollSending [], pp_channel := c,
     pp_accepted := pp_accepted s @ drop (length (ch_queue (pp_channel s))) (ch_queue c)\<rparr>)"
proof (induction evs arbitrary: s)
  case Nil
  then have "s\<lparr>pp_poller := PollSending [], pp_channel := c,
      pp_accepted := pp_accepted s @ drop (length (ch_queue (pp_channel s))) (ch_queue c)\<rparr> = s"
    by (intro pipe.equality) simp_all
  then show ?case by (metis rtranclp.rtrancl_refl)
next
  case (Cons x xs)
  then obtain c1 where c1: "try_send 100 x (pp_channel s) = Some c1" "try_send_all 100 xs c1 = Some c"
    by (auto simp: bind_eq_Some_conv)
  let ?s1 = "s\<lparr>pp_poller := PollSending xs, pp_channel := c1,
      pp_accepted := pp_accepted s @ drop (length (ch_queue (pp_channel s))) (ch_queue c1)\<rparr>"
  have step: "pipe_step e p s ?s1" using Cons.prems(1) c1(1) by (rule send)
  note first = try_send_Some [OF c1(1)]
  then have "\<not> ch_closed c1" by simp
  with c1(2) have c: "c = c1\<lparr>ch_queue := ch_queue c1 @ take (100 - length (ch_queue c1)) xs\<rparr>"
    by (simp add: try_send_all_open)
  have "pp_accepted ?s1 @ drop (length (ch_queue c1)) (ch_queue c)
      = pp_accepted s @ drop (length (ch_queue (pp_channel s))) (ch_queue c)"
    using first c by auto
  moreover have "pipe_run e p ?s1 (?s1\<lparr>pp_poller := PollSending [], pp_channel := c,
      pp_accepted := pp_accepted ?s1 @ drop (length (ch_queue c1)) (ch_queue c)\<rparr>)"
    using Cons.IH [of ?s1] c1(2) by simp
  ultimately have "pipe_run e p ?s1 (s\<lparr>pp_poller := PollSending [], pp_channel := c,
      pp_accepted := pp_accepted s @ drop (length (ch_queue (pp_channel s))) (ch_queue c)\<rparr>)"
    by simp
  with step show ?case by (rule converse_rtranclp_into_rtranclp)
qed

text \<open>What an alert must say of the status it is sent for.\<close>

definition alert_for :: "budget_status \<Rightarrow> plugin_event \<Rightarrow> bool" where
  "alert_for s x \<longleftrightarrow> pv_type x = bs_status s \<and> pv_topic x = ''budget.'' @ bs_status s \<and> pv_source x = ''budgets''
     \<and> (case pv_payload x of
          Some (JObj kvs) \<Rightarrow> map_of kvs ''namespace'' = Some (JStr (bs_namespace s))
            \<and> map_of kvs ''status'' = Some (JStr (bs_status s))
            \<and> map_of kvs ''budget'' = float_json (bs_monthly s) \<and> map_of kvs ''currentSpend'' = float_json (bs_spend s)
            \<and> map_of kvs ''utilization'' = float_json (bs_utilization s)
            \<and> map_of kvs ''projected'' = float_json (bs_projected s)
        | Some _ \<Rightarrow> False
        | None \<Rightarrow> None \<in> float_json ` {bs_monthly s, bs_spend s, bs_utilization s, bs_projected s})"

text \<open>
  What a round reports: an alert for every status that is not \<open>ok\<close>, in the order of the new status list, or
  one event with all the new recommendations.
\<close>

fun reports :: "shipped \<Rightarrow> plugin_event list \<Rightarrow> bool" where
  "reports (BudgetsPlugin p) evs =
     list_all2 alert_for
       (filter (\<lambda>s. bs_status s \<noteq> ''ok'') (case bp_statuses p of None \<Rightarrow> [] | Some ss \<Rightarrow> ss)) evs"
| "reports (BreakdownPlugin p) evs =
     (case cb_recommendations p of
        None \<Rightarrow> evs = []
      | Some recs \<Rightarrow> (\<exists>t. evs = [\<lparr>pv_type = ''idle_detected'', pv_topic = ''cost.idle.detected'', pv_time = t,
          pv_source = ''costbreakdown'', pv_payload = recommendations_json recs\<rparr>]))"

fun fetched :: "'b plugin_env \<Rightarrow> nat \<Rightarrow> shipped \<Rightarrow> bool" where
  "fetched e n (BudgetsPlugin p) = (fetchNamespaceCosts e n p \<noteq> None)"
| "fetched e n (BreakdownPlugin p) = (fetchAllocations e n p \<noteq> None)"

lemma alert_of_state:
  assumes "s = budget_state q b x"
  shows "budget_alert t s = None \<longleftrightarrow> bs_status s = ''ok''" and "budget_alert t s = Some ev \<Longrightarrow> alert_for s ev"
proof -
  have st: "bs_status s \<in> {''ok'', ''warning'', ''exceeded''}" unfolding assms by (rule budget_state_fields(3))
  then show "budget_alert t s = None \<longleftrightarrow> bs_status s = ''ok''" by (auto simp: budget_alert_def)
  assume "budget_alert t s = Some ev"
  with st show "alert_for s ev"
    by (cases "float_json (bs_monthly s)"; cases "float_json (bs_spend s)"; cases "float_json (bs_utilization s)";
        cases "float_json (bs_projected s)")
      (auto simp: budget_alert_def alert_for_def alert_payload_def split: if_splits)
qed

lemma alerts_report:
  assumes "\<And>s. s \<in> set ss \<Longrightarrow> \<exists>q b x. s = budget_state q b x"
  shows "list_all2 alert_for (filter (\<lambda>s. bs_status s \<noteq> ''ok'') ss) (alerts_of e k ss)"
  using assms
proof (induction ss arbitrary: k)
  case (Cons s ss)
  obtain q b x where s: "s = budget_state q b x" using Cons.prems by force
  have IH: "list_all2 alert_for (filter (\<lambda>s. bs_status s \<noteq> ''ok'') ss) (alerts_of e k ss)" for k
    using Cons.IH Cons.prems by simp
  show ?case
  proof (cases "budget_alert (pe_clock e k) s")
    case None
    with alert_of_state(1) [OF s] IH show ?thesis by simp
  next
    case (Some ev)
    then have "bs_status s \<noteq> ''ok''" using alert_of_state(1) [OF s, of "pe_clock e k"] by simp
    with Some alert_of_state(2) [OF s Some] IH show ?thesis by simp
  qed
qed simp

text \<open>The plugin's own round: what it sends, and what that reports of its new state.\<close>

lemma poll_round:
  assumes "\<not> ch_closed (shipped_channel p)"
  obtains p' where "shipped_poll e n k p = Some p'"
    and "try_send_all 100 (round_events e n k p) (shipped_channel p) = Some (shipped_channel p')"
    and "if fetched e n p then reports p' (round_events e n k p) else p' = p \<and> round_events e n k p = []"
proof (cases p)
  case (BudgetsPlugin b)
  with assms have open': "\<not> ch_closed (bp_events b)" by simp
  show thesis
  proof (cases "fetchNamespaceCosts e n b")
    case None
    with BudgetsPlugin show thesis by (intro that [of p]) (simp_all add: checkBudgets_def)
  next
    case (Some costs)
    let ?ss = "states_of (monthProgress (pe_zone e) (pe_clock e k)) costs (bp_budgets b)"
    let ?b = "b\<lparr>bp_events := (bp_events b)\<lparr>ch_queue := ch_queue (bp_events b)
        @ take (100 - length (ch_queue (bp_events b))) (alerts_of e (Suc k) ?ss)\<rparr>,
        bp_statuses := (if ?ss = [] then None else Some ?ss)\<rparr>"
    have "checkBudgets e n k b = Some ?b"
      using checkBudgets_cases [OF Some open', of k] by (simp add: Let_def events_capacity_def)
    moreover have "list_all2 alert_for (filter (\<lambda>s. bs_status s \<noteq> ''ok'') ?ss) (alerts_of e (Suc k) ?ss)"
      by (rule alerts_report) (auto simp: set_states_of)
    ultimately show thesis using BudgetsPlugin Some
      by (intro that [of "BudgetsPlugin ?b"]) (simp_all add: try_send_all_open [OF open'])
  qed
next
  case (BreakdownPlugin b)
  with assms have open': "\<not> ch_closed (cb_events b)" by simp
  show thesis
  proof (cases "fetchAllocations e n b")
    case None
    with BreakdownPlugin show thesis by (intro that [of p]) (simp_all add: detectIdle_def)
  next
    case (Some allocs)
    show thesis
    proof (cases "recommend allocs = []")
      case True
      with BreakdownPlugin Some show thesis
        by (intro that [of "BreakdownPlugin (b\<lparr>cb_recommendations := None\<rparr>)"]) (simp_all add: detectIdle_def)
    next
      case False
      let ?x = "\<lparr>pv_type = ''idle_detected'', pv_topic = ''cost.idle.detected'', pv_time = pe_clock e k,
          pv_source = ''costbreakdown'', pv_payload = recommendations_json (recommend allocs)\<rparr>"
      have "\<exists>c. try_send 100 ?x (cb_events b) = Some c" using open' by (simp add: try_send_def)
      then obtain c where "try_send 100 ?x (cb_events b) = Some c" by blast
      with False BreakdownPlugin Some show thesis
        by (intro that [of "BreakdownPlugin (b\<lparr>cb_recommendations := Some (recommend allocs), cb_events := c\<rparr>)"])
          (simp_all add: detectIdle_def Let_def breakdown_capacity_def)
    qed
  qed
qed

text \<open>
  C12: A round of a shipped plugin (a check of the budgets, a detection of idle resources) from a waiting poll loop and
  an open channel does not panic, and the interleaved model runs it: undisturbed, it ends waiting, with the
  channel as the plugin's own function leaves it and the events of the round accepted as far as there is
  room. If the fetch fails nothing is sent and nothing changes. Otherwise the budget plugin sends one alert
  for each status of its new list that is not \<open>ok\<close>, in that order, of that type, with the topic
  \<open>budget.warning\<close> or \<open>budget.exceeded\<close> that belongs to it and with the namespace and the numbers of the status;
  and the cost breakdown plugin sends one event with its new recommendations if there are any.
\<close>

theorem poll_refined:
  assumes "pp_poller s = PollWaiting" and "\<not> pp_done s" and "\<not> ch_closed (shipped_channel p)"
    and "pp_channel s = shipped_channel p"
  shows "\<exists>p'. shipped_poll e n k p = Some p'
    \<and> ch_queue (shipped_channel p') = ch_queue (shipped_channel p)
        @ take (100 - length (ch_queue (shipped_channel p))) (round_events e n k p)
    \<and> pipe_run e p s (s\<lparr>pp_channel := shipped_channel p', pp_accepted := pp_accepted s
        @ take (100 - length (ch_queue (shipped_channel p))) (round_events e n k p)\<rparr>)
    \<and> (if fetched e n p then reports p' (round_events e n k p) else p' = p \<and> round_events e n k p = [])"
proof -
  let ?evs = "round_events e n k p"
  obtain p' where p': "shipped_poll e n k p = Some p'"
    and c: "try_send_all 100 ?evs (shipped_channel p) = Some (shipped_channel p')"
    and reports: "if fetched e n p then reports p' ?evs else p' = p \<and> ?evs = []"
    using poll_round [OF assms(3)] .
  from c have "shipped_channel p' = (shipped_channel p)\<lparr>ch_queue := ch_queue (shipped_channel p)
      @ take (100 - length (ch_queue (shipped_channel p))) ?evs\<rparr>"
    by (simp add: try_send_all_open [OF assms(3)])
  then have q: "ch_queue (shipped_channel p') = ch_queue (shipped_channel p)
      @ take (100 - length (ch_queue (shipped_channel p))) ?evs" by simp
  let ?s1 = "s\<lparr>pp_poller := PollSending ?evs\<rparr>"
  let ?acc = "pp_accepted s @ take (100 - length (ch_queue (shipped_channel p))) ?evs"
  let ?s2 = "?s1\<lparr>pp_poller := PollSending [], pp_channel := shipped_channel p', pp_accepted := ?acc\<rparr>"
  have first: "pipe_step e p s ?s1" using assms(1,2) by (intro poll) simp_all
  have sends: "pipe_run e p ?s1 ?s2"
    using send_run [of ?s1 ?evs "shipped_channel p'"] c q assms(4) by simp
  have "?s2\<lparr>pp_poller := PollWaiting\<rparr> = s\<lparr>pp_channel := shipped_channel p', pp_accepted := ?acc\<rparr>"
    using assms(1) by (intro pipe.equality) simp_all
  moreover have "pipe_step e p ?s2 (?s2\<lparr>pp_poller := PollWaiting\<rparr>)" by (rule polled) simp
  ultimately have last: "pipe_step e p ?s2 (s\<lparr>pp_channel := shipped_channel p', pp_accepted := ?acc\<rparr>)" by simp
  note run = rtranclp.rtrancl_into_rtrancl [OF converse_rtranclp_into_rtranclp [OF first sends] last]
  from p' q reports run show ?thesis by blast
qed

section \<open>Shutdown in the middle of a round\<close>

text \<open>
  C33: A shutdown while a round of a plugin that has something to report is between its fetch and its last send panics:
  \<open>ShutdownAll\<close> closes the channel without waiting for the poll loop.
\<close>

theorem shutdown_panic_reachable:
  assumes "round_events e n k p \<noteq> []"
  shows "\<exists>s. pipe_run e p init_pipe s \<and> pp_poller s = PollPanicked"
proof -
  obtain x xs where evs: "round_events e n k p = x # xs" using assms by (cases "round_events e n k p") simp_all
  let ?s1 = "init_pipe\<lparr>pp_poller := PollSending (x # xs)\<rparr>"
  let ?s2 = "?s1\<lparr>pp_done := True\<rparr>"
  let ?s3 = "?s2\<lparr>pp_cancelled := True\<rparr>"
  let ?s4 = "?s3\<lparr>pp_channel := \<lparr>ch_queue = [], ch_closed = True\<rparr>\<rparr>"
  let ?s5 = "?s4\<lparr>pp_poller := PollPanicked\<rparr>"
  have "pipe_step e p init_pipe ?s1" by (rule poll [where n = n and k = k]) (simp_all add: init_pipe_def evs)
  moreover have "pipe_step e p ?s1 ?s2" by (rule signal)
  moreover have "pipe_step e p ?s2 ?s3" by (rule cancel) simp
  moreover have "pipe_step e p ?s3 ?s4"
    by (rule shutdown) (simp_all add: close_channel_def init_pipe_def make_channel_def)
  moreover have "pipe_step e p ?s4 ?s5" by (rule send_panic) (simp_all add: try_send_def)
  ultimately have "pipe_run e p init_pipe ?s5"
    by (meson converse_rtranclp_into_rtranclp rtranclp.rtrancl_refl)
  then show ?thesis by (intro exI [where x = ?s5]) simp
qed

section \<open>A run\<close>

text \<open>A check that finds the one budget exceeded.\<close>

definition sample_alert :: plugin_event where
  "sample_alert = \<lparr>pv_type = ''exceeded'', pv_topic = ''budget.exceeded'', pv_time = pe_clock sample_plugin_env 1,
     pv_source = ''budgets'', pv_payload = alert_payload sample_status\<rparr>"

abbreviation sample_plugin :: shipped where
  "sample_plugin \<equiv> BudgetsPlugin sample_budgets"

lemma sample_round: "round_events sample_plugin_env 0 0 sample_plugin = [sample_alert]"
proof -
  have b: "budget_finite \<lparr>nb_namespace = ''default'', nb_monthly = Fin 100, nb_warning = Fin (1/2)\<rparr>"
    using is_float_int [of 100] by (simp add: budget_finite_def)
  have x: "spend_ok (Fin 100)" using rnd_int [of 100] by (simp add: spend_ok_def)
  have "bs_status sample_status = ''exceeded''"
    unfolding sample_status_def by (simp only: exceeded_iff [OF b x]) (simp add: fle_def)
  moreover have "states_of (monthProgress (pe_zone sample_plugin_env) (pe_clock sample_plugin_env 0)) [(''default'', Fin 100)]
      (bp_budgets sample_budgets) = [sample_status]"
    by (simp add: states_of_def List.map_filter_simps sample_budgets_def NewBudgets_def sample_plugin_env_def sample_status_def)
  ultimately show ?thesis by (simp add: sample_fetch sample_alert_def budget_alert_def)
qed

definition sent_pipe :: pipe where
  "sent_pipe = init_pipe\<lparr>pp_poller := PollSending [], pp_channel := \<lparr>ch_queue = [sample_alert], ch_closed = False\<rparr>,
     pp_accepted := [sample_alert]\<rparr>"

lemma sent_pipe_run: "pipe_run sample_plugin_env sample_plugin init_pipe sent_pipe"
proof -
  let ?s1 = "init_pipe\<lparr>pp_poller := PollSending [sample_alert]\<rparr>"
  have "pipe_step sample_plugin_env sample_plugin init_pipe ?s1"
    by (rule poll [where n = 0 and k = 0]) (simp_all add: init_pipe_def sample_round del: round_events.simps)
  moreover have "try_send 100 sample_alert (pp_channel ?s1) = Some \<lparr>ch_queue = [sample_alert], ch_closed = False\<rparr>"
    by (simp add: try_send_def init_pipe_def make_channel_def)
  then have "pipe_step sample_plugin_env sample_plugin ?s1 sent_pipe"
    using send [where e = sample_plugin_env and p = sample_plugin and s = ?s1 and x = sample_alert and xs = "[]"]
    by (simp add: sent_pipe_def init_pipe_def make_channel_def)
  ultimately show ?thesis by (meson converse_rtranclp_into_rtranclp rtranclp.rtrancl_refl)
qed

theorem events_in_order_witness:
  "pp_published sent_pipe @ map bridge_event (held (pp_bridge sent_pipe) @ ch_queue (pp_channel sent_pipe))
     = [bridge_event sample_alert]"
  using events_in_order [OF sent_pipe_run] by (simp add: sent_pipe_def)

theorem bridge_delivers_witness:
  "\<exists>s'. (pipe_step sample_plugin_env sample_plugin ^^ 2) sent_pipe s' \<and> pp_published s' = [bridge_event sample_alert]"
proof -
  have "pp_bridge sent_pipe \<noteq> BridgeStopped" by (simp add: sent_pipe_def init_pipe_def)
  from bridge_delivers [OF sent_pipe_run this] show ?thesis
    by (auto simp: backlog_def sent_pipe_def init_pipe_def)
qed

theorem poll_refined_witness:
  "\<exists>p'. checkBudgets sample_plugin_env 0 0 sample_budgets = Some p' \<and> ch_queue (bp_events p') = [sample_alert]
     \<and> reports (BudgetsPlugin p') [sample_alert]
     \<and> pipe_run sample_plugin_env sample_plugin init_pipe
         (init_pipe\<lparr>pp_channel := bp_events p', pp_accepted := [sample_alert]\<rparr>)"
proof -
  have s: "pp_poller init_pipe = PollWaiting" "\<not> pp_done init_pipe"
    "\<not> ch_closed (shipped_channel sample_plugin)" "pp_channel init_pipe = shipped_channel sample_plugin"
    by (simp_all add: init_pipe_def make_channel_def sample_budgets_def NewBudgets_def)
  have q: "ch_queue (bp_events sample_budgets) = []" "pp_accepted init_pipe = []"
    by (simp_all add: init_pipe_def make_channel_def sample_budgets_def NewBudgets_def)
  have f: "fetched sample_plugin_env 0 sample_plugin" by (simp add: sample_fetch)
  from poll_refined [OF s, of sample_plugin_env 0 0] show ?thesis
    unfolding sample_round by (auto simp: q f simp del: reports.simps fetched.simps)
qed

theorem shutdown_panic_reachable_witness:
  "\<exists>s. pipe_run sample_plugin_env sample_plugin init_pipe s \<and> pp_poller s = PollPanicked"
proof -
  have "round_events sample_plugin_env 0 0 sample_plugin \<noteq> []" by (simp only: sample_round) simp
  from shutdown_panic_reachable [OF this] show ?thesis .
qed

end
