(* ===== verification/Migrate.thy ===== *)
theory Migrate
  imports Prelude "HOL-Library.List_Lexorder" "HOL-Library.Char_ord"
begin

text \<open>
  \<open>runMigrations\<close> of \<open>internal/store/migrate.go\<close>. The data of the database is a type variable and
  executing the text of a file on it the function \<open>run_sql\<close> (\<open>None\<close> when the engine rejects it);
  \<open>fault\<close> says which driver calls fail, by number. The migrations directory is the list of its
  entries with their contents, \<open>None\<close> for one that cannot be read.

  Lemmas: whatever fails, the database has gone through a prefix of the pending files, in order and each
  with its version recorded; and after a successful run there is nothing left to do.
\<close>

section \<open>State\<close>

record 'd mig_db =
  mg_data :: 'd
  mg_versions :: "int list option"

text \<open>\<open>mg_versions\<close>: the rows of \<open>schema_migrations\<close>, \<open>None\<close> before the table exists.\<close>

type_synonym mig_file = "string \<times> string option"

datatype migrate_error =
    CreateTable
  | CurrentVersion
  | ReadDir
  | ReadFile string
  | BeginTx string
  | ExecuteFile string
  | RecordVersion string
  | CommitTx string

section \<open>Names and versions\<close>

text \<open>
  \<open>fmt.Sscanf(filename, "%06d_", &version)\<close>: blanks, a sign and digits, at most six characters of the latter
  two together, then an underscore.
\<close>

definition scan_version :: "string \<Rightarrow> int option" where
  "scan_version name =
     (let s = dropWhile (\<lambda>c. c = CHR '' '' \<or> c = CHR 0x09) name;
          signed = (s \<noteq> [] \<and> (hd s = CHR ''-'' \<or> hd s = CHR ''+''));
          negative = (s \<noteq> [] \<and> hd s = CHR ''-'');
          s = (if signed then tl s else s);
          digits = takeWhile is_digit (take (if signed then 5 else 6) s);
          rest = drop (length digits) s
      in if digits = [] \<or> rest = [] \<or> hd rest \<noteq> CHR ''_'' then None
         else Some (if negative then - int (parse_nat digits) else int (parse_nat digits)))"

definition up_files :: "mig_file list \<Rightarrow> mig_file list" where
  "up_files entries = sort_key fst (filter (\<lambda>(name, content). HasSuffix name ''.up.sql'') entries)"

definition current_version :: "int list \<Rightarrow> int" where
  "current_version versions = (if versions = [] then 0 else Max (set versions))"

section \<open>The run\<close>

text \<open>One file in its transaction; a failure rolls back. The number counts driver calls.\<close>

definition apply_file ::
  "(nat \<Rightarrow> bool) \<Rightarrow> (string \<Rightarrow> 'd \<Rightarrow> 'd option) \<Rightarrow> string \<Rightarrow> string \<Rightarrow> int \<Rightarrow> nat \<Rightarrow> 'd mig_db
     \<Rightarrow> (migrate_error + 'd mig_db) \<times> nat"
where
  "apply_file fault run_sql name content version n db =
     (if fault n then (Inl (BeginTx name), n + 1)
      else if fault (n + 1) then (Inl (ExecuteFile name), n + 2)
      else case run_sql content (mg_data db) of
        None \<Rightarrow> (Inl (ExecuteFile name), n + 2)
      | Some data \<Rightarrow>
          let versions = (case mg_versions db of None \<Rightarrow> [] | Some vs \<Rightarrow> vs) in
          if fault (n + 2) \<or> version \<in> set versions then (Inl (RecordVersion name), n + 3)
          else if fault (n + 3) then (Inl (CommitTx name), n + 4)
          else (Inr \<lparr>mg_data = data, mg_versions = Some (versions @ [version])\<rparr>, n + 4))"

fun migrate_loop ::
  "(nat \<Rightarrow> bool) \<Rightarrow> (string \<Rightarrow> 'd \<Rightarrow> 'd option) \<Rightarrow> int \<Rightarrow> mig_file list \<Rightarrow> nat \<Rightarrow> 'd mig_db
     \<Rightarrow> migrate_error option \<times> 'd mig_db"
where
  "migrate_loop fault run_sql current [] n db = (None, db)"
| "migrate_loop fault run_sql current ((name, content) # files) n db =
     (case scan_version name of
        None \<Rightarrow> migrate_loop fault run_sql current files n db
      | Some version \<Rightarrow>
          if version \<le> current then migrate_loop fault run_sql current files n db
          else (case content of
                  None \<Rightarrow> (Some (ReadFile name), db)
                | Some text \<Rightarrow>
                    (case apply_file fault run_sql name text version n db of
                       (Inl err, n) \<Rightarrow> (Some err, db)
                     | (Inr db, n) \<Rightarrow> migrate_loop fault run_sql current files n db)))"

definition runMigrations ::
  "(nat \<Rightarrow> bool) \<Rightarrow> (string \<Rightarrow> 'd \<Rightarrow> 'd option) \<Rightarrow> mig_file list option \<Rightarrow> 'd mig_db
     \<Rightarrow> migrate_error option \<times> 'd mig_db"
where
  "runMigrations fault run_sql dir db =
     (if fault 0 then (Some CreateTable, db)
      else
        let versions = (case mg_versions db of None \<Rightarrow> [] | Some vs \<Rightarrow> vs);
            db = db\<lparr>mg_versions := Some versions\<rparr>
        in if fault 1 then (Some CurrentVersion, db)
           else case dir of
             None \<Rightarrow> (Some ReadDir, db)
           | Some entries \<Rightarrow> migrate_loop fault run_sql (current_version versions) (up_files entries) 2 db)"

section \<open>What has been applied\<close>

definition versions_of :: "'d mig_db \<Rightarrow> int list" where
  "versions_of db = (case mg_versions db of None \<Rightarrow> [] | Some vs \<Rightarrow> vs)"

text \<open>The files a run has to apply, with their versions.\<close>

definition pending :: "int \<Rightarrow> mig_file list \<Rightarrow> (int \<times> string option) list" where
  "pending current files =
     List.map_filter (\<lambda>(name, content). case scan_version name of
        None \<Rightarrow> None
      | Some v \<Rightarrow> if v \<le> current then None else Some (v, content)) files"

text \<open>Applying files one after the other, without failures.\<close>

fun apply_all :: "(string \<Rightarrow> 'd \<Rightarrow> 'd option) \<Rightarrow> (int \<times> string option) list \<Rightarrow> 'd mig_db \<Rightarrow> 'd mig_db option" where
  "apply_all run_sql [] db = Some db"
| "apply_all run_sql ((v, content) # ps) db =
     (case content of
        None \<Rightarrow> None
      | Some text \<Rightarrow>
          Option.bind (run_sql text (mg_data db))
            (\<lambda>data. apply_all run_sql ps \<lparr>mg_data = data, mg_versions = Some (versions_of db @ [v])\<rparr>))"

lemma pending_simps:
  "pending current [] = []"
  "pending current ((name, content) # files) =
     (case scan_version name of
        None \<Rightarrow> pending current files
      | Some v \<Rightarrow> if v \<le> current then pending current files else (v, content) # pending current files)"
  by (simp_all add: pending_def List.map_filter_simps split: option.split)

lemma apply_file_Inr:
  "apply_file fault run_sql name text v n db = (Inr db', n') \<Longrightarrow>
   \<exists>data. run_sql text (mg_data db) = Some data \<and> v \<notin> set (versions_of db)
     \<and> db' = \<lparr>mg_data = data, mg_versions = Some (versions_of db @ [v])\<rparr>"
  by (auto simp: apply_file_def versions_of_def Let_def split: if_splits option.splits)

lemma migrate_loop_prefix:
  "migrate_loop fault run_sql current files n db = (err, db') \<Longrightarrow>
   \<exists>k. apply_all run_sql (take k (pending current files)) db = Some db'
     \<and> (err = None \<longrightarrow> k = length (pending current files))"
proof (induction fault run_sql current files n db rule: migrate_loop.induct)
  case (1 fault run_sql current n db)
  then show ?case by (intro exI [where x = 0]) (simp add: pending_simps)
next
  case (2 fault run_sql current name content files n db)
  show ?case
  proof (cases "scan_version name")
    case None
    with 2(1) 2(4) show ?thesis by (simp add: pending_simps)
  next
    case (Some v)
    show ?thesis
    proof (cases "v \<le> current")
      case True
      with Some 2(2) 2(4) show ?thesis by (simp add: pending_simps)
    next
      case False
      show ?thesis
      proof (cases content)
        case None
        with Some False 2(4) show ?thesis by (intro exI [where x = 0]) auto
      next
        case con: (Some sql)
        obtain r n1 where r: "apply_file fault run_sql name sql v n db = (r, n1)" by fastforce
        show ?thesis
        proof (cases r)
          case (Inl e)
          with Some False con r 2(4) show ?thesis by (intro exI [where x = 0]) auto
        next
          case (Inr db1)
          from apply_file_Inr [OF r [unfolded Inr]] obtain data where d: "run_sql sql (mg_data db) = Some data"
            "db1 = \<lparr>mg_data = data, mg_versions = Some (versions_of db @ [v])\<rparr>" by blast
          have "migrate_loop fault run_sql current files n1 db1 = (err, db')"
            using 2(4) Some False con r Inr by simp
          with 2(3) [OF Some False con r [symmetric] Inr]
          obtain k where "apply_all run_sql (take k (pending current files)) db1 = Some db'"
            "err = None \<longrightarrow> k = length (pending current files)" by blast
          with Some False con d show ?thesis
            by (intro exI [where x = "Suc k"]) (simp add: pending_simps)
        qed
      qed
    qed
  qed
qed

lemma apply_all_versions:
  "apply_all run_sql ps db = Some db' \<Longrightarrow> versions_of db' = versions_of db @ map fst ps"
proof (induction ps arbitrary: db)
  case (Cons p ps)
  obtain v content where p: "p = (v, content)" by (cases p)
  from Cons.prems p obtain sql data where "content = Some sql"
    "apply_all run_sql ps \<lparr>mg_data = data, mg_versions = Some (versions_of db @ [v])\<rparr> = Some db'"
    by (auto simp: bind_eq_Some_conv split: option.splits)
  from Cons.IH [OF this(2)] p show ?case by (simp add: versions_of_def)
qed simp

lemma pending_mem:
  "(v, c) \<in> set (pending current files) \<longleftrightarrow>
     current < v \<and> (\<exists>name. (name, c) \<in> set files \<and> scan_version name = Some v)"
  by (induction files) (auto simp: pending_simps split: option.splits if_splits)

lemma current_version_append:
  assumes "\<forall>v \<in> set ws. current_version vs < v" and "v \<in> set vs \<union> set ws \<or> v \<le> current_version vs"
  shows "v \<le> current_version (vs @ ws)"
proof -
  have le: "current_version vs \<le> current_version (vs @ ws)"
  proof (cases "vs = []")
    case True
    show ?thesis
    proof (cases ws)
      case (Cons w ws')
      with assms(1) True have "0 < w" by (simp add: current_version_def)
      moreover have "w \<le> Max (set ws)" using Cons by (intro Max_ge) simp_all
      ultimately have "0 \<le> Max (set ws)" by linarith
      then show ?thesis using True by (simp add: current_version_def)
    qed (simp add: True)
  next
    case False
    then show ?thesis by (simp add: current_version_def Max_mono)
  qed
  have "v \<in> set (vs @ ws) \<Longrightarrow> v \<le> current_version (vs @ ws)"
    by (auto simp: current_version_def)
  with assms(2) le show ?thesis by auto
qed

text \<open>
  C10: Whatever fails (a driver call, the SQL of a file, an unreadable file, a version recorded twice), the database
  is as after applying a prefix of the pending files, in the order of their names, each whole and with
  its version recorded; without an error, all of them.
\<close>

theorem migrate_prefix:
  assumes "runMigrations fault run_sql (Some entries) db = (err, db')"
  shows "\<exists>k d. apply_all run_sql (take k (pending (current_version (versions_of db)) (up_files entries)))
        (db\<lparr>mg_versions := Some (versions_of db)\<rparr>) = Some d
    \<and> mg_data db' = mg_data d \<and> versions_of db' = versions_of d
    \<and> (err = None \<longrightarrow> k = length (pending (current_version (versions_of db)) (up_files entries)))"
proof -
  let ?db = "db\<lparr>mg_versions := Some (versions_of db)\<rparr>"
  have run: "runMigrations fault run_sql (Some entries) db =
     (if fault 0 then (Some CreateTable, db) else if fault 1 then (Some CurrentVersion, ?db)
      else migrate_loop fault run_sql (current_version (versions_of db)) (up_files entries) 2 ?db)"
    by (simp add: runMigrations_def versions_of_def Let_def)
  have none: ?thesis if "err \<noteq> None" "mg_data db' = mg_data db" "versions_of db' = versions_of db"
    using that by (intro exI [where x = 0] exI [where x = ?db]) (auto simp: versions_of_def)
  show ?thesis
  proof (cases "fault 0 \<or> fault 1")
    case True
    with run assms none show ?thesis by (auto simp: versions_of_def split: if_splits)
  next
    case False
    with run assms have "migrate_loop fault run_sql (current_version (versions_of db)) (up_files entries) 2 ?db = (err, db')"
      by simp
    from migrate_loop_prefix [OF this] show ?thesis by blast
  qed
qed

lemma migrate_loop_idle:
  "pending current files = [] \<Longrightarrow> migrate_loop fault run_sql current files n db = (None, db)"
  by (induction files) (auto simp: pending_simps split: option.splits if_splits)

text \<open>
  Migrating is idempotent: after a successful run, a second run with the same directory changes nothing,
  whatever the engine would do and whatever fails.
\<close>

theorem migrate_idempotent:
  assumes "runMigrations fault run_sql (Some entries) db = (None, db')"
  shows "snd (runMigrations fault2 run_sql2 (Some entries) db') = db'"
proof -
  let ?vs = "versions_of db" and ?files = "up_files entries"
  let ?p = "pending (current_version ?vs) ?files"
  from assms have loop: "migrate_loop fault run_sql (current_version ?vs) ?files 2 (db\<lparr>mg_versions := Some ?vs\<rparr>) = (None, db')"
    by (auto simp: runMigrations_def versions_of_def Let_def split: if_splits)
  from migrate_loop_prefix [OF this] have all: "apply_all run_sql ?p (db\<lparr>mg_versions := Some ?vs\<rparr>) = Some db'" by auto
  have some: "apply_all run_sql ps d = Some d' \<Longrightarrow> mg_versions d \<noteq> None \<Longrightarrow> mg_versions d' \<noteq> None" for ps and d d' :: "'a mig_db"
    by (induction ps arbitrary: d) (auto simp: bind_eq_Some_conv split: option.splits)
  from some [OF all] obtain ws where ws: "mg_versions db' = Some ws" by auto
  have vs': "versions_of db' = ?vs @ map fst ?p"
    using apply_all_versions [OF all] by (simp add: versions_of_def)
  have "pending (current_version (versions_of db')) ?files = []"
  proof (rule ccontr)
    assume "pending (current_version (versions_of db')) ?files \<noteq> []"
    then obtain v c where "(v, c) \<in> set (pending (current_version (versions_of db')) ?files)"
      by (metis list.set_intros(1) neq_Nil_conv surj_pair)
    then obtain name where v: "current_version (versions_of db') < v" "(name, c) \<in> set ?files" "scan_version name = Some v"
      by (auto simp: pending_mem)
    have gt: "\<forall>w \<in> set (map fst ?p). current_version ?vs < w" by (auto simp: pending_mem)
    have "v \<in> set ?vs \<union> set (map fst ?p) \<or> v \<le> current_version ?vs"
    proof (cases "v \<le> current_version ?vs")
      case False
      with v have "(v, c) \<in> set ?p" by (auto simp: pending_mem)
      then have "v \<in> set (map fst ?p)" by force
      then show ?thesis by blast
    qed simp
    from current_version_append [OF gt this] v(1) vs' show False by simp
  qed
  then have idle: "migrate_loop fault2 run_sql2 (current_version ws) ?files 2 db' = (None, db')"
    using ws by (intro migrate_loop_idle) (simp add: versions_of_def)
  have upd: "db'\<lparr>mg_versions := Some ws\<rparr> = db'" using ws by (intro mig_db.equality) simp_all
  show ?thesis by (simp add: runMigrations_def Let_def ws upd idle)
qed

section \<open>A run\<close>

definition sample_dir :: "mig_file list" where
  "sample_dir = [(''000002_b.up.sql'', Some ''b''), (''000001_init.down.sql'', Some ''d''),
     (''000001_init.up.sql'', Some ''a''), (''readme.up.sql'', None)]"

definition append_sql :: "string \<Rightarrow> string \<Rightarrow> string option" where
  "append_sql content data = Some (data @ content)"

lemma sample_versions:
  "scan_version ''000001_init.up.sql'' = Some 1" "scan_version ''000002_b.up.sql'' = Some 2"
  "scan_version ''readme.up.sql'' = None"
  by code_simp+

lemma sample_up_files:
  "up_files sample_dir = [(''000001_init.up.sql'', Some ''a''), (''000002_b.up.sql'', Some ''b''), (''readme.up.sql'', None)]"
  by code_simp

lemma sample_run:
  "runMigrations (\<lambda>_. False) append_sql (Some sample_dir) \<lparr>mg_data = '''', mg_versions = None\<rparr>
     = (None, \<lparr>mg_data = ''ab'', mg_versions = Some [1, 2]\<rparr>)"
  by (simp add: runMigrations_def sample_up_files sample_versions current_version_def apply_file_def append_sql_def Let_def)

theorem migrate_prefix_witness:
  "\<exists>k d. apply_all append_sql (take k [(1, Some ''a''), (2, Some ''b'')]) \<lparr>mg_data = '''', mg_versions = Some []\<rparr> = Some d
     \<and> mg_data d = ''ab''"
proof -
  have p: "pending 0 (up_files sample_dir) = [(1, Some ''a''), (2, Some ''b'')]"
    by (simp add: sample_up_files pending_simps sample_versions)
  have f: "versions_of \<lparr>mg_data = '''' :: string, mg_versions = None\<rparr> = []" "current_version [] = 0"
    by (simp_all add: versions_of_def current_version_def)
  from migrate_prefix [OF sample_run, unfolded f p mig_db.update_convs mig_db.select_convs] show ?thesis
    by metis
qed

theorem migrate_idempotent_witness:
  "snd (runMigrations (\<lambda>_. False) append_sql (Some sample_dir) \<lparr>mg_data = ''ab'', mg_versions = Some [1, 2]\<rparr>)
     = \<lparr>mg_data = ''ab'', mg_versions = Some [1, 2]\<rparr>"
  by (rule migrate_idempotent [OF sample_run])

end
