(* ===== verification/Proxy.thy ===== *)
theory Proxy
  imports Plugin_Api Calendar
begin

text \<open>
  The OpenCost proxy, \<open>internal/opencostproxy/proxy.go\<close>, and its stand-in of dev mode, \<open>mock.go\<close>.
  The upstream is the record \<open>upstream\<close>: parsing an address and setting its query, building a request, and
  the answer to one. A header map is an association list with canonical keys. The stand-in draws its numbers
  from \<open>rand\<close>; its arithmetic is that of \<open>Floats\<close>, a multiplication and an addition rounded separately.
\<close>

section \<open>The proxy\<close>

type_synonym header = "(string \<times> string list) list"

definition values_of :: "string \<Rightarrow> header \<Rightarrow> string list" where
  "values_of k h = (case map_of h k of None \<Rightarrow> [] | Some vs \<Rightarrow> vs)"

definition add_header :: "string \<Rightarrow> string \<Rightarrow> header \<Rightarrow> header" where
  "add_header k v h = AList.update k (values_of k h @ [v]) h"

definition set_header :: "string \<Rightarrow> string \<Rightarrow> header \<Rightarrow> header" where
  "set_header k v h = AList.update k [v] h"

record 'b raw_request =
  rr_method :: string
  rr_query :: string
  rr_headers :: header
  rr_body :: 'b

record 'b raw_response =
  rw_status :: nat
  rw_headers :: header
  rw_body :: 'b

record 'b upstream =
  up_target :: "string \<Rightarrow> string \<Rightarrow> string option"
  up_request :: "string \<Rightarrow> string \<Rightarrow> bool"
  up_do :: "string \<Rightarrow> string \<Rightarrow> header \<Rightarrow> 'b \<Rightarrow> nat \<Rightarrow> string + 'b raw_response"
  up_json :: "json \<Rightarrow> 'b"

record proxy =
  px_base :: string
  px_healthy :: bool
  px_mock :: bool

definition NewProxy :: "string \<Rightarrow> proxy" where
  "NewProxy baseURL = \<lparr>px_base = baseURL, px_healthy = False, px_mock = False\<rparr>"

definition NewMock :: proxy where
  "NewMock = \<lparr>px_base = ''http://mock-opencost:9003'', px_healthy = True, px_mock = True\<rparr>"

definition IsHealthy :: "proxy \<Rightarrow> bool" where
  "IsHealthy p = px_healthy p"

text \<open>\<open>writeError\<close>, on top of the headers \<open>h\<close> that the writer has already.\<close>

definition writeError :: "'b upstream \<Rightarrow> header \<Rightarrow> nat \<Rightarrow> string \<Rightarrow> 'b raw_response" where
  "writeError u h code message =
     \<lparr>rw_status = code, rw_headers = set_header ''Content-Type'' ''application/json'' h,
      rw_body = up_json u (JObj [(''error'', JStr message)])\<rparr>"

definition copy_headers :: "header \<Rightarrow> header \<Rightarrow> header" where
  "copy_headers hs h = fold (\<lambda>(k, vs). fold (add_header k) vs) hs h"

definition proxyRequest :: "'b upstream \<Rightarrow> proxy \<Rightarrow> header \<Rightarrow> 'b raw_request \<Rightarrow> nat \<Rightarrow> string \<Rightarrow> 'b raw_response" where
  "proxyRequest u p h rq n path =
     (case up_target u (px_base p @ path) (rr_query rq) of
        None \<Rightarrow> writeError u h 500 ''invalid upstream URL''
      | Some target \<Rightarrow>
          if \<not> up_request u (rr_method rq) target then writeError u h 500 ''failed to create proxy request''
          else
            (case up_do u (rr_method rq) target (rr_headers rq) (rr_body rq) n of
               Inl err \<Rightarrow> writeError u h 502 (''opencost unreachable: '' @ err)
             | Inr resp \<Rightarrow>
                 \<lparr>rw_status = rw_status resp,
                  rw_headers = set_header ''X-Proxied-By'' ''finguard'' (copy_headers (rw_headers resp) h),
                  rw_body = rw_body resp\<rparr>))"

text \<open>The health check: a request that cannot be built or answered is unhealthy; the loop keeps the last result.\<close>

definition checkHealth :: "'b upstream \<Rightarrow> proxy \<Rightarrow> 'b \<Rightarrow> nat \<Rightarrow> bool" where
  "checkHealth u p nobody n =
     (let url = px_base p @ ''/healthz'' in
      up_request u ''GET'' url \<and>
      (case up_do u ''GET'' url [] nobody n of Inl err \<Rightarrow> False | Inr resp \<Rightarrow> rw_status resp = 200))"

fun StartHealthCheck :: "'b upstream \<Rightarrow> 'b \<Rightarrow> nat list \<Rightarrow> proxy \<Rightarrow> proxy" where
  "StartHealthCheck u nobody [] p = p"
| "StartHealthCheck u nobody (n # ns) p =
     StartHealthCheck u nobody ns (p\<lparr>px_healthy := checkHealth u p nobody n\<rparr>)"

lemma map_of_add_header:
  "map_of (add_header k v h) k' = (if k' = k then Some (values_of k h @ [v]) else map_of h k')"
  by (simp add: add_header_def update_conv)

lemma values_add_header: "values_of k' (add_header k v h) = (if k' = k then values_of k h @ [v] else values_of k' h)"
  by (simp add: values_of_def [of k'] map_of_add_header)

lemma values_add_headers: "values_of k' (fold (add_header k) vs h) = (if k' = k then values_of k h @ vs else values_of k' h)"
  by (induction vs arbitrary: h) (simp_all add: values_add_header)

text \<open>Copying adds, for every key, the values of the answer after those that are there.\<close>

lemma values_copy_headers:
  "distinct (map fst hs) \<Longrightarrow> values_of k (copy_headers hs h) = values_of k h @ values_of k hs"
proof (induction hs arbitrary: h)
  case Nil
  then show ?case by (simp add: copy_headers_def values_of_def)
next
  case (Cons kv hs)
  obtain k1 vs where kv: "kv = (k1, vs)" by (cases kv)
  have "values_of k (copy_headers (kv # hs) h) = values_of k (copy_headers hs (fold (add_header k1) vs h))"
    by (simp add: copy_headers_def kv)
  also have "\<dots> = values_of k (fold (add_header k1) vs h) @ values_of k hs" using Cons by (simp add: kv)
  finally have "values_of k (copy_headers (kv # hs) h) = values_of k (fold (add_header k1) vs h) @ values_of k hs" .
  moreover have "map_of hs k1 = None" using Cons.prems by (simp add: kv map_of_eq_None_iff)
  then have "values_of k1 hs = []" by (simp add: values_of_def)
  moreover have "values_of k (kv # hs) = (if k = k1 then vs else values_of k hs)"
    by (simp add: values_of_def kv)
  ultimately show ?case by (simp add: values_add_headers)
qed

text \<open>
  An answer of the upstream is passed on: status, body, and the values of every header, with the one mark
  that it was proxied; without an answer the response is 500 or 502 and a JSON error.
\<close>

lemma proxied:
  assumes "up_target u (px_base p @ path) (rr_query rq) = Some target" and "up_request u (rr_method rq) target"
    and "up_do u (rr_method rq) target (rr_headers rq) (rr_body rq) n = Inr resp" and "distinct (map fst (rw_headers resp))"
  shows "rw_status (proxyRequest u p h rq n path) = rw_status resp" "rw_body (proxyRequest u p h rq n path) = rw_body resp"
    and "values_of ''X-Proxied-By'' (rw_headers (proxyRequest u p h rq n path)) = [''finguard'']"
    and "k \<noteq> ''X-Proxied-By'' \<Longrightarrow>
      values_of k (rw_headers (proxyRequest u p h rq n path)) = values_of k h @ values_of k (rw_headers resp)"
  using assms values_copy_headers [OF assms(4), of k h]
  by (simp_all add: proxyRequest_def set_header_def values_of_def update_conv)

section \<open>Dev mode\<close>

text \<open>\<open>math.Round\<close>, halves away from zero, and \<open>roundTo\<close>; a small power of ten is exact.\<close>

fun Round :: "float64 \<Rightarrow> float64" where
  "Round (Fin r) = Fin (of_int (if 0 \<le> r then \<lfloor>r + 1/2\<rfloor> else - \<lfloor>1/2 - r\<rfloor>))"
| "Round x = x"

definition roundTo :: "float64 \<Rightarrow> nat \<Rightarrow> float64" where
  "roundTo f places = (let shift = Fin (10 ^ places) in fdiv (Round (fmul f shift)) shift)"

text \<open>\<open>roundTo(rand.Float64()*a+b, places)\<close>, the \<open>k\<close>-th number drawn.\<close>

definition draw :: "(nat \<Rightarrow> float64) \<Rightarrow> nat \<Rightarrow> rat \<Rightarrow> rat \<Rightarrow> nat \<Rightarrow> float64" where
  "draw rand k a b places = roundTo (fadd (fmul (rand k) (Fin a)) (rnd b)) places"

text \<open>A number of the answer; \<open>Encode\<close> fails on one that is not finite.\<close>

definition num :: "float64 \<Rightarrow> json" where
  "num x = (case x of Fin r \<Rightarrow> JNum r | _ \<Rightarrow> JNull)"

text \<open>The allocation of one namespace, and the next number to draw.\<close>

definition mock_allocation :: "(nat \<Rightarrow> float64) \<Rightarrow> time \<Rightarrow> time \<Rightarrow> string \<Rightarrow> nat \<Rightarrow> json \<times> nat" where
  "mock_allocation rand start t ns k =
     (let cpuCost = draw rand k 50 5 2;
          ramCost = draw rand (k + 1) 30 3 2;
          gpuCost = (if ns = ''production'' then roundTo (fmul (rand (k + 2)) (Fin 100)) 2 else Fin 0);
          k = (if ns = ''production'' then k + 3 else k + 2);
          totalCost = roundTo (fadd (fadd cpuCost ramCost) gpuCost) 2
      in (JObj [(''name'', JStr ns), (''start'', JStr (format_rfc3339 start)), (''end'', JStr (format_rfc3339 t)),
            (''cpuCost'', num cpuCost), (''ramCost'', num ramCost), (''gpuCost'', num gpuCost), (''totalCost'', num totalCost),
            (''cpuCoreRequestAverage'', num (draw rand k 4 (1/2) 3)),
            (''ramByteRequestAverage'', num (draw rand (k + 1) 4000000000 500000000 0)),
            (''cpuCoreUsageAverage'', num (draw rand (k + 2) 2 (1/10) 3)),
            (''ramByteUsageAverage'', num (draw rand (k + 3) 2000000000 100000000 0))],
          k + 4))"

fun mock_allocations :: "(nat \<Rightarrow> float64) \<Rightarrow> time \<Rightarrow> time \<Rightarrow> string list \<Rightarrow> nat \<Rightarrow> (string \<times> json) list" where
  "mock_allocations rand start t [] k = []"
| "mock_allocations rand start t (ns # nss) k =
     (let (a, k) = mock_allocation rand start t ns k in (ns, a) # mock_allocations rand start t nss k)"

definition mock_answer :: "json \<Rightarrow> json" where
  "mock_answer data = JObj [(''code'', JNum 200), (''data'', data)]"

definition handleAllocation :: "(nat \<Rightarrow> float64) \<Rightarrow> time \<Rightarrow> json" where
  "handleAllocation rand t =
     mock_answer (JArr [JObj (mock_allocations rand (t - 24 * hour) t
       [''default'', ''kube-system'', ''monitoring'', ''production'', ''staging''] 0)])"

definition mock_node :: "time \<Rightarrow> time \<Rightarrow> string \<Rightarrow> string \<Rightarrow> float64 \<Rightarrow> float64 \<Rightarrow> float64 \<Rightarrow> string \<Rightarrow> json" where
  "mock_node start t name nodeType cpu ram cost providerID =
     JObj [(''type'', JStr ''Node''), (''name'', JStr name), (''start'', JStr (format_rfc3339 start)),
       (''end'', JStr (format_rfc3339 t)), (''nodeType'', JStr nodeType), (''cpuCost'', num cpu), (''ramCost'', num ram),
       (''totalCost'', num cost), (''provider'', JStr ''AWS''), (''providerID'', JStr providerID)]"

definition handleAssets :: "(nat \<Rightarrow> float64) \<Rightarrow> time \<Rightarrow> json" where
  "handleAssets rand t =
     mock_answer (JArr [JArr
       [mock_node (t - 24 * hour) t ''ip-10-0-1-101.ec2.internal'' ''m5.xlarge''
          (draw rand 0 20 10 2) (draw rand 1 10 5 2) (draw rand 2 35 15 2) ''i-0abc123def456'',
        mock_node (t - 24 * hour) t ''ip-10-0-2-202.ec2.internal'' ''m5.2xlarge''
          (draw rand 3 40 20 2) (draw rand 4 20 10 2) (draw rand 5 70 30 2) ''i-0def789abc012'']])"

definition mock_service :: "string \<times> string \<times> string \<times> float64 \<Rightarrow> string \<times> json" where
  "mock_service svc =
     (case svc of (provider, service, account, cost) \<Rightarrow>
        (provider @ ''/'' @ account @ ''/'' @ service,
         JObj [(''properties'', JObj [(''provider'', JStr provider), (''accountID'', JStr account), (''service'', JStr service),
                 (''category'', JStr ''Compute''), (''invoiceEntityID'', JStr account)]),
               (''listCost'', JObj [(''cost'', num cost)]),
               (''netCost'', JObj [(''cost'', num (roundTo (fmul cost (rnd (9/10))) 2))]),
               (''amortizedCost'', JObj [(''cost'', num (roundTo (fmul cost (rnd (85/100))) 2))]),
               (''invoicedCost'', JObj [(''cost'', num (roundTo (fmul cost (rnd (88/100))) 2))])]))"

definition handleCloudCost :: "(nat \<Rightarrow> float64) \<Rightarrow> time \<Rightarrow> json" where
  "handleCloudCost rand t =
     (let services =
        [(''AWS'', ''AmazonEC2'', ''123456789012'', draw rand 0 500 100 2),
         (''AWS'', ''AmazonS3'', ''123456789012'', draw rand 1 50 10 2),
         (''AWS'', ''AmazonRDS'', ''123456789012'', draw rand 2 200 50 2),
         (''AWS'', ''AmazonEKS'', ''123456789012'', draw rand 3 100 20 2),
         (''Azure'', ''Virtual Machines'', ''sub-abc-123'', draw rand 4 300 80 2),
         (''Azure'', ''Storage'', ''sub-abc-123'', draw rand 5 40 8 2),
         (''GCP'', ''Compute Engine'', ''my-gcp-project'', draw rand 6 250 60 2),
         (''GCP'', ''Cloud Storage'', ''my-gcp-project'', draw rand 7 30 5 2)]
      in mock_answer (JObj [(''sets'', JArr [JObj [(''cloudCosts'',
           JObj [(format_rfc3339 (t - 24 * hour), JObj (map mock_service services))])]])]))"

definition handleCustomCost :: json where
  "handleCustomCost = mock_answer (JObj [(''sets'', JArr [])])"

text \<open>\<open>mockWriteJSON\<close> and the four routes.\<close>

definition mockWriteJSON :: "'b upstream \<Rightarrow> header \<Rightarrow> nat \<Rightarrow> json \<Rightarrow> 'b raw_response" where
  "mockWriteJSON u h code v =
     \<lparr>rw_status = code, rw_headers = set_header ''Content-Type'' ''application/json'' h, rw_body = up_json u v\<rparr>"

datatype proxied_path = AllocationPath | AssetsPath | CloudCostPath | CustomCostPath

fun mock_json :: "(nat \<Rightarrow> float64) \<Rightarrow> time \<Rightarrow> proxied_path \<Rightarrow> json" where
  "mock_json rand t AllocationPath = handleAllocation rand t"
| "mock_json rand t AssetsPath = handleAssets rand t"
| "mock_json rand t CloudCostPath = handleCloudCost rand t"
| "mock_json rand t CustomCostPath = handleCustomCost"

fun upstream_path :: "proxied_path \<Rightarrow> string" where
  "upstream_path AllocationPath = ''/allocation''"
| "upstream_path AssetsPath = ''/assets''"
| "upstream_path CloudCostPath = ''/cloudCost''"
| "upstream_path CustomCostPath = ''/customCost/total''"

definition ProxyRoute ::
  "'b upstream \<Rightarrow> (nat \<Rightarrow> float64) \<Rightarrow> time \<Rightarrow> proxy \<Rightarrow> header \<Rightarrow> 'b raw_request \<Rightarrow> nat \<Rightarrow> proxied_path \<Rightarrow> 'b raw_response" where
  "ProxyRoute u rand t p h rq n path =
     (if px_mock p then mockWriteJSON u h 200 (mock_json rand t path)
      else proxyRequest u p h rq n (upstream_path path))"

end
