(* ===== verification/Cluster_Cache.thy ===== *)
theory Cluster_Cache
  imports Server_Laws
begin

text \<open>
  The cluster cache, \<open>internal/clustercache/cache.go\<close>: three stores that informers of the Kubernetes client
  library fill, the flag that says the cache is ready, and the getters the server reads. The library is the
  record \<open>informers\<close>: the store an informer starts with, the objects in a store, and the look-up by key.

  Lemmas: a ready cache has all its stores, whenever its goroutine is looked at; and it is ready before an
  informer has listed anything.
\<close>

section \<open>The library\<close>

text \<open>What a store holds is an \<open>interface{}\<close>; the getters keep what has the type they want.\<close>

datatype kube_object = NamespaceObject k8s_namespace | NodeObject k8s_node | PodObject | OtherObject

record 'st informers =
  in_new :: "string \<Rightarrow> 'st"
  in_list :: "'st \<Rightarrow> kube_object list"
  in_get :: "'st \<Rightarrow> string \<Rightarrow> string + kube_object option"

fun as_namespace :: "kube_object \<Rightarrow> k8s_namespace option" where
  "as_namespace (NamespaceObject n) = Some n"
| "as_namespace _ = None"

fun as_node :: "kube_object \<Rightarrow> k8s_node option" where
  "as_node (NodeObject n) = Some n"
| "as_node _ = None"

fun as_pod :: "kube_object \<Rightarrow> unit option" where
  "as_pod PodObject = Some ()"
| "as_pod _ = None"

section \<open>The cache\<close>

record 'st cluster_cache =
  cc_namespaces :: "'st option"
  cc_nodes :: "'st option"
  cc_pods :: "'st option"
  cc_ready :: bool
  cc_stopped :: bool

definition NewWithClientset :: "'st cluster_cache" where
  "NewWithClientset = \<lparr>cc_namespaces = None, cc_nodes = None, cc_pods = None, cc_ready = False, cc_stopped = False\<rparr>"

text \<open>\<open>New\<close>: the configuration of the cluster, or else the one in the home directory, and a client for it.\<close>

definition NewCache :: "string + 'cfg \<Rightarrow> string + 'cfg \<Rightarrow> ('cfg \<Rightarrow> string option) \<Rightarrow> string + 'st cluster_cache" where
  "NewCache in_cluster home client =
     (case (case in_cluster of Inr c \<Rightarrow> Inr c | Inl _ \<Rightarrow> home) of
        Inl err \<Rightarrow> Inl (''failed to build k8s config: '' @ err)
      | Inr c \<Rightarrow>
          (case client c of
             Some err \<Rightarrow> Inl (''failed to create k8s clientset: '' @ err)
           | None \<Rightarrow> Inr NewWithClientset))"

text \<open>
  \<open>Start\<close> runs in a goroutine of its own: its assignments, one by one. Each informer runs from its assignment
  on, in another goroutine; nothing waits for it.
\<close>

definition watchResource :: "'st informers \<Rightarrow> string \<Rightarrow> 'st option" where
  "watchResource lib name = Some (in_new lib name)"

definition start_steps :: "'st informers \<Rightarrow> ('st cluster_cache \<Rightarrow> 'st cluster_cache) list" where
  "start_steps lib =
     [\<lambda>c. c\<lparr>cc_namespaces := watchResource lib ''namespaces''\<rparr>, \<lambda>c. c\<lparr>cc_nodes := watchResource lib ''nodes''\<rparr>,
      \<lambda>c. c\<lparr>cc_pods := watchResource lib ''pods''\<rparr>, \<lambda>c. c\<lparr>cc_ready := True\<rparr>]"

definition StartCache :: "'st informers \<Rightarrow> 'st cluster_cache \<Rightarrow> 'st cluster_cache" where
  "StartCache lib = fold id (start_steps lib)"

text \<open>\<open>Stop\<close> closes a channel that nothing reads; a second call panics.\<close>

definition StopCache :: "'st cluster_cache \<Rightarrow> 'st cluster_cache option" where
  "StopCache c = (if cc_stopped c then None else Some (c\<lparr>cc_stopped := True\<rparr>))"

definition IsReady :: "'st cluster_cache \<Rightarrow> bool" where
  "IsReady c = cc_ready c"

section \<open>The getters\<close>

definition items :: "'st informers \<Rightarrow> (kube_object \<Rightarrow> 'a option) \<Rightarrow> 'st option \<Rightarrow> 'a list" where
  "items lib want st = (case st of None \<Rightarrow> [] | Some st \<Rightarrow> List.map_filter want (in_list lib st))"

definition GetNamespaces :: "'st informers \<Rightarrow> 'st cluster_cache \<Rightarrow> k8s_namespace list" where
  "GetNamespaces lib c = items lib as_namespace (cc_namespaces c)"

definition GetNodes :: "'st informers \<Rightarrow> 'st cluster_cache \<Rightarrow> k8s_node list" where
  "GetNodes lib c = items lib as_node (cc_nodes c)"

definition GetPods :: "'st informers \<Rightarrow> 'st cluster_cache \<Rightarrow> unit list" where
  "GetPods lib c = items lib as_pod (cc_pods c)"

definition GetNamespace :: "'st informers \<Rightarrow> 'st cluster_cache \<Rightarrow> string \<Rightarrow> k8s_namespace option" where
  "GetNamespace lib c name =
     (case cc_namespaces c of
        None \<Rightarrow> None
      | Some st \<Rightarrow> (case in_get lib st name of Inr (Some x) \<Rightarrow> as_namespace x | _ \<Rightarrow> None))"

text \<open>What the handlers of the server see of the cache.\<close>

definition cache_view :: "'st informers \<Rightarrow> 'st cluster_cache \<Rightarrow> k8s_cache" where
  "cache_view lib c = \<lparr>kc_ready = IsReady c, kc_namespaces = GetNamespaces lib c, kc_nodes = GetNodes lib c,
     kc_pods = length (GetPods lib c)\<rparr>"

section \<open>Invariant\<close>

definition cache_inv :: "'st cluster_cache \<Rightarrow> bool" where
  "cache_inv c \<longleftrightarrow> (cc_ready c \<longrightarrow> cc_namespaces c \<noteq> None \<and> cc_nodes c \<noteq> None \<and> cc_pods c \<noteq> None)"

lemma cache_inv_new: "cache_inv NewWithClientset"
  by (simp add: cache_inv_def NewWithClientset_def)

lemma cache_inv_started: "cache_inv (StartCache lib c)"
  by (simp add: cache_inv_def StartCache_def start_steps_def watchResource_def)

text \<open>Any prefix of \<open>Start\<close>: the goroutine may be stopped between any two assignments.\<close>

lemma cache_inv_starting: "cache_inv (fold id (take n (start_steps lib)) NewWithClientset)"
proof -
  have "n = 0 \<or> n = 1 \<or> n = 2 \<or> n = 3 \<or> 4 \<le> n" by arith
  then show ?thesis
    by (auto simp: cache_inv_def start_steps_def NewWithClientset_def watchResource_def numeral_2_eq_2 numeral_3_eq_3
        eval_nat_numeral)
qed

text \<open>The look-up by name finds what the list has, when the library's look-up does.\<close>

lemma GetNamespace_listed:
  assumes "\<And>st k x. in_get lib st k = Inr (Some x) \<Longrightarrow> x \<in> set (in_list lib st)" and "GetNamespace lib c name = Some ns"
  shows "ns \<in> set (GetNamespaces lib c)"
proof -
  obtain st x where st: "cc_namespaces c = Some st" "in_get lib st name = Inr (Some x)" "as_namespace x = Some ns"
    using assms(2) by (auto simp: GetNamespace_def split: option.splits sum.splits)
  have "x \<in> set (in_list lib st)" using st(2) by (rule assms(1))
  with st(3) have "ns \<in> set (List.map_filter as_namespace (in_list lib st))"
    by (auto simp: List.map_filter_def image_iff intro!: bexI [where x = x])
  with st(1) show ?thesis by (simp add: GetNamespaces_def items_def)
qed

text \<open>
  C34: The cache says it is ready when its informers have been started, before they have listed anything: with stores
  that start empty, the readiness probe right after \<open>Start\<close> answers 200, while the cluster has no namespaces and
  no nodes according to the API.
\<close>

theorem ready_before_listed:
  assumes "\<And>name. in_list lib (in_new lib name) = []" and "sv_cache s = Some (cache_view lib (StartCache lib c))"
  shows "fst (handleReadyz s rq w) = writeJSON StatusOK (JObj [(''status'', JStr ''ready'')])
    \<and> fst (handleNamespaces s rq w) = writeJSON StatusOK (JArr [])
    \<and> fst (handleNodes s rq w) = writeJSON StatusOK (JArr [])"
proof -
  have "cache_view lib (StartCache lib c) = \<lparr>kc_ready = True, kc_namespaces = [], kc_nodes = [], kc_pods = 0\<rparr>"
    using assms(1) by (simp add: cache_view_def StartCache_def start_steps_def watchResource_def IsReady_def
        GetNamespaces_def GetNodes_def GetPods_def items_def List.map_filter_simps)
  with assms(2) show ?thesis by (simp add: handleReadyz_def handleNamespaces_def handleNodes_def)
qed

definition list_informers :: "kube_object list informers" where
  "list_informers = \<lparr>in_new = (\<lambda>_. []), in_list = (\<lambda>st. st), in_get = (\<lambda>st k. Inr (find (\<lambda>x. x = NamespaceObject \<lparr>ns_name = k, ns_labels = None, ns_annotations = None\<rparr>) st))\<rparr>"

definition cache_server :: "string server" where
  "cache_server = sample_server\<lparr>sv_cache := Some (cache_view list_informers (StartCache list_informers NewWithClientset))\<rparr>"

theorem ready_before_listed_witness:
  "fst (handleNamespaces cache_server create_request init_world) = writeJSON StatusOK (JArr [])"
proof -
  have new: "\<And>name. in_list list_informers (in_new list_informers name) = []" by (simp add: list_informers_def)
  have view: "sv_cache cache_server = Some (cache_view list_informers (StartCache list_informers NewWithClientset))"
    by (simp add: cache_server_def)
  from ready_before_listed [OF new view, of create_request init_world] show ?thesis by simp
qed

end
