(* ===== verification/Program.thy ===== *)
theory Program
  imports Overlap Boot Pipeline Migrate Proxy Cluster_Cache Rebind
begin

text \<open>
  The program as a whole: what \<open>main\<close> of \<open>cmd/finguard/main.go\<close> builds, which route of
  \<open>internal/server/server.go\<close> leads to which component, and a step relation in which requests, the workers of the
  scheduler, the poll loops and bridges of the plugins, the health check, the informers, the streams and the
  shutdown interleave. A step is one request, one call of a handler to the store, one poll round, one publication or
  registration, or one step of a worker; a subscription is two steps, between which a publication that reads the
  client's topics is a data race. \<open>Hub\<close>, \<open>Stream\<close> and \<open>Pipeline\<close> look inside a publication and a poll round.
\<close>

section \<open>Opening the database\<close>

text \<open>The driver of \<open>database/sql\<close>: opening, the ping, and a statement; each may fail with a text.\<close>

record db_driver =
  dd_open :: "string \<Rightarrow> string \<Rightarrow> string option"
  dd_ping :: "string option"
  dd_exec :: "string \<Rightarrow> string option"

text \<open>\<open>New\<close> of \<open>internal/store/sql.go\<close>, with the name of the driver as its result.\<close>

definition NewStore :: "db_driver \<Rightarrow> string \<Rightarrow> string + string" where
  "NewStore d dsn =
     (let (driver, connStr) = parseDSN dsn in
      case dd_open d driver connStr of
        Some err \<Rightarrow> Inl (''open database: '' @ err)
      | None \<Rightarrow>
          (case dd_ping d of
             Some err \<Rightarrow> Inl (''ping database: '' @ err)
           | None \<Rightarrow>
               if driver \<noteq> ''sqlite'' then Inr driver
               else
                 (case dd_exec d ''PRAGMA journal_mode=WAL'' of
                    Some err \<Rightarrow> Inl (''set WAL journal mode: '' @ err)
                  | None \<Rightarrow>
                      (case dd_exec d ''PRAGMA foreign_keys=ON'' of
                         Some err \<Rightarrow> Inl (''enable foreign keys: '' @ err)
                       | None \<Rightarrow> Inr driver))))"

section \<open>The state\<close>

text \<open>What stays the same while the program runs: the database driver, the clock, the collectors' and plugins'
  HTTP clients, the OpenCost service, the informers, the embedded files (which exist, and what the file server
  answers for one), and the handler of the API documentation.\<close>

record ('b, 'c, 'st, 'm) wiring =
  wr_env :: env
  wr_marshal :: "event \<Rightarrow> 'm option"
  wr_collect :: "'c collect_env"
  wr_plugins :: "'b plugin_env"
  wr_upstream :: "'b upstream"
  wr_nobody :: 'b
  wr_rand :: "nat \<Rightarrow> float64"
  wr_informers :: "'st informers"
  wr_time :: "time \<Rightarrow> string"
  wr_frontend :: "(string \<Rightarrow> bool) option"
  wr_file :: "string \<Rightarrow> response"
  wr_swagger :: "string list \<Rightarrow> response"

datatype scheduler_loop = NotStarted | Looping | Stopped

text \<open>
  \<open>pg_bridge\<close>: the event a plugin's bridge has received and not yet published; \<open>pg_caching\<close>: how many assignments
  of the cache's \<open>Start\<close> have been made; \<open>pg_subscribing\<close>: the clients whose topics are being written, with the
  topics; \<open>pg_raced\<close>: a publication has read a topics map while it was written, at which Go may stop the program.
\<close>

record ('m, 'st, 't) program =
  pg_world :: world
  pg_hub :: "'m hub"
  pg_auth :: "'t manager"
  pg_plugins :: "shipped plugins"
  pg_bridge :: "string \<Rightarrow> plugin_event option"
  pg_proxy :: proxy
  pg_cache :: "'st cluster_cache option"
  pg_caching :: nat
  pg_scheduler :: scheduler_loop
  pg_workers :: "worker list"
  pg_signal :: bool
  pg_shut :: bool
  pg_panicked :: bool
  pg_subscribing :: "(nat \<times> string list) list"
  pg_raced :: bool

section \<open>Start-up\<close>

text \<open>What \<open>main\<close> finds when it starts. \<open>ho_tables\<close> reads the tables off the migrated database.\<close>

record ('d, 'cfg, 't) host =
  ho_environ :: environment
  ho_driver :: db_driver
  ho_fault :: "nat \<Rightarrow> bool"
  ho_run_sql :: "string \<Rightarrow> 'd \<Rightarrow> 'd option"
  ho_migrations :: "mig_file list option"
  ho_db :: "'d mig_db"
  ho_tables :: "'d mig_db \<Rightarrow> tables"
  ho_in_cluster :: "string + 'cfg"
  ho_home :: "string + 'cfg"
  ho_client :: "'cfg \<Rightarrow> string option"
  ho_discover :: "config \<Rightarrow> string + 't idp"
  ho_nil :: "'t idp"

text \<open>\<open>main\<close> up to the server; an error is the message with which it exits.\<close>

definition start_up :: "('d, 'cfg, 't) host \<Rightarrow> ('b, 'c, 'st, 'm) wiring \<Rightarrow> string + ('m, 'st, 't) program" where
  "start_up ho wr =
     (let cfg = Load (ho_environ ho) in
      case NewStore (ho_driver ho) (cf_DatabaseDSN cfg) of
        Inl err \<Rightarrow> Inl ''failed to open database''
      | Inr driver \<Rightarrow>
          (case runMigrations (ho_fault ho) (ho_run_sql ho) (ho_migrations ho) (ho_db ho) of
             (Some err, db) \<Rightarrow> Inl ''failed to run database migrations''
           | (None, db) \<Rightarrow>
               (case NewManager (ho_discover ho) (ho_nil ho) cfg of
                  Inl err \<Rightarrow> Inl ''failed to initialize auth manager''
                | Inr am \<Rightarrow>
                    Inr \<lparr>pg_world = \<lparr>w_db = ho_tables ho db, w_calls = 0, w_ticks = 0, w_ids = 0\<rparr>,
                         pg_hub = NewHub, pg_auth = am,
                         pg_plugins = boot_plugins (wr_plugins wr) 0 (cf_OpenCostURL cfg),
                         pg_bridge = (\<lambda>_. None),
                         pg_proxy = (if cf_DevMode cfg then NewMock else NewProxy (cf_OpenCostURL cfg)),
                         pg_cache = (case NewCache (ho_in_cluster ho) (ho_home ho) (ho_client ho) of
                           Inl err \<Rightarrow> None | Inr c \<Rightarrow> Some c),
                         pg_caching = 0, pg_scheduler = NotStarted, pg_workers = [],
                         pg_signal = False, pg_shut = False, pg_panicked = False,
                         pg_subscribing = [], pg_raced = False\<rparr>)))"

section \<open>Requests\<close>

text \<open>
  A request as the components see it: its method, path, what the handlers read, and what the proxy passes on;
  with the number of requests to OpenCost before it, the time, and whether a web socket handshake succeeds.
\<close>

record 'b http_call =
  hc_method :: string
  hc_path :: "string list"
  hc_request :: request
  hc_raw :: "'b raw_request"
  hc_number :: nat
  hc_time :: time
  hc_accepted :: bool

datatype 'b reply =
    JsonReply response
  | PluginReply "'b plugin_answer"
  | ProxyReply "'b raw_response"
  | StreamReply nat
  | NoUpgrade

definition join_path :: "string list \<Rightarrow> string" where
  "join_path segments = concat (map (\<lambda>s. CHR ''/'' # s) segments)"

text \<open>
  The routes outside the API: the API documentation, and the files of the frontend, where a path that is no file
  gets the index page. Both are for GET; another method is answered 405 where a route for GET exists.
\<close>

definition frontend_path :: "(string \<Rightarrow> bool) \<Rightarrow> string \<Rightarrow> string" where
  "frontend_path exists path = (if exists (tl path) then path else ''/'')"

definition static_reply :: "('b, 'c, 'st, 'm) wiring \<Rightarrow> string \<Rightarrow> string list \<Rightarrow> response" where
  "static_reply wr mt path =
     (let swagger = (length path > 1 \<and> hd path = ''swagger'');
          page = (length path = 1 \<and> hd path \<in> {''healthz'', ''readyz'', ''login'', ''callback'', ''logout''})
      in if mt \<noteq> ''GET'' then
           (if swagger \<or> page \<or> wr_frontend wr \<noteq> None then not_found\<lparr>rs_status := 405\<rparr> else not_found)
         else if swagger then wr_swagger wr path
         else
           (case wr_frontend wr of
              None \<Rightarrow> not_found
            | Some exists \<Rightarrow> wr_file wr (frontend_path exists (if path = [] then ''/'' else join_path path))))"

text \<open>The server of \<open>New\<close> at this moment, for a request with method \<open>mt\<close>.\<close>

definition live_server :: "('b, 'c, 'st, 'm) wiring \<Rightarrow> string \<Rightarrow> ('m, 'st, 't) program \<Rightarrow> 't server" where
  "live_server wr mt p =
     \<lparr>sv_auth = Some (pg_auth p), sv_env = wr_env wr, sv_time = wr_time wr,
      sv_cache = map_option (cache_view (wr_informers wr)) (pg_cache p),
      sv_proxy_healthy = Some (IsHealthy (pg_proxy p)), sv_other = (\<lambda>path rq. static_reply wr mt path)\<rparr>"

text \<open>What the middleware of the \<open>/api/v1\<close> group does before any of its handlers.\<close>

definition admit :: "'t server \<Rightarrow> guard" where
  "admit s =
     (case sv_auth s of
        None \<Rightarrow> (\<lambda>rq w. (Inr rq, w))
      | Some m \<Rightarrow> if IsDisabled m then (\<lambda>rq w. (Inr rq, w)) else Middleware m (sv_env s))"

text \<open>The mounted routes of the plugins: 404 for an unknown path, 405 for another method.\<close>

definition plugin_reply ::
  "'b plugin_env \<Rightarrow> nat \<Rightarrow> string \<Rightarrow> string list \<Rightarrow> (string \<times> string) list \<Rightarrow> shipped plugins \<Rightarrow> 'b reply" where
  "plugin_reply e n mt path query m =
     (let here = filter (\<lambda>(mt', full, name, action). full = join_path path) (MountRoutes m) in
      case find (\<lambda>(mt', full, name, action). mt' = mt) here of
        None \<Rightarrow> JsonReply (if here = [] then not_found else not_found\<lparr>rs_status := 405\<rparr>)
      | Some (mt', full, name, action) \<Rightarrow>
          (case map_of m name of
             None \<Rightarrow> JsonReply not_found
           | Some rp \<Rightarrow> PluginReply (makePluginHandler (shipped_ops e n) (rg_instance rp) action query)))"

fun proxied_of :: "string \<Rightarrow> proxied_path option" where
  "proxied_of x =
     (if x = ''allocation'' then Some AllocationPath
      else if x = ''assets'' then Some AssetsPath
      else if x = ''cloudcost'' then Some CloudCostPath
      else if x = ''customcost'' then Some CustomCostPath
      else None)"

text \<open>The routes under \<open>/api/v1\<close> that lead to the hub, the plugins and the proxy.\<close>

definition api_other ::
  "('b, 'c, 'st, 'm) wiring \<Rightarrow> 'b http_call \<Rightarrow> string list \<Rightarrow> request \<Rightarrow> ('m, 'st, 't) program
     \<Rightarrow> 'b reply \<times> ('m, 'st, 't) program"
where
  "api_other wr c path rq p =
     (case path of
        [x] \<Rightarrow>
          if x = ''stream'' then
            if hc_accepted c then let (i, h) = Register (pg_hub p) in (StreamReply i, p\<lparr>pg_hub := h\<rparr>)
            else (NoUpgrade, p)
          else if x = ''plugins'' then (JsonReply (handleListPlugins (Some (pg_plugins p))), p)
          else
            (case proxied_of x of
               Some pp \<Rightarrow>
                 (ProxyReply (ProxyRoute (wr_upstream wr) (wr_rand wr) (hc_time c) (pg_proxy p) [] (hc_raw c)
                    (hc_number c) pp), p)
             | None \<Rightarrow> (JsonReply not_found, p))
      | _ \<Rightarrow> (plugin_reply (wr_plugins wr) (hc_number c) (hc_method c) path (rq_query rq) (pg_plugins p), p))"

fun other_path :: "string \<Rightarrow> string list \<Rightarrow> string list option" where
  "other_path mt (a # b # rest) =
     (if a = ''api'' \<and> b = ''v1''
      then case api_route mt rest of Some (EpOther other) \<Rightarrow> Some other | _ \<Rightarrow> None
      else None)"
| "other_path mt _ = None"

definition respond ::
  "('b, 'c, 'st, 'm) wiring \<Rightarrow> 'b http_call \<Rightarrow> ('m, 'st, 't) program \<Rightarrow> 'b reply \<times> ('m, 'st, 't) program" where
  "respond wr c p =
     (let s = live_server wr (hc_method c) p in
      case other_path (hc_method c) (hc_path c) of
        Some other \<Rightarrow>
          (case admit s (hc_request c) (pg_world p) of
             (Inl rs, w) \<Rightarrow> (JsonReply rs, p\<lparr>pg_world := w\<rparr>)
           | (Inr rq, w) \<Rightarrow> api_other wr c other rq (p\<lparr>pg_world := w\<rparr>))
      | None \<Rightarrow>
          let (rs, w) = serve s (hc_method c) (hc_path c) (hc_request c) (pg_world p)
          in (JsonReply rs, p\<lparr>pg_world := w\<rparr>))"

section \<open>Steps\<close>

text \<open>A plugin's bridge takes the first event of its channel.\<close>

definition pop :: "'a channel \<Rightarrow> 'a channel" where
  "pop c = c\<lparr>ch_queue := tl (ch_queue c)\<rparr>"

fun shipped_pop :: "shipped \<Rightarrow> shipped" where
  "shipped_pop (BudgetsPlugin b) = BudgetsPlugin (b\<lparr>bp_events := pop (bp_events b)\<rparr>)"
| "shipped_pop (BreakdownPlugin b) = BreakdownPlugin (b\<lparr>cb_events := pop (cb_events b)\<rparr>)"

definition set_instance :: "string \<Rightarrow> 'p registered \<Rightarrow> 'p \<Rightarrow> 'p plugins \<Rightarrow> 'p plugins" where
  "set_instance name rp q m = AList.update name (rp\<lparr>rg_instance := q\<rparr>) m"

text \<open>The part of the state that the workers of the scheduler act on.\<close>

definition pass_of :: "('m, 'st, 't) program \<Rightarrow> 'm pass" where
  "pass_of p = \<lparr>ps_world = pg_world p, ps_hub = Some (pg_hub p)\<rparr>"

definition with_pass :: "'m pass \<Rightarrow> ('m, 'st, 't) program \<Rightarrow> ('m, 'st, 't) program" where
  "with_pass s p = p\<lparr>pg_world := ps_world s, pg_hub := (case ps_hub s of None \<Rightarrow> pg_hub p | Some h \<Rightarrow> h)\<rparr>"

text \<open>Informers change the contents of the stores that there are, and nothing else.\<close>

definition refilled :: "'st cluster_cache \<Rightarrow> 'st cluster_cache \<Rightarrow> bool" where
  "refilled c c' \<longleftrightarrow> cc_ready c' = cc_ready c \<and> cc_stopped c' = cc_stopped c
     \<and> (cc_namespaces c' = None \<longleftrightarrow> cc_namespaces c = None) \<and> (cc_nodes c' = None \<longleftrightarrow> cc_nodes c = None)
     \<and> (cc_pods c' = None \<longleftrightarrow> cc_pods c = None)"

text \<open>Somebody is about to publish, or at it: a bridge with an event, or a worker that announces a collection.\<close>

fun announces :: "worker \<Rightarrow> bool" where
  "announces (Announcing ty src payload plan) = True"
| "announces _ = False"

definition publishing :: "('m, 'st, 't) program \<Rightarrow> bool" where
  "publishing p \<longleftrightarrow> list_ex (\<lambda>(name, rp). pg_bridge p name \<noteq> None) (pg_plugins p) \<or> list_ex announces (pg_workers p)"

text \<open>
  \<open>handler_call\<close>: handlers that overlap make their calls to the store one by one, so any single call may come next.
  No handler gives a project the identifier \<open>_global\<close>: all leave it to be generated.
\<close>

inductive program_step :: "('b, 'c, 'st, 'm) wiring \<Rightarrow> ('m, 'st, 't) program \<Rightarrow> ('m, 'st, 't) program \<Rightarrow> bool"
  for wr where
  request: "respond wr c p = (r, p') \<Longrightarrow> program_step wr p p'"
| handler_call: "global_free op \<Longrightarrow> program_step wr p (p\<lparr>pg_world := store_step (wr_env wr) op (pg_world p)\<rparr>)"
| scheduler_start: "pg_scheduler p = NotStarted \<Longrightarrow>
    program_step wr p (p\<lparr>pg_scheduler := Looping, pg_workers := pg_workers p @ [Starting (tick_wants InitialRun)]\<rparr>)"
| scheduler_tick: "pg_scheduler p = Looping \<Longrightarrow> t \<noteq> InitialRun \<Longrightarrow>
    program_step wr p (p\<lparr>pg_workers := pg_workers p @ [Starting (tick_wants t)]\<rparr>)"
| scheduler_stop: "pg_scheduler p = Looping \<Longrightarrow> pg_signal p \<Longrightarrow> program_step wr p (p\<lparr>pg_scheduler := Stopped\<rparr>)"
| worker: "i < length (pg_workers p) \<Longrightarrow>
    work (main_registry (wr_collect wr)) (wr_env wr) (wr_marshal wr) (pg_workers p ! i) (pass_of p) = (a, s) \<Longrightarrow>
    program_step wr p (with_pass s (p\<lparr>pg_workers := (pg_workers p)[i := a]\<rparr>))"
| poll: "map_of (pg_plugins p) name = Some rp \<Longrightarrow> shipped_poll (wr_plugins wr) n k (rg_instance rp) = Some q \<Longrightarrow>
    program_step wr p (p\<lparr>pg_plugins := set_instance name rp q (pg_plugins p)\<rparr>)"
| poll_panic: "map_of (pg_plugins p) name = Some rp \<Longrightarrow> shipped_poll (wr_plugins wr) n k (rg_instance rp) = None \<Longrightarrow>
    program_step wr p (p\<lparr>pg_panicked := True\<rparr>)"
| bridge_receive: "map_of (pg_plugins p) name = Some rp \<Longrightarrow> pg_bridge p name = None \<Longrightarrow> rg_cancel rp \<noteq> None \<Longrightarrow>
    ch_queue (shipped_channel (rg_instance rp)) = x # q \<Longrightarrow>
    program_step wr p (p\<lparr>pg_plugins := set_instance name rp (shipped_pop (rg_instance rp)) (pg_plugins p),
      pg_bridge := (pg_bridge p)(name := Some x)\<rparr>)"
| bridge_publish: "pg_bridge p name = Some x \<Longrightarrow> Publish (wr_marshal wr) (bridge_event x) (pg_hub p) = Some h \<Longrightarrow>
    program_step wr p (p\<lparr>pg_bridge := (pg_bridge p)(name := None), pg_hub := h\<rparr>)"
| bridge_panic: "pg_bridge p name = Some x \<Longrightarrow> Publish (wr_marshal wr) (bridge_event x) (pg_hub p) = None \<Longrightarrow>
    program_step wr p (p\<lparr>pg_panicked := True\<rparr>)"
| health: "\<not> px_mock (pg_proxy p) \<Longrightarrow>
    program_step wr p (p\<lparr>pg_proxy := StartHealthCheck (wr_upstream wr) (wr_nobody wr) [n] (pg_proxy p)\<rparr>)"
| cache_start: "pg_cache p = Some c \<Longrightarrow> pg_caching p < length (start_steps (wr_informers wr)) \<Longrightarrow>
    program_step wr p (p\<lparr>pg_cache := Some ((start_steps (wr_informers wr) ! pg_caching p) c), pg_caching := Suc (pg_caching p)\<rparr>)"
| informer: "pg_cache p = Some c \<Longrightarrow> refilled c c' \<Longrightarrow> program_step wr p (p\<lparr>pg_cache := Some c'\<rparr>)"
| stream_write: "program_step wr p (p\<lparr>pg_hub := receive i (pg_hub p)\<rparr>)"
| subscribe: "i < length (h_heap (pg_hub p)) \<Longrightarrow>
    program_step wr p (p\<lparr>pg_subscribing := (i, topics) # pg_subscribing p\<rparr>)"
| subscribed: "(i, topics) \<in> set (pg_subscribing p) \<Longrightarrow> i < length (h_heap (pg_hub p)) \<Longrightarrow>
    program_step wr p (p\<lparr>pg_subscribing := remove1 (i, topics) (pg_subscribing p),
      pg_hub := (pg_hub p)\<lparr>h_heap := (h_heap (pg_hub p))[i := Subscribe topics (h_heap (pg_hub p) ! i)]\<rparr>\<rparr>)"
| topic_race: "(i, topics) \<in> set (pg_subscribing p) \<Longrightarrow> i \<in> set (h_clients (pg_hub p)) \<Longrightarrow> publishing p \<Longrightarrow>
    program_step wr p (p\<lparr>pg_raced := True\<rparr>)"
| stream_end: "program_step wr p (p\<lparr>pg_hub := Unregister i (pg_hub p)\<rparr>)"
| signal: "program_step wr p (p\<lparr>pg_signal := True\<rparr>)"
| shutdown: "pg_signal p \<Longrightarrow> \<not> pg_shut p \<Longrightarrow> ShutdownAll (shipped_ops (wr_plugins wr) 0) (pg_plugins p) = Some m \<Longrightarrow>
    program_step wr p (p\<lparr>pg_plugins := m, pg_shut := True\<rparr>)"
| shutdown_panic: "pg_signal p \<Longrightarrow> \<not> pg_shut p \<Longrightarrow> ShutdownAll (shipped_ops (wr_plugins wr) 0) (pg_plugins p) = None \<Longrightarrow>
    program_step wr p (p\<lparr>pg_panicked := True\<rparr>)"
| cache_stop: "pg_shut p \<Longrightarrow> pg_cache p = Some c \<Longrightarrow> StopCache c = Some c' \<Longrightarrow> program_step wr p (p\<lparr>pg_cache := Some c'\<rparr>)"

abbreviation program_run :: "('b, 'c, 'st, 'm) wiring \<Rightarrow> ('m, 'st, 't) program \<Rightarrow> ('m, 'st, 't) program \<Rightarrow> bool" where
  "program_run wr \<equiv> (program_step wr)\<^sup>*\<^sup>*"

text \<open>
  The life of an installation: a first start on a database without rows, any number of steps, then, as often as you
  like, the process ends (at any moment, by the shutdown or not) and is started again, with another configuration
  perhaps, on the tables it left. No generated identifier is \<open>_global\<close>: they are UUIDs.
\<close>

inductive lives :: "('d, 'cfg, 't) host \<Rightarrow> ('b, 'c, 'st, 'm) wiring \<Rightarrow> ('m, 'st, 't) program \<Rightarrow> bool" where
  first: "start_up ho wr = Inr p0 \<Longrightarrow> w_db (pg_world p0) = empty_tables \<Longrightarrow> \<forall>n. e_uuid (wr_env wr) n \<noteq> ''_global'' \<Longrightarrow>
    program_run wr p0 p \<Longrightarrow> lives ho wr p"
| again: "lives ho wr p \<Longrightarrow> start_up ho' wr' = Inr p0 \<Longrightarrow> w_db (pg_world p0) = w_db (pg_world p) \<Longrightarrow>
    \<forall>n. e_uuid (wr_env wr') n \<noteq> ''_global'' \<Longrightarrow> program_run wr' p0 p' \<Longrightarrow> lives ho' wr' p'"

end
