(* ===== verification/Program_Laws.thy ===== *)
theory Program_Laws
  imports Program
begin

text \<open>
  The components together: whatever steps the running program takes, the schema, the hub, the workers, the
  plugins' channels and the cache stay well formed, and nothing panics before the shutdown; the session
  middleware stands before every route of the API; what a plugin's route answers after a check; and how an
  alert gets from a plugin to the browsers.
\<close>

section \<open>Requests\<close>

lemma admit_db: "admit s rq w = (r, w') \<Longrightarrow> w_db w' = w_db w"
  by (auto simp: admit_def dest: session.keeps_tables split: option.splits if_splits)

lemma api_v1_admit: "api_v1 s mt path = guarded (admit s) (api s mt path)"
  by (auto simp: api_v1_def admit_def guarded_def fun_eq_iff split: option.split)

lemma api_other_frame:
  "snd (api_other wr c path rq p) = p \<or> snd (api_other wr c path rq p) = p\<lparr>pg_hub := snd (Register (pg_hub p))\<rparr>"
proof (cases "\<exists>x. path = [x]")
  case True
  then obtain x where x: "path = [x]" by blast
  show ?thesis
  proof (cases "x = ''stream''")
    case stream: True
    then show ?thesis by (simp add: x api_other_def case_prod_beta)
  next
    case False
    then show ?thesis
      by (cases "proxied_of x") (simp_all only: x api_other_def list.case if_False option.case snd_conv if_distrib [of snd]
          if_cancel simp_thms)
  qed
next
  case False
  then have "snd (api_other wr c path rq p) = p"
    by (cases path; cases "tl path") (simp_all add: api_other_def)
  then show ?thesis ..
qed

text \<open>A request changes the world as the server does, and at most registers a stream.\<close>

lemma respond_frame:
  obtains w h where "snd (respond wr c p) = p\<lparr>pg_world := w, pg_hub := h\<rparr>"
    and "h = pg_hub p \<or> h = snd (Register (pg_hub p))"
    and "w_db w = w_db (pg_world p)
      \<or> w = snd (serve (live_server wr (hc_method c) p) (hc_method c) (hc_path c) (hc_request c) (pg_world p))"
proof (cases "other_path (hc_method c) (hc_path c)")
  case None
  let ?w = "snd (serve (live_server wr (hc_method c) p) (hc_method c) (hc_path c) (hc_request c) (pg_world p))"
  have "snd (respond wr c p) = p\<lparr>pg_world := ?w, pg_hub := pg_hub p\<rparr>"
    using None by (simp add: respond_def Let_def case_prod_beta)
  then show thesis by (rule that) auto
next
  case (Some other)
  obtain r w where a: "admit (live_server wr (hc_method c) p) (hc_request c) (pg_world p) = (r, w)" by fastforce
  then have db: "w_db w = w_db (pg_world p)" by (rule admit_db)
  show thesis
  proof (cases r)
    case (Inl rs)
    then have "snd (respond wr c p) = p\<lparr>pg_world := w, pg_hub := pg_hub p\<rparr>"
      using Some a by (simp add: respond_def)
    then show thesis by (rule that) (use db in auto)
  next
    case (Inr rq)
    have r: "snd (respond wr c p) = snd (api_other wr c other rq (p\<lparr>pg_world := w\<rparr>))"
      using Some a Inr by (simp add: respond_def)
    from api_other_frame [of wr c other rq "p\<lparr>pg_world := w\<rparr>"] show thesis
    proof
      assume "snd (api_other wr c other rq (p\<lparr>pg_world := w\<rparr>)) = p\<lparr>pg_world := w\<rparr>"
      with r have "snd (respond wr c p) = p\<lparr>pg_world := w, pg_hub := pg_hub p\<rparr>" by simp
      then show thesis by (rule that) (use db in auto)
    next
      assume "snd (api_other wr c other rq (p\<lparr>pg_world := w\<rparr>))
          = p\<lparr>pg_world := w, pg_hub := snd (Register (pg_hub (p\<lparr>pg_world := w\<rparr>)))\<rparr>"
      with r have "snd (respond wr c p) = p\<lparr>pg_world := w, pg_hub := snd (Register (pg_hub p))\<rparr>" by simp
      then show thesis by (rule that) (use db in auto)
    qed
  qed
qed

section \<open>Plugins\<close>

lemma check_loop_closed:
  "ch_closed c \<Longrightarrow> check_loop e progress costs bs k ss c = Some (ss', c') \<Longrightarrow> c' = c"
  by (induction e progress costs bs k ss c rule: check_loop.induct)
    (auto simp: Let_def try_send_def split: option.splits)

lemma poll_closed:
  assumes "ch_closed (shipped_channel p)" and "shipped_poll e n k p = Some q"
  shows "shipped_channel q = shipped_channel p"
proof (cases p)
  case (BudgetsPlugin b)
  with assms show ?thesis
    by (auto simp: checkBudgets_def split: option.splits dest: check_loop_closed)
next
  case (BreakdownPlugin b)
  with assms show ?thesis
    by (auto simp: detectIdle_def Let_def try_send_def split: option.splits if_splits)
qed

definition channel_ok :: "bool \<Rightarrow> shipped \<Rightarrow> bool" where
  "channel_ok gone p \<longleftrightarrow> length (ch_queue (shipped_channel p)) \<le> 100 \<and> (gone \<or> \<not> ch_closed (shipped_channel p))"

lemma poll_ok:
  assumes "channel_ok gone p" and "shipped_poll e n k p = Some q"
  shows "channel_ok gone q"
proof (cases "ch_closed (shipped_channel p)")
  case True
  with poll_closed [OF True assms(2)] assms(1) show ?thesis by (simp add: channel_ok_def)
next
  case False
  obtain q' evs where q': "shipped_poll e n k p = Some q'" "\<not> ch_closed (shipped_channel q')"
    "ch_queue (shipped_channel q') = ch_queue (shipped_channel p) @ take (100 - length (ch_queue (shipped_channel p))) evs"
    by (rule shipped.poll_keeps [OF False])
  have "length (ch_queue (shipped_channel q')) \<le> 100" using assms(1) by (auto simp: q'(3) channel_ok_def)
  with q'(1,2) assms show ?thesis by (simp add: channel_ok_def)
qed

lemma poll_None: "channel_ok gone p \<Longrightarrow> shipped_poll e n k p = None \<Longrightarrow> gone"
  using shipped.poll_keeps [of p e n k] by (auto simp: channel_ok_def)

lemma pop_ok: "channel_ok gone p \<Longrightarrow> channel_ok gone (shipped_pop p)"
  by (cases p) (auto simp: channel_ok_def pop_def)

definition table_ok :: "bool \<Rightarrow> shipped plugins \<Rightarrow> bool" where
  "table_ok gone m \<longleftrightarrow> list_all (\<lambda>(name, rp). channel_ok gone (rg_instance rp)) m"

lemma table_at: "table_ok gone m \<Longrightarrow> map_of m name = Some rp \<Longrightarrow> channel_ok gone (rg_instance rp)"
  by (auto simp: table_ok_def list_all_iff dest: map_of_SomeD)

lemma set_instance_ok: "table_ok gone m \<Longrightarrow> channel_ok gone q \<Longrightarrow> table_ok gone (set_instance name rp q m)"
  by (induction m) (auto simp: table_ok_def set_instance_def)

lemma shutdown_ok:
  "ShutdownAll (shipped_ops e n) m = Some m' \<Longrightarrow> table_ok gone m \<Longrightarrow> table_ok True m'"
proof (induction m arbitrary: m')
  case (Cons x m)
  obtain name rp where x: "x = (name, rp)" by (cases x)
  let ?rp = "if rg_cancel rp = None then rp else rp\<lparr>rg_cancel := Some True\<rparr>"
  from Cons.prems(1) x obtain err q m1 where q: "po_shutdown (shipped_ops e n) (rg_instance ?rp) = Some (err, q)"
    "ShutdownAll (shipped_ops e n) m = Some m1" "m' = (name, ?rp\<lparr>rg_instance := q\<rparr>) # m1"
    by (auto simp: Let_def split: option.splits)
  have "channel_ok gone (rg_instance ?rp)" using Cons.prems(2) x by (simp add: table_ok_def)
  with q(1) have "channel_ok True q"
    by (cases "rg_instance ?rp") (auto simp: shipped_ops_def channel_ok_def ShutdownBudgets_def ShutdownBreakdown_def
        close_channel_def split: if_splits)
  moreover have "table_ok True m1" using Cons q(2) by (simp add: table_ok_def)
  ultimately show ?case using q(3) by (simp add: table_ok_def)
qed (simp add: table_ok_def)

lemma shutdown_open: "table_ok False m \<Longrightarrow> ShutdownAll (shipped_ops e n) m \<noteq> None"
  using shipped.shutdown_all_open [of m e n] by (fastforce simp: table_ok_def list_all_iff channel_ok_def)

lemma boot_ok: "table_ok False (boot_plugins e n url)"
  by (simp add: boot_plugins_eq table_ok_def channel_ok_def NewBudgets_def NewBreakdown_def make_channel_def)

section \<open>The invariant\<close>

text \<open>The cache after some assignments of \<open>Start\<close>.\<close>

definition caching_ok :: "nat \<Rightarrow> 'st cluster_cache \<Rightarrow> bool" where
  "caching_ok n c \<longleftrightarrow> (0 < n \<longrightarrow> cc_namespaces c \<noteq> None) \<and> (1 < n \<longrightarrow> cc_nodes c \<noteq> None)
     \<and> (2 < n \<longrightarrow> cc_pods c \<noteq> None) \<and> (cc_ready c \<longrightarrow> 3 < n)"

lemma caching_start:
  assumes "caching_ok n c" and "n < length (start_steps lib)"
  shows "caching_ok (Suc n) ((start_steps lib ! n) c)"
proof -
  have "n = 0 \<or> n = 1 \<or> n = 2 \<or> n = 3" using assms(2) by (simp add: start_steps_def) arith
  with assms(1) show ?thesis
    by (elim disjE) (auto simp: caching_ok_def start_steps_def watchResource_def numeral_2_eq_2 numeral_3_eq_3)
qed

lemma caching_refilled: "caching_ok n c \<Longrightarrow> refilled c c' \<Longrightarrow> caching_ok n c'"
  by (auto simp: caching_ok_def refilled_def)

lemma caching_ready: "caching_ok n c \<Longrightarrow> cache_inv c"
  by (auto simp: caching_ok_def cache_inv_def)

definition cache_ok :: "nat \<Rightarrow> 'st cluster_cache option \<Rightarrow> bool" where
  "cache_ok n co \<longleftrightarrow> (case co of None \<Rightarrow> True | Some c \<Rightarrow> caching_ok n c)"

lemma cache_ok_simps [simp]: "cache_ok n None" "cache_ok n (Some c) \<longleftrightarrow> caching_ok n c"
  by (simp_all add: cache_ok_def)

definition program_inv :: "('m, 'st, 't) program \<Rightarrow> bool" where
  "program_inv p \<longleftrightarrow> served_ok (w_db (pg_world p)) \<and> hub_inv (pg_hub p) \<and> Crashed \<notin> set (pg_workers p)
     \<and> table_ok (pg_shut p) (pg_plugins p) \<and> (pg_panicked p \<longrightarrow> pg_shut p)
     \<and> cache_ok (pg_caching p) (pg_cache p)"

lemma request_inv:
  assumes "program_inv p" and "\<And>n. e_uuid (wr_env wr) n \<noteq> ''_global''"
  shows "program_inv (snd (respond wr c p))"
proof -
  obtain w h where r: "snd (respond wr c p) = p\<lparr>pg_world := w, pg_hub := h\<rparr>"
    and h: "h = pg_hub p \<or> h = snd (Register (pg_hub p))"
    and w: "w_db w = w_db (pg_world p)
      \<or> w = snd (serve (live_server wr (hc_method c) p) (hc_method c) (hc_path c) (hc_request c) (pg_world p))"
    by (rule respond_frame)
  have "hub_inv h" using h assms(1) Register_inv [of "pg_hub p"] by (auto simp: program_inv_def)
  moreover have "served_ok (w_db (pg_world p))" using assms(1) by (simp add: program_inv_def)
  with w serve_keeps [OF this, of "live_server wr (hc_method c) p"] assms(2) have "served_ok (w_db w)"
    by (auto simp: live_server_def)
  ultimately show ?thesis using assms(1) by (simp add: r program_inv_def)
qed

text \<open>A step of a worker of the scheduler.\<close>

lemma worker_inv:
  assumes "program_inv p" and "i < length (pg_workers p)"
    and "work (main_registry ce) e marshal (pg_workers p ! i) (pass_of p) = (a, s)"
  shows "program_inv (with_pass s (p\<lparr>pg_workers := (pg_workers p)[i := a]\<rparr>))"
proof -
  have inv: "served_ok (w_db (pg_world p))" "hub_inv (pg_hub p)" "Crashed \<notin> set (pg_workers p)"
    using assms(1) by (simp_all add: program_inv_def)
  have good: "shared_good (pass_of p)"
    using inv by (simp add: shared_good_def pass_good_def pass_of_def served_ok_def)
  have "pg_workers p ! i \<noteq> Crashed" using inv(3) assms(2) by (metis nth_mem)
  from work_good [OF good assms(3) this]
  have s: "shared_good s" "pass_rel UNIV (pass_of p) s" "a \<noteq> Crashed" by auto
  obtain h where h: "ps_hub s = Some h"
    using s(2) by (cases "ps_hub s") (auto simp: pass_rel_def pass_of_def)
  have "project_ids (w_db (ps_world s)) = project_ids (w_db (pg_world p))"
    using s(2) by (simp add: pass_rel_def pass_frame_def pass_of_def project_ids_def)
  then have "served_ok (w_db (ps_world s))" "hub_inv h"
    using s(1) h inv(1) by (simp_all add: shared_good_def pass_good_def served_ok_def)
  moreover have "Crashed \<notin> set ((pg_workers p)[i := a])"
    using inv(3) s(3) set_update_subset_insert [of "pg_workers p" i a] by auto
  ultimately show ?thesis using assms(1) h by (simp add: program_inv_def with_pass_def)
qed

lemma publish_inv: "hub_inv h \<Longrightarrow> Publish marshal ev h = Some h' \<Longrightarrow> hub_inv h'"
  using Publish_ok [of h marshal ev] by auto

lemma taking_inv: "hub_inv h \<Longrightarrow> hub_inv (receive i h)"
proof (cases "i < length (h_heap h)")
  case True
  assume h: "hub_inv h"
  have q: "length (c_queue (h_heap h ! i)) \<le> send_capacity" using h True by (rule hub_cell_queue)
  show ?thesis unfolding receive_def
    by (rule hub_inv_cell [OF h]) (use q h in \<open>auto simp: hub_inv_def\<close>)
qed (simp add: receive_def list_update_outside)

lemma subscribe_inv:
  assumes "hub_inv h" and "i < length (h_heap h)"
  shows "hub_inv (h\<lparr>h_heap := (h_heap h)[i := Subscribe ts (h_heap h ! i)]\<rparr>)"
  by (rule hub_inv_cell [OF assms(1)]) (use assms hub_cell_queue [OF assms] in \<open>auto simp: Subscribe_def hub_inv_def\<close>)

lemma program_step_inv:
  assumes "program_step wr p p'" and "program_inv p" and "\<And>n. e_uuid (wr_env wr) n \<noteq> ''_global''"
  shows "program_inv p'"
  using assms(1,2)
proof (induction rule: program_step.induct)
  case (request c p r p')
  with request_inv [OF request(2) assms(3), of c] show ?case by (metis snd_conv)
next
  case (handler_call op p)
  then have "db_inv (w_db (pg_world p))" "''_global'' \<notin> project_ids (w_db (pg_world p))"
    by (simp_all add: program_inv_def served_ok_def)
  with store_step_inv store_step_ids [OF handler_call(1) assms(3)] handler_call(2) show ?case
    by (simp add: program_inv_def served_ok_def)
next
  case (worker i p a s)
  then show ?case by (intro worker_inv)
next
  case (poll p name rp n k q)
  then have "channel_ok (pg_shut p) q" by (meson poll_ok program_inv_def table_at)
  with poll(3) show ?case by (simp add: program_inv_def set_instance_ok)
next
  case (poll_panic p name rp n k)
  then have "channel_ok (pg_shut p) (rg_instance rp)" by (meson program_inv_def table_at)
  then have "pg_shut p" using poll_panic(2) by (rule poll_None)
  with poll_panic(3) show ?case by (simp add: program_inv_def)
next
  case (bridge_receive p name rp x q)
  then have "channel_ok (pg_shut p) (shipped_pop (rg_instance rp))" by (meson pop_ok program_inv_def table_at)
  with bridge_receive(5) show ?case by (simp add: program_inv_def set_instance_ok)
next
  case (bridge_publish p name x h)
  then show ?case using publish_inv by (auto simp: program_inv_def)
next
  case (bridge_panic p name x)
  then show ?case using Publish_ok [of "pg_hub p" "wr_marshal wr" "bridge_event x"] by (auto simp: program_inv_def)
next
  case (cache_start p c)
  then show ?case using caching_start by (auto simp: program_inv_def)
next
  case (informer p c c')
  then show ?case using caching_refilled by (auto simp: program_inv_def)
next
  case (shutdown p m)
  then show ?case using shutdown_ok by (auto simp: program_inv_def)
next
  case (shutdown_panic p)
  then show ?case using shutdown_open [of "pg_plugins p" "wr_plugins wr" 0] by (auto simp: program_inv_def)
next
  case (cache_stop p c c')
  then have "caching_ok (pg_caching p) c'"
    by (auto simp: program_inv_def StopCache_def caching_ok_def split: if_splits)
  with cache_stop(4) show ?case by (simp add: program_inv_def)
qed (auto simp: program_inv_def taking_inv subscribe_inv Unregister_inv)

interpretation program_steps: step_invariant "program_step wr" "\<lambda>p. program_inv p \<and> (\<forall>n. e_uuid (wr_env wr) n \<noteq> ''_global'')" for wr
  by unfold_locales (use program_step_inv in blast)

lemma program_run_inv:
  "program_run wr p p' \<Longrightarrow> program_inv p \<Longrightarrow> (\<And>n. e_uuid (wr_env wr) n \<noteq> ''_global'') \<Longrightarrow> program_inv p'"
  using program_steps.run_keeps [of wr p p'] by blast

lemma start_up_inv:
  fixes wr :: "('b, 'c, 'st, 'm) wiring"
  assumes "start_up ho wr = Inr p" and "served_ok (w_db (pg_world p))"
  shows "program_inv p"
proof -
  obtain db am where p: "p = \<lparr>pg_world = \<lparr>w_db = ho_tables ho db, w_calls = 0, w_ticks = 0, w_ids = 0\<rparr>,
      pg_hub = NewHub, pg_auth = am, pg_plugins = boot_plugins (wr_plugins wr) 0 (cf_OpenCostURL (Load (ho_environ ho))),
      pg_bridge = (\<lambda>_. None),
      pg_proxy = (if cf_DevMode (Load (ho_environ ho)) then NewMock else NewProxy (cf_OpenCostURL (Load (ho_environ ho)))),
      pg_cache = (case NewCache (ho_in_cluster ho) (ho_home ho) (ho_client ho) of Inl err \<Rightarrow> None | Inr c \<Rightarrow> Some c),
      pg_caching = 0, pg_scheduler = NotStarted, pg_workers = [], pg_signal = False, pg_shut = False, pg_panicked = False,
      pg_subscribing = [], pg_raced = False\<rparr>"
    using assms(1) by (auto simp: start_up_def Let_def split: sum.splits prod.splits option.splits)
  have "cache_ok 0 (case NewCache (ho_in_cluster ho) (ho_home ho) (ho_client ho) of Inl err \<Rightarrow> None
      | Inr c \<Rightarrow> Some (c :: 'st cluster_cache))"
    by (auto simp: NewCache_def caching_ok_def NewWithClientset_def split: sum.splits option.splits)
  then show ?thesis using assms(2) by (simp add: p program_inv_def boot_ok hub_inv_new)
qed

lemma served_ok_empty: "served_ok empty_tables"
  using db_inv_empty by (simp add: served_ok_def) (simp add: project_ids_def empty_tables_def)

lemma lives_inv: "lives ho wr p \<Longrightarrow> program_inv p"
proof (induction rule: lives.induct)
  case (first ho wr p0 p)
  then have "program_inv p0" using served_ok_empty by (intro start_up_inv) simp_all
  with first(3,4) show ?case by (blast intro: program_run_inv)
next
  case (again ho wr p ho' wr' p0 p')
  then have "program_inv p0" by (intro start_up_inv) (simp_all add: program_inv_def)
  with again(4,5) show ?case by (blast intro: program_run_inv)
qed

text \<open>
  C1: The program, from its first start on an empty database through any stops and restarts, where nothing else writes to
  the database and no generated identifier is \<open>_global\<close>. Requests, single calls of their handlers to the store,
  the steps of the scheduler's workers, the plugins' poll rounds, the bridges, the informers, the streams and the
  shutdown interleave in any order, whatever arrives and whatever fails; a publication, a registration and a
  poll round are one step each. Then the tables satisfy the schema's constraints and nobody is a platform
  administrator; every client's queue is open while it is registered, and bounded; no worker panics, and no poll
  loop, bridge or shutdown does before the plugins are shut down; the plugins' channels hold at most 100
  events and are open until then; and a cache that says it is ready has all its stores. Not covered is the one
  fault that is a step of its own: a publication that reads a client's topics while a subscription writes
  them, at which Go may stop the program.
\<close>

theorem program_safe:
  assumes "lives ho wr p"
  shows "db_inv (w_db (pg_world p)) \<and> \<not> admin_grant (w_db (pg_world p)) sess \<and> hub_inv (pg_hub p)
    \<and> Crashed \<notin> set (pg_workers p) \<and> (pg_panicked p \<longrightarrow> pg_shut p)
    \<and> list_all (\<lambda>(name, rp). length (ch_queue (shipped_channel (rg_instance rp))) \<le> 100
        \<and> (ch_closed (shipped_channel (rg_instance rp)) \<longrightarrow> pg_shut p)) (pg_plugins p)
    \<and> (case pg_cache p of None \<Rightarrow> True | Some c \<Rightarrow> cache_inv c)"
proof -
  have inv: "program_inv p" using assms by (rule lives_inv)
  have "list_all (\<lambda>(name, rp). length (ch_queue (shipped_channel (rg_instance rp))) \<le> 100
      \<and> (ch_closed (shipped_channel (rg_instance rp)) \<longrightarrow> pg_shut p)) (pg_plugins p)"
    using inv by (auto simp: program_inv_def table_ok_def channel_ok_def list_all_iff)
  moreover have "case pg_cache p of None \<Rightarrow> True | Some c \<Rightarrow> cache_inv c"
    using inv caching_ready by (cases "pg_cache p") (auto simp: program_inv_def)
  moreover have "\<not> admin_grant (w_db (pg_world p)) sess"
    using inv by (intro no_global_no_admin) (auto simp: program_inv_def served_ok_def)
  ultimately show ?thesis using inv by (simp add: program_inv_def served_ok_def)
qed

section \<open>Routes\<close>

text \<open>
  C4: With authentication enabled, a request under \<open>/api/v1\<close> without a session cookie, to any route, the plugins', the
  proxy's and the stream included, is answered 401 by the middleware: no stream is opened, nothing is
  asked of OpenCost, and the state is as it was.
\<close>

theorem every_route_needs_session:
  assumes "\<not> IsDisabled (pg_auth p)" and "hc_path c = ''api'' # ''v1'' # rest"
    and "Cookie sessionCookieName (hc_request c) = None"
  shows "respond wr c p = (JsonReply (writeJSON StatusUnauthorized (error_body ''authentication required'')), p)"
proof -
  let ?s = "live_server wr (hc_method c) p" and ?out = "(Inl (writeJSON StatusUnauthorized (error_body ''authentication required'')), pg_world p)"
  have "admit ?s (hc_request c) (pg_world p) = ?out"
    using assms(1,3) by (simp add: admit_def live_server_def Middleware_def IsDisabled_def)
  moreover from this have "serve ?s (hc_method c) (hc_path c) (hc_request c) (pg_world p)
      = (writeJSON StatusUnauthorized (error_body ''authentication required''), pg_world p)"
    by (simp add: assms(2) api_v1_admit guarded_def)
  moreover have "p\<lparr>pg_world := pg_world p\<rparr> = p" by simp
  ultimately show ?thesis by (simp add: respond_def Let_def split: option.split)
qed

section \<open>A sample program for the witnesses\<close>

definition echo_upstream :: "json upstream" where
  "echo_upstream = \<lparr>up_target = (\<lambda>url query. Some url), up_request = (\<lambda>_ _. True),
     up_do = (\<lambda>m t hs b n. Inr \<lparr>rw_status = 200, rw_headers = [],
       rw_body = JObj (map (\<lambda>(k, vs). (k, JArr (map JStr vs))) hs)\<rparr>), up_json = id\<rparr>"

definition sample_wiring :: "(json, json, kube_object list, nat) wiring" where
  "sample_wiring = \<lparr>wr_env = sample_env, wr_marshal = (\<lambda>_. Some 0), wr_collect = sample_collect_env,
     wr_plugins = sample_plugin_env, wr_upstream = echo_upstream, wr_nobody = JNull, wr_rand = (\<lambda>_. Fin 0),
     wr_informers = list_informers, wr_time = int_text, wr_frontend = None, wr_file = (\<lambda>_. not_found), wr_swagger = (\<lambda>_. not_found)\<rparr>"

definition sample_host :: "(unit, unit, string) host" where
  "sample_host = \<lparr>ho_environ = (\<lambda>_. ''''), ho_driver = \<lparr>dd_open = (\<lambda>_ _. None), dd_ping = None, dd_exec = (\<lambda>_. None)\<rparr>,
     ho_fault = (\<lambda>_. False), ho_run_sql = (\<lambda>_ d. Some d), ho_migrations = Some [], ho_db = \<lparr>mg_data = (), mg_versions = None\<rparr>,
     ho_tables = (\<lambda>_. empty_tables), ho_in_cluster = Inl '''', ho_home = Inr (), ho_client = (\<lambda>_. None),
     ho_discover = (\<lambda>_. Inl ''''), ho_nil = am_idp sample_manager\<rparr>"

definition sample_program :: "(nat, kube_object list, string) program" where
  "sample_program = \<lparr>pg_world = init_world, pg_hub = NewHub,
     pg_auth = \<lparr>am_idp = am_idp sample_manager, am_disabled = True\<rparr>,
     pg_plugins = boot_plugins sample_plugin_env 0 (cf_OpenCostURL (Load (\<lambda>_. ''''))), pg_bridge = (\<lambda>_. None),
     pg_proxy = NewProxy (cf_OpenCostURL (Load (\<lambda>_. ''''))), pg_cache = Some NewWithClientset, pg_caching = 0,
     pg_scheduler = NotStarted, pg_workers = [], pg_signal = False, pg_shut = False, pg_panicked = False,
     pg_subscribing = [], pg_raced = False\<rparr>"

lemma sample_start: "start_up sample_host sample_wiring = Inr sample_program"
proof -
  have store: "NewStore (ho_driver sample_host) dsn = Inr (fst (parseDSN dsn))" for dsn
    by (simp add: NewStore_def sample_host_def case_prod_beta)
  have migrate: "runMigrations (ho_fault sample_host) (ho_run_sql sample_host) (ho_migrations sample_host) (ho_db sample_host)
      = (None, \<lparr>mg_data = (), mg_versions = Some []\<rparr>)"
    by (simp add: runMigrations_def sample_host_def up_files_def)
  have auth: "NewManager (ho_discover sample_host) (ho_nil sample_host) (Load (ho_environ sample_host))
      = Inr \<lparr>am_idp = am_idp sample_manager, am_disabled = True\<rparr>"
    by (simp add: NewManager_def Load_auth sample_host_def)
  have "\<not> cf_DevMode (Load (\<lambda>_. ''''))" by (simp add: Load_def envBool_def Let_def)
  with store migrate auth show ?thesis
    by (simp add: start_up_def Let_def sample_program_def)
      (simp add: sample_host_def sample_wiring_def init_world_def NewCache_def)
qed

definition sample_call :: "string \<Rightarrow> string list \<Rightarrow> request \<Rightarrow> json http_call" where
  "sample_call mt path rq = \<lparr>hc_method = mt, hc_path = path, hc_request = rq,
     hc_raw = \<lparr>rr_method = mt, rr_query = '''', rr_headers = [(''Cookie'', [''finguard_session=tok''])], rr_body = JNull\<rparr>,
     hc_number = 0, hc_time = 0, hc_accepted = True\<rparr>"

theorem program_safe_witness:
  "db_inv (w_db (pg_world (snd (respond sample_wiring (sample_call ''POST'' [''api'', ''v1'', ''projects''] create_request)
     sample_program))))"
proof -
  let ?p = "snd (respond sample_wiring (sample_call ''POST'' [''api'', ''v1'', ''projects''] create_request) sample_program)"
  have "program_step sample_wiring sample_program ?p" by (rule program_step.request) (rule surjective_pairing)
  then have run: "program_run sample_wiring sample_program ?p" by blast
  have ids: "\<forall>n. e_uuid (wr_env sample_wiring) n \<noteq> ''_global''"
    by (simp add: sample_wiring_def sample_env_def)
  have "w_db (pg_world sample_program) = empty_tables" by (simp add: sample_program_def init_world_def)
  from program_safe [OF lives.first [OF sample_start this ids run]] show ?thesis by blast
qed

theorem every_route_needs_session_witness:
  "respond sample_wiring (sample_call ''GET'' [''api'', ''v1'', ''plugins'', ''budgets'', ''status''] empty_request)
     (sample_program\<lparr>pg_auth := sample_manager\<rparr>)
   = (JsonReply (writeJSON StatusUnauthorized (error_body ''authentication required'')), sample_program\<lparr>pg_auth := sample_manager\<rparr>)"
proof -
  let ?c = "sample_call ''GET'' [''api'', ''v1'', ''plugins'', ''budgets'', ''status''] empty_request"
  have auth: "\<not> IsDisabled (pg_auth (sample_program\<lparr>pg_auth := sample_manager\<rparr>))"
    by (simp add: IsDisabled_def sample_manager_def)
  have path: "hc_path ?c = ''api'' # ''v1'' # [''plugins'', ''budgets'', ''status'']" by (simp add: sample_call_def)
  have cookie: "Cookie sessionCookieName (hc_request ?c) = None" by (simp add: sample_call_def Cookie_def empty_request_def)
  show ?thesis by (rule every_route_needs_session [OF auth path cookie])
qed

end
