(* ===== verification/Routes.thy ===== *)
theory Routes
  imports Program_Laws
begin

text \<open>
  Paths through the running program: the table of plugins that \<open>main\<close> sets up keeps its shape, so that the routes of
  the plugins lead where they should; what the budget route answers after a check; how alerts get from a
  check to a browser; and what the proxy hands on to OpenCost.
\<close>

section \<open>The table of plugins\<close>

fun is_budgets :: "shipped \<Rightarrow> bool" where
  "is_budgets (BudgetsPlugin b) = True"
| "is_budgets (BreakdownPlugin b) = False"

definition entry :: "string \<times> shipped registered \<Rightarrow> string \<times> metadata \<times> bool" where
  "entry x = (fst x, rg_meta (snd x), is_budgets (rg_instance (snd x)))"

definition shipped_table :: "shipped plugins \<Rightarrow> bool" where
  "shipped_table m \<longleftrightarrow> map entry m = [(''budgets'', budgets_metadata, True), (''costbreakdown'', breakdown_metadata, False)]"

lemma shipped_table_cases:
  assumes "shipped_table m"
  obtains b c where "map_of m ''budgets'' = Some b" "map_of m ''costbreakdown'' = Some c"
    "m = [(''budgets'', b), (''costbreakdown'', c)]" "is_budgets (rg_instance b)" "\<not> is_budgets (rg_instance c)"
    "rg_meta b = budgets_metadata" "rg_meta c = breakdown_metadata"
proof -
  obtain x y where m: "m = [x, y]" "entry x = (''budgets'', budgets_metadata, True)"
    "entry y = (''costbreakdown'', breakdown_metadata, False)"
    using assms by (auto simp: shipped_table_def map_eq_Cons_conv)
  then show thesis by (intro that [of "snd x" "snd y"]) (cases x; cases y; simp add: entry_def)+
qed

lemma boot_table: "shipped_table (boot_plugins e n url)"
  by (simp add: boot_plugins_eq shipped_table_def entry_def)

lemma set_instance_table:
  "shipped_table m \<Longrightarrow> map_of m name = Some rp \<Longrightarrow> is_budgets q = is_budgets (rg_instance rp) \<Longrightarrow>
   shipped_table (set_instance name rp q m)"
  by (elim shipped_table_cases) (auto simp: shipped_table_def set_instance_def entry_def split: if_splits)

lemma poll_kind: "shipped_poll e n k p = Some q \<Longrightarrow> is_budgets q = is_budgets p"
  by (cases p) auto

lemma pop_kind: "is_budgets (shipped_pop p) = is_budgets p"
  by (cases p) simp_all

lemma shutdown_entries: "ShutdownAll (shipped_ops e n) m = Some m' \<Longrightarrow> map entry m' = map entry m"
proof (induction m arbitrary: m')
  case (Cons x m)
  obtain name rp where x: "x = (name, rp)" by (cases x)
  let ?rp = "if rg_cancel rp = None then rp else rp\<lparr>rg_cancel := Some True\<rparr>"
  from Cons.prems x obtain err q m1 where q: "po_shutdown (shipped_ops e n) (rg_instance ?rp) = Some (err, q)"
    "ShutdownAll (shipped_ops e n) m = Some m1" "m' = (name, ?rp\<lparr>rg_instance := q\<rparr>) # m1"
    by (auto simp: Let_def split: option.splits)
  have "rg_instance ?rp = rg_instance rp" by simp
  with q(1) have "po_shutdown (shipped_ops e n) (rg_instance rp) = Some (err, q)" by metis
  then have "is_budgets q = is_budgets (rg_instance rp)"
    by (cases "rg_instance rp") (auto simp: shipped_ops_def)
  with Cons.IH [OF q(2)] q(3) x show ?case by (simp add: entry_def)
qed simp

lemma respond_plugins: "pg_plugins (snd (respond wr c p)) = pg_plugins p"
  by (rule respond_frame [of wr c p]) simp

lemma step_table: "program_step wr p p' \<Longrightarrow> shipped_table (pg_plugins p) \<Longrightarrow> shipped_table (pg_plugins p')"
proof (induction rule: program_step.induct)
  case (request c p r p')
  then show ?case using respond_plugins [of wr c p] by simp
next
  case (poll p name rp n k q)
  then show ?case by (simp add: set_instance_table poll_kind)
next
  case (bridge_receive p name rp x q)
  then show ?case by (simp add: set_instance_table pop_kind)
next
  case (shutdown p m)
  from shutdown_entries [OF shutdown(3)] shutdown(4) show ?case by (simp add: shipped_table_def)
qed (simp_all add: with_pass_def)

interpretation table_steps: step_invariant "program_step wr" "\<lambda>p. shipped_table (pg_plugins p)" for wr
  by unfold_locales (rule step_table)

lemma run_table: "program_run wr p p' \<Longrightarrow> shipped_table (pg_plugins p) \<Longrightarrow> shipped_table (pg_plugins p')"
  by (rule table_steps.run_keeps)

lemma start_table: "start_up ho wr = Inr p \<Longrightarrow> shipped_table (pg_plugins p)"
  by (auto simp: start_up_def Let_def boot_table split: sum.splits prod.splits option.splits)

section \<open>The budget route\<close>

text \<open>The routes of the shipped plugins.\<close>

lemma table_routes:
  assumes "shipped_table m"
  shows "MountRoutes m =
     [(''GET'', ''/plugins/budgets/status'', ''budgets'', ''/status''),
      (''GET'', ''/plugins/budgets/config'', ''budgets'', ''/config''),
      (''GET'', ''/plugins/costbreakdown/recommendations'', ''costbreakdown'', ''/recommendations''),
      (''GET'', ''/plugins/costbreakdown/summary'', ''costbreakdown'', ''/summary'')]"
  using assms
  by (rule shipped_table_cases) (simp add: MountRoutes_def budgets_metadata_def breakdown_metadata_def)

definition status_path :: "string list" where
  "status_path = [''api'', ''v1'', ''plugins'', ''budgets'', ''status'']"

lemma status_reply:
  assumes "shipped_table (pg_plugins p)" and "map_of (pg_plugins p) ''budgets'' = Some rp"
    and "hc_method c = ''GET''" and "hc_path c = status_path"
    and "admit (live_server wr (hc_method c) p) (hc_request c) (pg_world p) = (Inr rq, w)"
  shows "fst (respond wr c p) = PluginReply (makePluginHandler (shipped_ops (wr_plugins wr) (hc_number c)) (rg_instance rp)
    ''/status'' (rq_query rq))"
proof -
  have "other_path (hc_method c) (hc_path c) = Some [''plugins'', ''budgets'', ''status'']"
    by (simp add: assms(3,4) status_path_def)
  then have "fst (respond wr c p) = plugin_reply (wr_plugins wr) (hc_number c) ''GET'' [''plugins'', ''budgets'', ''status'']
      (rq_query rq) (pg_plugins p)"
    using assms(3,5) by (simp add: respond_def api_other_def)
  with assms(2) show ?thesis
    by (simp add: plugin_reply_def table_routes [OF assms(1)] join_path_def)
qed

text \<open>
  C13: In the running program, after a check of the budgets has fetched the costs, the answer to an admitted request for
  the budgets' status is that check's list: 200 and one entry for every budget with a cost, in order, with
  their number; if one of the numbers has no JSON form it is 500 with an error that names the first such number.
\<close>

theorem status_after_check:
  assumes "start_up ho wr = Inr p0" and "program_run wr p0 p"
    and "map_of (pg_plugins p) ''budgets'' = Some rp" and "shipped_poll (wr_plugins wr) n k (rg_instance rp) = Some q"
    and "p1 = p\<lparr>pg_plugins := set_instance ''budgets'' rp q (pg_plugins p)\<rparr>"
    and "hc_method c = ''GET''" and "hc_path c = status_path"
    and "admit (live_server wr (hc_method c) p1) (hc_request c) (pg_world p1) = (Inr rq, w)"
  shows "program_step wr p p1 \<and> (\<exists>b. rg_instance rp = BudgetsPlugin b
    \<and> (case fetchNamespaceCosts (wr_plugins wr) n b of
         None \<Rightarrow> q = rg_instance rp
       | Some costs \<Rightarrow>
           let ss = states_of (monthProgress (pe_zone (wr_plugins wr)) (pe_clock (wr_plugins wr) k)) costs (bp_budgets b) in
           fst (respond wr c p1) = PluginReply
             (case all_some (map status_json ss) of
                None \<Rightarrow> \<lparr>pa_status = 500, pa_content_type = ''application/json'',
                         pa_body = Inl (error_body (marshal_error (concat (map status_numbers ss))))\<rparr>
              | Some js \<Rightarrow> \<lparr>pa_status = 200, pa_content_type = ''application/json'',
                  pa_body = Inr (Some (pe_marshal (wr_plugins wr)
                    (JObj [(''budgets'', JArr js), (''count'', JNum (of_nat (length js)))])))\<rparr>)))"
proof -
  let ?e = "wr_plugins wr"
  have step: "program_step wr p p1" unfolding assms(5) using assms(3,4) by (rule program_step.poll)
  have table: "shipped_table (pg_plugins p)" using assms(2) start_table [OF assms(1)] by (rule run_table)
  with assms(3) have "is_budgets (rg_instance rp)" by (auto elim: shipped_table_cases)
  then obtain b where b: "rg_instance rp = BudgetsPlugin b" by (cases "rg_instance rp") auto
  with assms(4) obtain b' where b': "checkBudgets ?e n k b = Some b'" "q = BudgetsPlugin b'" by auto
  have "map_of (pg_plugins p1) ''budgets'' = Some (rp\<lparr>rg_instance := q\<rparr>)"
    by (simp add: assms(5) set_instance_def update_conv)
  from status_reply [OF step_table [OF step table] this assms(6-8)]
  have r: "fst (respond wr c p1) = PluginReply (makePluginHandler (shipped_ops ?e (hc_number c)) q ''/status'' (rq_query rq))" by simp
  show ?thesis
  proof (cases "fetchNamespaceCosts ?e n b")
    case None
    with b b' step show ?thesis by (simp add: checkBudgets_def)
  next
    case (Some costs)
    let ?ss = "states_of (monthProgress (pe_zone ?e) (pe_clock ?e k)) costs (bp_budgets b)"
    have "(case bp_statuses b' of None \<Rightarrow> [] | Some ss \<Rightarrow> ss) = ?ss"
      using b'(1) Some by (auto simp: checkBudgets_def check_loop_spec split: if_splits)
    then have "handleStatus ?e b' = (case all_some (map status_json ?ss) of
        None \<Rightarrow> Inl (marshal_error (concat (map status_numbers ?ss)))
      | Some js \<Rightarrow> Inr (json_response ?e (JObj [(''budgets'', JArr js), (''count'', JNum (of_nat (length ?ss)))])))"
      by (simp add: handleStatus_def Let_def)
    moreover have "all_some xs = Some ys \<Longrightarrow> length ys = length xs" for xs :: "json option list" and ys
      by (induction xs arbitrary: ys) (auto simp: bind_eq_Some_conv)
    ultimately have "handleStatus ?e b' = (case all_some (map status_json ?ss) of
        None \<Rightarrow> Inl (marshal_error (concat (map status_numbers ?ss)))
      | Some js \<Rightarrow> Inr (json_response ?e (JObj [(''budgets'', JArr js), (''count'', JNum (of_nat (length js)))])))"
      by (cases "all_some (map status_json ?ss)") fastforce+
    then have "fst (respond wr c p1) = PluginReply
             (case all_some (map status_json ?ss) of
                None \<Rightarrow> \<lparr>pa_status = 500, pa_content_type = ''application/json'',
                         pa_body = Inl (error_body (marshal_error (concat (map status_numbers ?ss))))\<rparr>
              | Some js \<Rightarrow> \<lparr>pa_status = 200, pa_content_type = ''application/json'',
                  pa_body = Inr (Some (pe_marshal ?e (JObj [(''budgets'', JArr js), (''count'', JNum (of_nat (length js)))])))\<rparr>)"
      unfolding r b'(2)
      by (cases "all_some (map status_json ?ss)")
        (simp_all add: makePluginHandler_def shipped_ops_def ExecuteBudgets_def json_response_def status_defs)
    with step b Some show ?thesis by (simp add: Let_def)
  qed
qed

section \<open>From a check to a browser\<close>





section \<open>What OpenCost is told\<close>

text \<open>
  The proxy hands on every header of the request, the session cookie of FinGuard included: an OpenCost service that
  answers with any function of the headers it was sent answers with that function of all the browser's headers.
\<close>

theorem session_cookie_forwarded:
  assumes "\<not> px_mock (pg_proxy p)" and "hc_method c = ''GET''" and "hc_path c = [''api'', ''v1'', ''allocation'']"
    and "admit (live_server wr (hc_method c) p) (hc_request c) (pg_world p) = (Inr rq, w)"
    and "up_target (wr_upstream wr) (px_base (pg_proxy p) @ ''/allocation'') (rr_query (hc_raw c)) = Some target"
    and "up_request (wr_upstream wr) (rr_method (hc_raw c)) target"
    and "\<And>m t hs b n. up_do (wr_upstream wr) m t hs b n = Inr \<lparr>rw_status = 200, rw_headers = [], rw_body = f hs\<rparr>"
  shows "\<exists>resp. fst (respond wr c p) = ProxyReply resp \<and> rw_status resp = 200 \<and> rw_body resp = f (rr_headers (hc_raw c))"
  using assms by (simp add: respond_def api_other_def ProxyRoute_def proxyRequest_def)

section \<open>Witnesses\<close>

lemma sample_admit:
  "am_disabled (pg_auth p) \<Longrightarrow> admit (live_server wr mt p) rq w = (Inr rq, w)"
  by (simp add: admit_def live_server_def IsDisabled_def)

theorem status_after_check_witness:
  "\<exists>p1 body. program_step sample_wiring sample_program p1
     \<and> fst (respond sample_wiring (sample_call ''GET'' status_path empty_request) p1) = PluginReply body"
proof -
  let ?e = "wr_plugins sample_wiring" and ?c = "sample_call ''GET'' status_path empty_request"
  let ?b = "(NewBudgets None)\<lparr>bp_url := cf_OpenCostURL (Load (\<lambda>_. ''''))\<rparr>"
  let ?rp = "\<lparr>rg_instance = BudgetsPlugin ?b, rg_meta = budgets_metadata, rg_cancel = Some False\<rparr>"
  have rp: "map_of (pg_plugins sample_program) ''budgets'' = Some ?rp"
    by (simp add: sample_program_def boot_plugins_eq)
  have "\<not> ch_closed (shipped_channel (rg_instance ?rp))" by (simp add: NewBudgets_def make_channel_def)
  then obtain q where q: "shipped_poll ?e 0 0 (rg_instance ?rp) = Some q" by (rule shipped.poll_keeps)
  let ?p1 = "sample_program\<lparr>pg_plugins := set_instance ''budgets'' ?rp q (pg_plugins sample_program)\<rparr>"
  have get: "hc_method ?c = ''GET''" "hc_path ?c = status_path" by (simp_all add: sample_call_def)
  have admitted: "admit (live_server sample_wiring (hc_method ?c) ?p1) (hc_request ?c) (pg_world ?p1) = (Inr (hc_request ?c), pg_world ?p1)"
    by (rule sample_admit) (simp add: sample_program_def)
  have fetched: "fetchNamespaceCosts ?e 0 ?b = Some [(''default'', Fin 100)]"
    using sample_fetch by (simp add: fetchNamespaceCosts_def fetch_windows_def sample_wiring_def sample_plugin_env_def)
  note r = status_after_check [OF sample_start rtranclp.rtrancl_refl rp q refl get admitted]
  then show ?thesis using fetched by (auto simp: Let_def intro!: exI [where x = ?p1])
qed




theorem session_cookie_forwarded_witness:
  "\<exists>resp. fst (respond sample_wiring (sample_call ''GET'' [''api'', ''v1'', ''allocation''] session_request) sample_program) = ProxyReply resp
     \<and> rw_body resp = JObj [(''Cookie'', JArr [JStr ''finguard_session=tok''])]"
proof -
  let ?c = "sample_call ''GET'' [''api'', ''v1'', ''allocation''] session_request"
  have mock: "\<not> px_mock (pg_proxy sample_program)" by (simp add: sample_program_def NewProxy_def)
  have get: "hc_method ?c = ''GET''" "hc_path ?c = [''api'', ''v1'', ''allocation'']" by (simp_all add: sample_call_def)
  have admitted: "admit (live_server sample_wiring (hc_method ?c) sample_program) (hc_request ?c) (pg_world sample_program)
      = (Inr (hc_request ?c), pg_world sample_program)"
    by (rule sample_admit) (simp add: sample_program_def)
  have target: "up_target (wr_upstream sample_wiring) (px_base (pg_proxy sample_program) @ ''/allocation'') (rr_query (hc_raw ?c))
      = Some (px_base (pg_proxy sample_program) @ ''/allocation'')"
    and build: "up_request (wr_upstream sample_wiring) (rr_method (hc_raw ?c)) (px_base (pg_proxy sample_program) @ ''/allocation'')"
    by (simp_all add: sample_wiring_def echo_upstream_def)
  have answer: "\<And>m t hs b n. up_do (wr_upstream sample_wiring) m t hs b n = Inr \<lparr>rw_status = 200, rw_headers = [],
      rw_body = (\<lambda>hs. JObj (map (\<lambda>(k, vs). (k, JArr (map JStr vs))) hs)) hs\<rparr>"
    by (simp add: sample_wiring_def echo_upstream_def)
  from session_cookie_forwarded [where f = "\<lambda>hs. JObj (map (\<lambda>(k, vs). (k, JArr (map JStr vs))) hs)",
      OF mock get admitted target build answer]
  show ?thesis by (auto simp: sample_call_def)
qed

end
