(* ===== verification/Spec2Isabelle.thy ===== *)
theory Spec2Isabelle
  imports Record_Query Query_Dates Hub_Progress Stream Updates Logins Routes
begin

text \<open>
  A verification library of FinGuard (the Go program under \<open>src/\<close>): a server that keeps projects, cost
  sources and cost records in a relational database, collects costs on a schedule, checks budgets in
  plugins, and streams events to browsers.

  \<^bold>\<open>The parts and where they are modelled.\<close>

  \<^item> \<open>Prelude\<close>: the string functions the program calls, table operations, hint collections.
    \<open>Models\<close>: the structs of \<open>internal/models/models.go\<close>, \<open>pkg/event/event.go\<close> and the query types of
    \<open>internal/store/store.go\<close>, one record field per Go field.
  \<^item> \<open>Database\<close>: the tables of \<open>migrations/000001_init.up.sql\<close> with their keys and foreign keys, the
    statements of \<open>internal/store/sql.go\<close> as changes of the tables, and the invariant \<open>db_inv\<close>.
    \<open>Store\<close>: the methods of \<open>internal/store/sql.go\<close>, over a \<open>world\<close> of tables, a clock and
    driver calls that may fail. \<open>Store_Laws\<close>: what they promise. \<open>Rebind\<close>, \<open>Statements\<close>,
    \<open>Connections\<close>: \<open>internal/store/rebind.go\<close>, \<open>parseDSN\<close>, the statement texts, and the wrappers around
    \<open>database/sql\<close>. \<open>Sql_Text\<close>, \<open>Scans\<close>, \<open>Record_Query\<close>: the texts read as SQL over the columns of the schema, with the
    arguments the methods pass and the \<open>Scan\<close> calls that read the rows. \<open>Migrate\<close>:
    \<open>internal/store/migrate.go\<close> over any SQL engine.
  \<^item> \<open>Http\<close>: requests, responses, JSON decoding and guards. \<open>Rbac\<close>, \<open>Rbac_Laws\<close>, \<open>Role_Laws\<close>:
    \<open>internal/auth/rbac.go\<close>. \<open>Base64\<close>, \<open>Auth\<close>, \<open>Auth_Laws\<close>: \<open>internal/auth/auth.go\<close>. \<open>Logins\<close>: logins
    that overlap, and a login from its first page to the session. \<open>Config\<close>, \<open>Boot\<close>:
    \<open>internal/config/config.go\<close> and \<open>NewManager\<close>. \<open>Server\<close>, \<open>Server_Laws\<close>: \<open>internal/server\<close>, its
    handlers and routes. \<open>Updates\<close>: updates of a project that overlap.
  \<^item> \<open>Hub\<close>, \<open>Hub_Progress\<close>: \<open>internal/stream/hub.go\<close>, as functions and as interleaved steps. \<open>Stream\<close>: a web
    socket connection, \<open>handleStream\<close> and its two pumps.
  \<^item> \<open>Scheduler\<close>, \<open>Scheduler_Laws\<close>: \<open>internal/collector\<close>, a pass as a function. \<open>Overlap\<close>: the passes as
    goroutines that interleave. \<open>Collectors\<close>, \<open>Collectors_Laws\<close>, \<open>Query_Dates\<close>: the
    Kubernetes, AWS, Azure and GCP collectors and the registry of \<open>main\<close>.
  \<^item> \<open>Floats\<close>, \<open>Calendar\<close>: IEEE double arithmetic on exact rationals, and Go's dates. \<open>Plugin_Api\<close>:
    \<open>pkg/plugin/plugin.go\<close>, channels, and the answers of OpenCost. \<open>Budgets\<close>, \<open>Budgets_Laws\<close>, \<open>Costbreakdown\<close>:
    the two plugins under \<open>plugins/\<close>. \<open>Plugins\<close>, \<open>Plugins_Laws\<close>: \<open>internal/plugin/manager.go\<close>.
    \<open>Pipeline\<close>: poll loop, event bridge and shutdown, interleaved. \<open>Proxy\<close>: \<open>internal/opencostproxy\<close>.
    \<open>Cluster_Cache\<close>: \<open>internal/clustercache\<close> over the stores of the Kubernetes client library.
  \<^item> \<open>Program\<close>: the start-up of \<open>cmd/finguard/main.go\<close>, the routes to the hub, the plugins and the proxy, and a step
    relation in which all components run. \<open>Program_Laws\<close>: its invariant. \<open>Routes\<close>: paths through several components.

  \<^bold>\<open>How they interact.\<close> A request passes the router and the session middleware (\<open>serve\<close>, \<open>api_v1\<close>) to a
  handler, which calls the store; the store changes the tables inside the \<open>world\<close>. A tick of the scheduler
  lists projects and sources, asks the registered collector, inserts the records and publishes an event to the
  hub. A plugin polls OpenCost and sends events into its channel; the bridge publishes them to the hub; the hub puts
  them into the queues of its clients; the writer of a connection takes them from there. \<open>program_step\<close> has a step for
  each of these, and for the health check, the informers of the cluster cache, the signal and the shutdown. Beside
  whole requests it has single calls of the store, as handlers that overlap make them, a subscription in two halves,
  and the access to the map of topics that the hub makes outside its lock. \<open>lives\<close> chains the lives of the process:
  the first start on an empty database, and every restart on the tables the previous life left.

  \<^bold>\<open>What the lemmas show.\<close> The schema invariant holds in every state the store, the server or the scheduler
  reaches; inserting records and applying migrations is all or nothing; queries return what was inserted; role
  checks decide what the tables grant. A session comes only from a verified login, and a verified login comes to a
  session; however logins overlap, an e-mail address has one account as long as no subject
  changes its address. The wrappers for the two database systems add no difference of their own: where the engines
  answer alike, so does the store; and what its texts, arguments and \<open>Scan\<close> calls say there is what the statements of \<open>Database\<close> do. The hub never sends on a
  closed channel, its methods return, and every client sees what was queued for it in order; plugin events reach the
  hub in order. Scheduler passes end and only add rows and stamps, and the rows are Kubernetes rows with finite costs;
  overlapping passes are as safe, and one that is not disturbed does what the function does.
  A budget is reported exceeded exactly when it is, in spite of rounding; projections and savings have their
  bounds. All of it together keeps one invariant, \<open>program_inv\<close>, from \<open>main\<close> on and across restarts: before the plugins are
  shut down nothing panics, the concurrent access to the map of topics excepted; no route of the API answers without a session; the budget route answers with the last check, and the
  alerts of a check can be brought to every browser with room. Some theorems state defects: what they describe is listed with the findings of the development.

  \<^bold>\<open>Interfaces.\<close> Contracts between components are locales, each interpreted on the model's definitions:
  \<open>step_invariant\<close> (a step relation and what it keeps; interpreted for every step relation here),
  \<open>guarding\<close> (a middleware), \<open>role_store\<close> and \<open>reliable_role_store\<close> (the store as the role checks see it),
  \<open>pass_contract\<close> (an operation of the scheduler; interpreted for its frame and for what it adds), and
  \<open>plugin_contract\<close> (a plugin behind the manager).

  \<^bold>\<open>Bounds.\<close> A client's queue holds 256 messages, a plugin's channel 100 events, a session lasts 24 hours: the
  code's own constants. No definition uses fuel: the loops recurse on their data, and the loops that run
  for the life of the program (scheduler and its passes, pumps, poll loops, health check) are step relations or functions of the
  list of their rounds.

  \<^bold>\<open>What is not modelled.\<close>
  What a \<open>TIMESTAMP\<close> or \<open>REAL\<close> column keeps of a Go value differs between the two database systems (PostgreSQL
  keeps microseconds and four-byte reals); it is a pair of parameters, \<open>e_time\<close> and \<open>e_real\<close>, applied to every value
  that is stored, and theorems speak of the values as the columns keep them. That PostgreSQL refuses a real out of
  range is left to the driver calls that may fail. A failing driver call has no effect: the case of a statement that was
  executed and whose answer was lost is outside.
  The text form of time stamps in the database and in JSON, except where the program builds it; JSON is kept by value
  (the order of keys and the spelling of numbers are not), and keys are matched up to ASCII case only. The sign of
  a floating-point zero. Time zones other than a fixed offset. The order PostgreSQL gives to texts is
  a parameter, and NaN in SQLite is not treated as NULL. In \<open>Overlap\<close> a call of the store or of a collector is
  one step, whatever the driver does inside it; in \<open>Program\<close> a poll round is one step, while
  \<open>Hub\<close>, \<open>Stream\<close>, \<open>Updates\<close>, \<open>Logins\<close> and \<open>Pipeline\<close> interleave what happens inside. The informers that fill the stores of
  \<open>Cluster_Cache\<close> belong to the Kubernetes client library: a step of theirs changes the contents arbitrarily. The
  listener, the timeouts and the log of \<open>cmd/finguard/main.go\<close>. The contents of the static files and of \<open>/swagger\<close>
  are fields of the wiring. Wire formats
  of identity tokens and cookies, and the random bytes of a login, are parameters; so is the handle of
  \<open>database/sql\<close> in \<open>Connections\<close>. \<open>Sql_Text\<close> and \<open>Record_Query\<close> read the texts over one table, not the two joins,
  and leave keys and \<open>ON DELETE\<close> to \<open>Database\<close>. \<open>docs/swagger\<close> is
  generated.
\<close>

end
